theory Spec2Isabelle
  imports Complex_Main
begin

section \<open>Numbers\<close>

text \<open>
  The library computes in IEEE double precision.  Rounding and the sign of zero are
  idealised away: a finite double is a real number.  The special values are kept, because
  the code reaches them (a pole of the Bessel function, a square root of a negative
  determinant) and NumPy returns them instead of raising.  The operations of this section
  do not leave the finite values by overflow or underflow; the section on the range of
  doubles adds that, and the densities are given in both readings.
\<close>

datatype fl = Fin real | PInf | NInf | NaN

fun fneg :: "fl \<Rightarrow> fl" where
  "fneg (Fin a) = Fin (- a)"
| "fneg PInf = NInf"
| "fneg NInf = PInf"
| "fneg NaN = NaN"

fun fadd :: "fl \<Rightarrow> fl \<Rightarrow> fl" where
  "fadd (Fin a) (Fin b) = Fin (a + b)"
| "fadd NaN y = NaN"
| "fadd x NaN = NaN"
| "fadd PInf NInf = NaN"
| "fadd NInf PInf = NaN"
| "fadd PInf y = PInf"
| "fadd x PInf = PInf"
| "fadd NInf y = NInf"
| "fadd x NInf = NInf"

definition fsub :: "fl \<Rightarrow> fl \<Rightarrow> fl" where
  "fsub x y = fadd x (fneg y)"

text \<open>An infinity with the sign of a real number; \<open>inf * 0\<close> is not a number.\<close>

definition signed_inf :: "bool \<Rightarrow> real \<Rightarrow> fl" where
  "signed_inf pos a =
     (if a = 0 then NaN else if (0 < a) = pos then PInf else NInf)"

fun fmul :: "fl \<Rightarrow> fl \<Rightarrow> fl" where
  "fmul (Fin a) (Fin b) = Fin (a * b)"
| "fmul NaN y = NaN"
| "fmul x NaN = NaN"
| "fmul PInf (Fin b) = signed_inf True b"
| "fmul NInf (Fin b) = signed_inf False b"
| "fmul (Fin a) PInf = signed_inf True a"
| "fmul (Fin a) NInf = signed_inf False a"
| "fmul PInf PInf = PInf"
| "fmul NInf NInf = PInf"
| "fmul PInf NInf = NInf"
| "fmul NInf PInf = NInf"

text \<open>NumPy's true division: a finite value over zero is an infinity, \<open>0 / 0\<close> and
  \<open>inf / inf\<close> are not numbers, a finite value over an infinity is zero.\<close>

fun fdiv :: "fl \<Rightarrow> fl \<Rightarrow> fl" where
  "fdiv (Fin a) (Fin b) = (if b = 0 then signed_inf True a else Fin (a / b))"
| "fdiv NaN y = NaN"
| "fdiv x NaN = NaN"
| "fdiv (Fin a) PInf = Fin 0"
| "fdiv (Fin a) NInf = Fin 0"
| "fdiv PInf (Fin b) = (if 0 \<le> b then PInf else NInf)"
| "fdiv NInf (Fin b) = (if 0 \<le> b then NInf else PInf)"
| "fdiv PInf y = NaN"
| "fdiv NInf y = NaN"

definition is_int :: "real \<Rightarrow> bool" where
  "is_int y = (of_int \<lfloor>y\<rfloor> = y)"

definition odd_int :: "real \<Rightarrow> bool" where
  "odd_int y = (is_int y \<and> odd \<lfloor>y\<rfloor>)"

text \<open>NumPy's \<open>x ** y\<close> for a finite exponent \<open>y\<close> (the C function \<open>pow\<close>): a
  negative base is defined for integral exponents only.\<close>

fun fpow :: "fl \<Rightarrow> real \<Rightarrow> fl" where
  "fpow (Fin a) y =
     (if y = 0 then Fin 1
      else if 0 < a then Fin (a powr y)
      else if a = 0 then (if 0 < y then Fin 0 else PInf)
      else if is_int y then Fin ((if odd_int y then - 1 else 1) * (\<bar>a\<bar> powr y))
      else NaN)"
| "fpow PInf y = (if y = 0 then Fin 1 else if 0 < y then PInf else Fin 0)"
| "fpow NInf y =
     (if y = 0 then Fin 1 else if y < 0 then Fin 0
      else if odd_int y then NInf else PInf)"
| "fpow NaN y = (if y = 0 then Fin 1 else NaN)"

fun fexp :: "fl \<Rightarrow> fl" where
  "fexp (Fin a) = Fin (exp a)"
| "fexp PInf = PInf"
| "fexp NInf = Fin 0"
| "fexp NaN = NaN"

fun is_fin :: "fl \<Rightarrow> bool" where
  "is_fin (Fin a) = True"
| "is_fin x = False"

fun the_fin :: "fl \<Rightarrow> real" where
  "the_fin (Fin a) = a"
| "the_fin x = 0"


text \<open>\<open>ndarray.sum()\<close> adds from the left, starting at zero.\<close>

definition fsum :: "fl list \<Rightarrow> fl" where
  "fsum xs = foldl fadd (Fin 0) xs"

section \<open>Python values and errors\<close>

text \<open>
  \<open>eta\<close> is a Python number when it comes from the constructor and a one-element
  array once \<open>SkStDM.from_theta\<close> has run.  The difference shows at a zero divisor:
  Python's scalar division raises, NumPy's returns an infinity or NaN.
\<close>

datatype pynum = PyScalar real | NdArray1 real

fun num_val :: "pynum \<Rightarrow> real" where
  "num_val (PyScalar e) = e"
| "num_val (NdArray1 e) = e"

fun is_scalar :: "pynum \<Rightarrow> bool" where
  "is_scalar (PyScalar e) = True"
| "is_scalar (NdArray1 e) = False"

datatype error =
    NoDataGiven        \<comment> \<open>\<open>ValueError('No data given!')\<close>, raised by \<open>pdf\<close>\<close>
  | IndexError         \<comment> \<open>\<open>theta[0]\<close> on an empty sequence\<close>
  | ZeroDivisionError  \<comment> \<open>division of Python scalars by zero\<close>
  | LibValueError      \<comment> \<open>\<open>ValueError\<close> raised inside NumPy or SciPy: shapes, non-finite input\<close>
  | LinAlgError        \<comment> \<open>\<open>scipy.linalg.solve\<close> on a singular matrix\<close>
  | OverflowError      \<comment> \<open>a power of Python scalars beyond the largest double\<close>

definition bind_err :: "error + 'a \<Rightarrow> ('a \<Rightarrow> error + 'b) \<Rightarrow> error + 'b" where
  "bind_err m f = (case m of Inl e \<Rightarrow> Inl e | Inr v \<Rightarrow> f v)"

section \<open>Arrays\<close>

text \<open>
  A two-dimensional array is its number of columns and its rows, so that an array without
  rows still has a shape.  A data grid is one observation \<open>(k,)\<close> or \<open>T\<close> observations
  \<open>(T, k)\<close>.
\<close>

type_synonym 'a arr2 = "nat \<times> 'a list list"

datatype grid = Vec "real list" | Mat nat "real list list"

fun atleast_2d :: "grid \<Rightarrow> real arr2" where
  "atleast_2d (Vec v) = (length v, [v])"
| "atleast_2d (Mat k rows) = (k, rows)"

text \<open>\<open>a.T\<close>\<close>

definition arr_T :: "'a arr2 \<Rightarrow> 'a arr2" where
  "arr_T a = (length (snd a), map (\<lambda>j. map (\<lambda>r. r ! j) (snd a)) [0..<fst a])"

text \<open>\<open>a.sum(0)\<close>: the sums of the columns.\<close>

definition sum_axis0 :: "fl arr2 \<Rightarrow> fl list" where
  "sum_axis0 a = map (\<lambda>j. fsum (map (\<lambda>r. r ! j) (snd a))) [0..<fst a]"

text \<open>\<open>a * b\<close> for two arrays of one shape.\<close>

definition mul_elem :: "fl arr2 \<Rightarrow> fl arr2 \<Rightarrow> fl arr2" where
  "mul_elem a b = (fst a, map2 (map2 fmul) (snd a) (snd b))"

text \<open>\<open>np.eye(n)\<close>\<close>

definition eye :: "nat \<Rightarrow> fl list list" where
  "eye n = map (\<lambda>i. map (\<lambda>j. if i = j then Fin 1 else Fin 0) [0..<n]) [0..<n]"

text \<open>
  \<open>data - mu\<close> for a \<open>(T, k)\<close> array and an \<open>(m,)\<close> array, by NumPy's broadcasting: the
  last axes must agree or one of them must be 1.
\<close>

definition broadcast_sub :: "real arr2 \<Rightarrow> fl list \<Rightarrow> error + fl arr2" where
  "broadcast_sub x m =
     (if fst x = length m
        then Inr (fst x, map (\<lambda>r. map2 (\<lambda>a u. fsub (Fin a) u) r m) (snd x))
      else if length m = 1
        then Inr (fst x, map (\<lambda>r. map (\<lambda>a. fsub (Fin a) (m ! 0)) r) (snd x))
      else if fst x = 1
        then Inr (length m, map (\<lambda>r. map (\<lambda>u. fsub (Fin (r ! 0)) u) m) (snd x))
      else Inl LibValueError)"

subsection \<open>Linear algebra\<close>

text \<open>
  \<open>scipy.linalg.det\<close> and \<open>scipy.linalg.solve\<close> in exact arithmetic: the determinant
  by expansion along the first row, the solution of \<open>a x = b\<close> by Cramer's rule.
\<close>

definition delete_at :: "nat \<Rightarrow> 'a list \<Rightarrow> 'a list" where
  "delete_at j xs = take j xs @ drop (Suc j) xs"

function det :: "real list list \<Rightarrow> real" where
  "det [] = 1"
| "det (r # rs) =
     sum_list (map (\<lambda>j. (- 1) ^ j * r ! j * det (map (delete_at j) rs)) [0..<length r])"
  by pat_completeness auto
termination
  by (relation "measure length") auto

declare det.simps(2) [simp del]

definition replace_col :: "nat \<Rightarrow> real list \<Rightarrow> real list list \<Rightarrow> real list list" where
  "replace_col i b a = map2 (\<lambda>row bi. row[i := bi]) a b"

definition cramer :: "real list list \<Rightarrow> real list \<Rightarrow> real list" where
  "cramer a b = map (\<lambda>i. det (replace_col i b a) / det a) [0..<length a]"

text \<open>Both routines validate their input first (\<open>check_finite=True\<close>).\<close>

definition fin_list :: "fl list \<Rightarrow> real list option" where
  "fin_list xs = (if list_all is_fin xs then Some (map the_fin xs) else None)"

definition fin_mat :: "fl list list \<Rightarrow> real list list option" where
  "fin_mat a = (if list_all (list_all is_fin) a then Some (map (map the_fin) a) else None)"

definition is_square :: "'a list list \<Rightarrow> bool" where
  "is_square a = list_all (\<lambda>r. length r = length a) a"

text \<open>\<open>scl.det(a)\<close>; the result is a NumPy scalar.\<close>

definition scl_det :: "fl list list \<Rightarrow> error + real" where
  "scl_det a =
     (case fin_mat a of
        None \<Rightarrow> Inl LibValueError
      | Some a' \<Rightarrow> if is_square a' then Inr (det a') else Inl LibValueError)"

text \<open>\<open>scl.solve(a, b)\<close> for a vector \<open>b\<close>.\<close>

definition scl_solve1 :: "fl list list \<Rightarrow> fl list \<Rightarrow> error + real list" where
  "scl_solve1 a b =
     (case fin_mat a of
        None \<Rightarrow> Inl LibValueError
      | Some a' \<Rightarrow>
          (case fin_list b of
             None \<Rightarrow> Inl LibValueError
           | Some b' \<Rightarrow>
               if \<not> is_square a' then Inl LibValueError
               else if length b' \<noteq> length a' then Inl LibValueError
               else if det a' = 0 then Inl LinAlgError
               else Inr (cramer a' b')))"

text \<open>\<open>scl.solve(a, b)\<close> for a matrix \<open>b\<close>: one system for each column of \<open>b\<close>.\<close>

definition scl_solve :: "fl list list \<Rightarrow> fl arr2 \<Rightarrow> error + fl arr2" where
  "scl_solve a b =
     (case fin_mat a of
        None \<Rightarrow> Inl LibValueError
      | Some a' \<Rightarrow>
          (case fin_mat (snd b) of
             None \<Rightarrow> Inl LibValueError
           | Some b' \<Rightarrow>
               if \<not> is_square a' then Inl LibValueError
               else if length b' \<noteq> length a' then Inl LibValueError
               else if det a' = 0 then Inl LinAlgError
               else
                 (let cols = snd (arr_T (fst b, b'));
                      xs = map (\<lambda>col. map Fin (cramer a' col)) cols
                  in Inr (arr_T (length a', xs)))))"

subsection \<open>Special functions\<close>

text \<open>
  \<open>scipy.special\<close>'s \<open>kv\<close>, \<open>gamma\<close> and \<open>gammaln\<close> are given by the real functions
  they compute away from their poles: \<open>K v x\<close> is the modified Bessel function of the
  second kind for \<open>x > 0\<close>, \<open>G\<close> the gamma function, \<open>lgam\<close> the logarithm of its absolute
  value.  At the poles SciPy returns special values: \<open>kv(v, 0) = inf\<close>,
  \<open>kv(v, x) = nan\<close> for \<open>x < 0\<close>, \<open>gamma(0) = inf\<close>, \<open>gamma\<close> of a negative integer is
  \<open>nan\<close> (\<open>inf\<close> before SciPy 1.15), \<open>gammaln\<close> of a non-positive integer is \<open>inf\<close>.
  Here a finite value of the function is returned as it is; \<open>sp_kv_dbl\<close>, \<open>sp_gamma_dbl\<close>
  and \<open>sp_gammaln_dbl\<close> below return \<open>inf\<close> and \<open>0\<close> where it leaves the range of doubles.
\<close>

fun sp_kv :: "(real \<Rightarrow> real \<Rightarrow> real) \<Rightarrow> real \<Rightarrow> fl \<Rightarrow> fl" where
  "sp_kv K v (Fin x) = (if x < 0 then NaN else if x = 0 then PInf else Fin (K v x))"
| "sp_kv K v PInf = Fin 0"
| "sp_kv K v NInf = NaN"
| "sp_kv K v NaN = NaN"

definition sp_gamma :: "(real \<Rightarrow> real) \<Rightarrow> real \<Rightarrow> fl" where
  "sp_gamma G x = (if x = 0 then PInf else if x < 0 \<and> is_int x then NaN else Fin (G x))"

definition sp_gammaln :: "(real \<Rightarrow> real) \<Rightarrow> real \<Rightarrow> fl" where
  "sp_gammaln lgam x = (if x \<le> 0 \<and> is_int x then PInf else Fin (lgam x))"

section \<open>The density objects\<close>

record MultiDensity =
  ndim :: nat
  eta :: pynum
  lam :: "real list"
  data :: "grid option"

record SkStDM = MultiDensity +
  mu :: "real list option"
  sigma :: "real list list option"

text \<open>
  Modelled from the spec: the constructor of the base class \<open>MultiDensity\<close>
  (\<open>multidensity.py\<close> is not among the sources).  The base parameter container owns
  \<open>ndim\<close>, \<open>eta\<close>, \<open>lam\<close> and \<open>data\<close>; it stores them as given, \<open>lam\<close> as an array.
\<close>

definition MultiDensity_init ::
  "nat \<Rightarrow> pynum \<Rightarrow> real list \<Rightarrow> grid option \<Rightarrow> MultiDensity" where
  "MultiDensity_init n e l d = \<lparr>ndim = n, eta = e, lam = l, data = d\<rparr>"

definition SkStDM_init ::
  "nat \<Rightarrow> pynum \<Rightarrow> real list \<Rightarrow> real list option \<Rightarrow> real list list option
     \<Rightarrow> grid option \<Rightarrow> SkStDM" where
  "SkStDM_init n e l m s d =
     MultiDensity.extend (MultiDensity_init n e l d) (SkStDM.fields m s)"

text \<open>\<open>MvSt.__init__\<close> passes \<open>lam = np.zeros(ndim)\<close> to the base constructor.\<close>

definition MvSt_init ::
  "nat \<Rightarrow> pynum \<Rightarrow> real list option \<Rightarrow> real list list option \<Rightarrow> grid option \<Rightarrow> SkStDM" where
  "MvSt_init n e m s d =
     MultiDensity.extend (MultiDensity_init n e (replicate n 0) d) (SkStDM.fields m s)"

subsection \<open>Parameters as a flat vector\<close>

definition SkStDM_from_theta :: "SkStDM \<Rightarrow> real list \<Rightarrow> error + SkStDM" where
  "SkStDM_from_theta self theta =
     (case theta of
        [] \<Rightarrow> Inl IndexError
      | t0 # rest \<Rightarrow> Inr (self\<lparr>eta := NdArray1 t0, lam := rest\<rparr>))"

definition MvSt_from_theta :: "SkStDM \<Rightarrow> pynum \<Rightarrow> SkStDM" where
  "MvSt_from_theta self theta = self\<lparr>eta := theta\<rparr>"

definition SkStDM_bounds :: "SkStDM \<Rightarrow> (real option \<times> real option) list" where
  "SkStDM_bounds self =
     (let bound_eta = [Some 4];
          bound_lam = replicate (ndim self) None
      in zip (bound_eta @ bound_lam) (replicate (1 + ndim self) None))"

definition SkStDM_theta_start :: "nat \<Rightarrow> real list" where
  "SkStDM_theta_start n = (let eta = [10]; lam = replicate n 0 in eta @ lam)"

definition MvSt_bounds :: "SkStDM \<Rightarrow> (real option \<times> real option) list" where
  "MvSt_bounds self = [(Some 2, None)]"

definition MvSt_theta_start :: "nat \<Rightarrow> pynum" where
  "MvSt_theta_start n = PyScalar 10"


subsection \<open>Location and scale\<close>

text \<open>
  A division whose operands are Python scalars raises at a zero divisor; the same division
  on arrays follows NumPy.
\<close>

definition py_div :: "bool \<Rightarrow> fl \<Rightarrow> fl \<Rightarrow> error + fl" where
  "py_div scalar x y =
     (if scalar \<and> y = Fin 0 then Inl ZeroDivisionError else Inr (fdiv x y))"

definition SkStDM_const_mu :: "SkStDM \<Rightarrow> error + fl list" where
  "SkStDM_const_mu self =
     (case mu self of
        None \<Rightarrow>
          (let e = num_val (eta self) in
           bind_err (py_div (is_scalar (eta self)) (Fin e) (Fin (2 - e)))
             (\<lambda>c. Inr (map (\<lambda>l. fmul c (Fin l)) (lam self))))
      | Some m \<Rightarrow> Inr (map Fin m))"

definition SkStDM_const_sigma :: "SkStDM \<Rightarrow> error + fl list list" where
  "SkStDM_const_sigma self =
     (case sigma self of
        None \<Rightarrow>
          (let n = length (lam self);
               e = num_val (eta self);
               sc = is_scalar (eta self) in
           bind_err (py_div sc (Fin 2) (Fin e)) (\<lambda>q.
             let scaled_eye = map (map (fmul (fsub (Fin 1) q))) (eye n) in
             bind_err (py_div sc (Fin (2 * e)) (Fin (e - 2))) (\<lambda>d1.
             bind_err (py_div sc d1 (Fin (e - 4))) (\<lambda>d2.
               let v = map (\<lambda>l. fmul d2 (Fin l)) (lam self);
                   outer = map (\<lambda>li. map (\<lambda>vj. fmul vj (Fin li)) v) (lam self)
               in Inr (map2 (map2 fsub) scaled_eye outer)))))
      | Some s \<Rightarrow> Inr (map (map Fin) s))"

definition MvSt_const_mu :: "SkStDM \<Rightarrow> fl list" where
  "MvSt_const_mu self =
     (case mu self of
        None \<Rightarrow> replicate (ndim self) (Fin 0)
      | Some m \<Rightarrow> map Fin m)"

definition MvSt_const_sigma :: "SkStDM \<Rightarrow> error + fl list list" where
  "MvSt_const_sigma self =
     (case sigma self of
        None \<Rightarrow>
          bind_err (py_div (is_scalar (eta self)) (Fin 2) (Fin (num_val (eta self))))
            (\<lambda>q. Inr (map (map (fmul (fsub (Fin 1) q))) (eye (ndim self))))
      | Some s \<Rightarrow> Inr (map (map Fin) s))"

subsection \<open>The densities\<close>

text \<open>
  \<open>pdf\<close> returns the object after the call together with the values or the exception.
  The body runs on the object whose \<open>data\<close> has been replaced.  In \<open>MvSt_pdf\<close> and
  \<open>SkStDM_pdf\<close> the arithmetic does not overflow; \<open>MvSt_pdf_dbl\<close> and \<open>SkStDM_pdf_dbl\<close>
  below are the same methods with the range of doubles.
\<close>

definition MvSt_pdf_body ::
  "(real \<Rightarrow> real) \<Rightarrow> SkStDM \<Rightarrow> real arr2 \<Rightarrow> error + fl list" where
  "MvSt_pdf_body lgam self x =
     (let n = length (lam self);
          e = num_val (eta self) in
      bind_err (broadcast_sub x (MvSt_const_mu self)) (\<lambda>diff.
      bind_err (MvSt_const_sigma self) (\<lambda>sg.
      bind_err (scl_solve sg (arr_T diff)) (\<lambda>diff_norm.
        let diff_sandwich = sum_axis0 (mul_elem (arr_T diff) diff_norm) in
      bind_err (MvSt_const_sigma self) (\<lambda>sg'.
      bind_err (scl_det sg') (\<lambda>d.
        let term1 = fpow (Fin ((pi * e) ^ n * d)) (- (1 / 2));
            term2 = fexp (fsub (sp_gammaln lgam ((e + real (ndim self)) / 2))
                               (sp_gammaln lgam (e / 2)));
            term3 = map (\<lambda>q. fpow (fadd (Fin 1) (fdiv q (Fin e))) (- (e + real n) / 2))
                      diff_sandwich
        in Inr (map (\<lambda>t3. fmul (fmul term1 term2) t3) term3)))))))"

definition MvSt_pdf ::
  "(real \<Rightarrow> real) \<Rightarrow> SkStDM \<Rightarrow> grid option \<Rightarrow> SkStDM \<times> (error + fl list)" where
  "MvSt_pdf lgam self dat =
     (case dat of
        None \<Rightarrow> (self, Inl NoDataGiven)
      | Some d \<Rightarrow>
          (let x = atleast_2d d;
               self' = self\<lparr>data := Some (Mat (fst x) (snd x))\<rparr>
           in (self', MvSt_pdf_body lgam self' x)))"

definition SkStDM_pdf_body ::
  "(real \<Rightarrow> real \<Rightarrow> real) \<Rightarrow> (real \<Rightarrow> real) \<Rightarrow> SkStDM \<Rightarrow> real arr2 \<Rightarrow> error + fl list" where
  "SkStDM_pdf_body K G self x =
     (let n = length (lam self);
          e = num_val (eta self);
          nu = (e + real n) / 2 in
      bind_err (SkStDM_const_mu self) (\<lambda>m.
      bind_err (broadcast_sub x m) (\<lambda>diff.
      bind_err (SkStDM_const_sigma self) (\<lambda>sg.
      bind_err (scl_solve sg (arr_T diff)) (\<lambda>diff_norm.
        let diff_sandwich = sum_axis0 (mul_elem (arr_T diff) diff_norm) in
      bind_err (SkStDM_const_sigma self) (\<lambda>sg'.
      bind_err (scl_solve1 sg' (map Fin (lam self))) (\<lambda>sl.
        let norm_lam = fsum (map2 fmul (map Fin (lam self)) (map Fin sl));
            kappa = map (\<lambda>q. fpow (fmul (fadd (Fin e) q) norm_lam) (1 / 2)) diff_sandwich in
      bind_err (SkStDM_const_sigma self) (\<lambda>sg''.
      bind_err (scl_det sg'') (\<lambda>d.
        let front = fdiv (Fin (2 powr (1 - nu))) (fpow (Fin ((pi * e) ^ n * d)) (1 / 2));
            skew = map (\<lambda>r. fsum (map2 fmul r (map Fin (lam self))))
                     (snd (arr_T diff_norm))
        in Inr (map (\<lambda>(k, s, q).
                  fmul (fmul (fdiv (fmul (fmul front (sp_kv K nu k)) (fpow k nu))
                                   (sp_gamma G (e / 2)))
                             (fexp s))
                       (fpow (fadd (Fin 1) (fdiv q (Fin e))) (- nu)))
                 (zip kappa (zip skew diff_sandwich))))))))))))"

definition SkStDM_pdf ::
  "(real \<Rightarrow> real \<Rightarrow> real) \<Rightarrow> (real \<Rightarrow> real) \<Rightarrow> SkStDM \<Rightarrow> grid option
     \<Rightarrow> SkStDM \<times> (error + fl list)" where
  "SkStDM_pdf K G self dat =
     (case dat of
        None \<Rightarrow> (self, Inl NoDataGiven)
      | Some d \<Rightarrow>
          (let x = atleast_2d d;
               self' = self\<lparr>data := Some (Mat (fst x) (snd x))\<rparr>
           in (self', SkStDM_pdf_body K G self' x)))"

subsection \<open>Simulation\<close>

text \<open>
  \<open>rvs\<close> adds and multiplies arrays of different shapes, so its arrays carry their
  rank: a scalar, a vector, or a matrix with its number of columns.  A binary operation
  follows NumPy's broadcasting: the shapes are aligned at the last axis, and two axes
  agree when they are equal or one of them is 1.
\<close>

datatype ndarray = Arr0 fl | Arr1 "fl list" | Arr2 nat "fl list list"

fun shape :: "ndarray \<Rightarrow> nat list" where
  "shape (Arr0 x) = []"
| "shape (Arr1 xs) = [length xs]"
| "shape (Arr2 k rows) = [length rows, k]"

fun rank :: "ndarray \<Rightarrow> nat" where
  "rank (Arr0 x) = 0"
| "rank (Arr1 xs) = 1"
| "rank (Arr2 k rows) = 2"

fun rows_of :: "ndarray \<Rightarrow> nat \<times> nat \<times> fl list list" where
  "rows_of (Arr0 x) = (1, 1, [[x]])"
| "rows_of (Arr1 xs) = (1, length xs, [xs])"
| "rows_of (Arr2 k rows) = (length rows, k, rows)"

definition of_rows :: "nat \<Rightarrow> nat \<Rightarrow> fl list list \<Rightarrow> ndarray" where
  "of_rows rk c rows =
     (if rk = 0 then Arr0 (rows ! 0 ! 0) else if rk = 1 then Arr1 (rows ! 0) else Arr2 c rows)"

definition broadcast_op :: "(fl \<Rightarrow> fl \<Rightarrow> fl) \<Rightarrow> ndarray \<Rightarrow> ndarray \<Rightarrow> error + ndarray" where
  "broadcast_op f a b =
     (case rows_of a of (r1, c1, x) \<Rightarrow>
      case rows_of b of (r2, c2, y) \<Rightarrow>
        if (r1 = r2 \<or> r1 = 1 \<or> r2 = 1) \<and> (c1 = c2 \<or> c1 = 1 \<or> c2 = 1)
        then
          (let r = (if r1 = 1 then r2 else r1);
               c = (if c1 = 1 then c2 else c1)
           in Inr (of_rows (max (rank a) (rank b)) c
                (map (\<lambda>i. map (\<lambda>j.
                    f (x ! (if r1 = 1 then 0 else i) ! (if c1 = 1 then 0 else j))
                      (y ! (if r2 = 1 then 0 else i) ! (if c2 = 1 then 0 else j)))
                  [0..<c]) [0..<r])))
        else Inl LibValueError)"

text \<open>
  \<open>scipy.stats.multivariate_normal.rvs\<close> removes the axes of length 1 from the
  \<open>(size, dim)\<close> array of its draws before it returns it.
\<close>

fun squeeze :: "ndarray \<Rightarrow> ndarray" where
  "squeeze (Arr2 k rows) =
     (if length rows = 1 \<and> k = 1 then Arr0 (rows ! 0 ! 0)
      else if k = 1 then Arr1 (map (\<lambda>r. r ! 0) rows)
      else if length rows = 1 then Arr1 (rows ! 0)
      else Arr2 k rows)"
| "squeeze (Arr1 xs) = (if length xs = 1 then Arr0 (xs ! 0) else Arr1 xs)"
| "squeeze (Arr0 x) = Arr0 x"

fun arr_pow :: "ndarray \<Rightarrow> real \<Rightarrow> ndarray" where
  "arr_pow (Arr0 x) y = Arr0 (fpow x y)"
| "arr_pow (Arr1 xs) y = Arr1 (map (\<lambda>x. fpow x y) xs)"
| "arr_pow (Arr2 k rows) y = Arr2 k (map (map (\<lambda>x. fpow x y)) rows)"

text \<open>
  The random draws are arguments (\<open>sz\<close> is the \<open>size\<close> of the source): \<open>ig i\<close> is the
  \<open>i\<close>-th inverse-gamma variate (shape \<open>eta/2\<close>, scale \<open>eta/2\<close>; both must be positive),
  \<open>mv i j\<close> the \<open>j\<close>-th component of the \<open>i\<close>-th normal vector, of the dimension of
  \<open>const_sigma()\<close>.  The covariance must be a finite square matrix; the test for positive
  semi-definiteness of recent SciPy versions is not part of the model.
\<close>

definition SkStDM_rvs ::
  "SkStDM \<Rightarrow> nat \<Rightarrow> (nat \<Rightarrow> real) \<Rightarrow> (nat \<Rightarrow> nat \<Rightarrow> real) \<Rightarrow> error + ndarray" where
  "SkStDM_rvs self sz ig mv =
     (if num_val (eta self) / 2 \<le> 0 then Inl LibValueError
      else
        (let igrv = Arr2 1 (map (\<lambda>i. [Fin (ig i)]) [0..<sz]) in
         bind_err (SkStDM_const_sigma self) (\<lambda>cov.
           case fin_mat cov of
             None \<Rightarrow> Inl LibValueError
           | Some c \<Rightarrow>
               if \<not> is_square c then Inl LibValueError
               else
                 (let draws = map (\<lambda>i. map (\<lambda>j. Fin (mv i j)) [0..<length c]) [0..<sz];
                      mvnorm = squeeze (Arr2 (length c) draws) in
                  bind_err (SkStDM_const_mu self) (\<lambda>m.
                  bind_err (broadcast_op fmul (Arr1 (map Fin (lam self))) igrv) (\<lambda>t1.
                  bind_err (broadcast_op fadd (Arr1 m) t1) (\<lambda>t2.
                  bind_err (broadcast_op fmul (arr_pow igrv (1 / 2)) mvnorm) (\<lambda>t3.
                  broadcast_op fadd t2 t3))))))))"

section \<open>The range of doubles\<close>

text \<open>
  A finite double lies between \<open>-(2\<^sup>1\<^sup>0\<^sup>2\<^sup>4 - 2\<^sup>9\<^sup>7\<^sup>1)\<close> and \<open>2\<^sup>1\<^sup>0\<^sup>2\<^sup>4 - 2\<^sup>9\<^sup>7\<^sup>1\<close>, and the
  smallest positive one is \<open>2\<^sup>-\<^sup>1\<^sup>0\<^sup>7\<^sup>4\<close>.  A result of magnitude \<open>2\<^sup>1\<^sup>0\<^sup>2\<^sup>4 - 2\<^sup>9\<^sup>7\<^sup>0\<close> or more is
  rounded to an infinity, a result of magnitude \<open>2\<^sup>-\<^sup>1\<^sup>0\<^sup>7\<^sup>5\<close> or less to zero.  The densities
  leave this range at ordinary parameters: \<open>(\<pi> eta)\<^sup>n\<^sup>d\<^sup>i\<^sup>m\<close> from \<open>ndim = 206\<close> on at
  \<open>eta = 10\<close>, \<open>gamma(eta/2)\<close> from \<open>eta = 344\<close> on.  Between the two bounds rounding is
  still idealised away.
\<close>

definition dbl_over :: real where
  "dbl_over = 2 ^ 1024 - 2 ^ 970"

definition dbl_tiny :: real where
  "dbl_tiny = 1 / 2 ^ 1075"

definition rnd :: "real \<Rightarrow> fl" where
  "rnd x =
     (if dbl_over \<le> x then PInf
      else if x \<le> - dbl_over then NInf
      else if \<bar>x\<bar> \<le> dbl_tiny then Fin 0
      else Fin x)"

fun fl_rnd :: "fl \<Rightarrow> fl" where
  "fl_rnd (Fin x) = rnd x"
| "fl_rnd PInf = PInf"
| "fl_rnd NInf = NInf"
| "fl_rnd NaN = NaN"

text \<open>NumPy's operations with their results in the range of doubles.\<close>

definition dadd :: "fl \<Rightarrow> fl \<Rightarrow> fl" where
  "dadd x y = fl_rnd (fadd x y)"

definition dsub :: "fl \<Rightarrow> fl \<Rightarrow> fl" where
  "dsub x y = fl_rnd (fsub x y)"

definition dmul :: "fl \<Rightarrow> fl \<Rightarrow> fl" where
  "dmul x y = fl_rnd (fmul x y)"

definition ddiv :: "fl \<Rightarrow> fl \<Rightarrow> fl" where
  "ddiv x y = fl_rnd (fdiv x y)"

definition dpow :: "fl \<Rightarrow> real \<Rightarrow> fl" where
  "dpow x y = fl_rnd (fpow x y)"

definition dexp :: "fl \<Rightarrow> fl" where
  "dexp x = fl_rnd (fexp x)"

text \<open>
  \<open>x ** n\<close> for an integer \<open>n \<ge> 0\<close> and \<open>2 ** y\<close>.  On Python scalars a power that
  overflows raises \<open>OverflowError\<close> and one that underflows is zero; on arrays NumPy
  returns an infinity.
\<close>

definition py_pow_int :: "bool \<Rightarrow> fl \<Rightarrow> nat \<Rightarrow> error + fl" where
  "py_pow_int scalar x n =
     (case x of
        Fin b \<Rightarrow>
          if scalar \<and> dbl_over \<le> \<bar>b ^ n\<bar> then Inl OverflowError else Inr (rnd (b ^ n))
      | _ \<Rightarrow> Inr (fpow x (real n)))"

definition py_pow2 :: "bool \<Rightarrow> real \<Rightarrow> error + fl" where
  "py_pow2 scalar y =
     (if scalar \<and> dbl_over \<le> 2 powr y then Inl OverflowError else Inr (rnd (2 powr y)))"

text \<open>
  The special functions with their results in the range of doubles: \<open>kv\<close> and \<open>gamma\<close>
  return \<open>inf\<close> where the function exceeds the largest double (\<open>gamma(x)\<close> from
  \<open>x = 171.7\<close> on, \<open>kv(v, x)\<close> for a large order \<open>v\<close>) and \<open>0\<close> where it is below the
  smallest one.
\<close>

fun sp_kv_dbl :: "(real \<Rightarrow> real \<Rightarrow> real) \<Rightarrow> real \<Rightarrow> fl \<Rightarrow> fl" where
  "sp_kv_dbl K v (Fin x) = (if x < 0 then NaN else if x = 0 then PInf else rnd (K v x))"
| "sp_kv_dbl K v PInf = Fin 0"
| "sp_kv_dbl K v NInf = NaN"
| "sp_kv_dbl K v NaN = NaN"

definition sp_gamma_dbl :: "(real \<Rightarrow> real) \<Rightarrow> real \<Rightarrow> fl" where
  "sp_gamma_dbl G x =
     (if x = 0 then PInf else if x < 0 \<and> is_int x then NaN else rnd (G x))"

definition sp_gammaln_dbl :: "(real \<Rightarrow> real) \<Rightarrow> real \<Rightarrow> fl" where
  "sp_gammaln_dbl lgam x = (if x \<le> 0 \<and> is_int x then PInf else rnd (lgam x))"

text \<open>
  The two densities with every result of the formula in the range of doubles.  The
  quantities that enter the formula (the quadratic forms, the determinant, the skewness
  norm and the skewness term) are rounded to the range as well.  Python evaluates the
  operands of the returned expression from left to right, so that the powers of Python
  scalars come before the determinant.
\<close>

definition MvSt_pdf_body_dbl ::
  "(real \<Rightarrow> real) \<Rightarrow> SkStDM \<Rightarrow> real arr2 \<Rightarrow> error + fl list" where
  "MvSt_pdf_body_dbl lgam self x =
     (let n = length (lam self);
          e = num_val (eta self);
          sc = is_scalar (eta self) in
      bind_err (broadcast_sub x (MvSt_const_mu self)) (\<lambda>diff.
      bind_err (MvSt_const_sigma self) (\<lambda>sg.
      bind_err (scl_solve sg (arr_T diff)) (\<lambda>diff_norm.
        let diff_sandwich = map fl_rnd (sum_axis0 (mul_elem (arr_T diff) diff_norm)) in
      bind_err (py_pow_int sc (rnd (pi * e)) n) (\<lambda>p.
      bind_err (MvSt_const_sigma self) (\<lambda>sg'.
      bind_err (scl_det sg') (\<lambda>d.
        let term1 = dpow (dmul p (rnd d)) (- (1 / 2));
            term2 = dexp (dsub (sp_gammaln_dbl lgam ((e + real (ndim self)) / 2))
                               (sp_gammaln_dbl lgam (e / 2)));
            term3 = map (\<lambda>q. dpow (dadd (Fin 1) (ddiv q (Fin e))) (- (e + real n) / 2))
                      diff_sandwich
        in Inr (map (\<lambda>t3. dmul (dmul term1 term2) t3) term3))))))))"

definition MvSt_pdf_dbl ::
  "(real \<Rightarrow> real) \<Rightarrow> SkStDM \<Rightarrow> grid option \<Rightarrow> SkStDM \<times> (error + fl list)" where
  "MvSt_pdf_dbl lgam self dat =
     (case dat of
        None \<Rightarrow> (self, Inl NoDataGiven)
      | Some d \<Rightarrow>
          (let x = atleast_2d d;
               self' = self\<lparr>data := Some (Mat (fst x) (snd x))\<rparr>
           in (self', MvSt_pdf_body_dbl lgam self' x)))"

definition SkStDM_pdf_body_dbl ::
  "(real \<Rightarrow> real \<Rightarrow> real) \<Rightarrow> (real \<Rightarrow> real) \<Rightarrow> SkStDM \<Rightarrow> real arr2 \<Rightarrow> error + fl list" where
  "SkStDM_pdf_body_dbl K G self x =
     (let n = length (lam self);
          e = num_val (eta self);
          sc = is_scalar (eta self);
          nu = (e + real n) / 2 in
      bind_err (SkStDM_const_mu self) (\<lambda>m.
      bind_err (broadcast_sub x m) (\<lambda>diff.
      bind_err (SkStDM_const_sigma self) (\<lambda>sg.
      bind_err (scl_solve sg (arr_T diff)) (\<lambda>diff_norm.
        let diff_sandwich = map fl_rnd (sum_axis0 (mul_elem (arr_T diff) diff_norm)) in
      bind_err (SkStDM_const_sigma self) (\<lambda>sg'.
      bind_err (scl_solve1 sg' (map Fin (lam self))) (\<lambda>sl.
        let norm_lam = fl_rnd (fsum (map2 fmul (map Fin (lam self)) (map Fin sl)));
            kappa = map (\<lambda>q. dpow (dmul (dadd (Fin e) q) norm_lam) (1 / 2)) diff_sandwich in
      bind_err (py_pow2 sc (1 - nu)) (\<lambda>p2.
      bind_err (py_pow_int sc (rnd (pi * e)) n) (\<lambda>p.
      bind_err (SkStDM_const_sigma self) (\<lambda>sg''.
      bind_err (scl_det sg'') (\<lambda>d.
        let front = ddiv p2 (dpow (dmul p (rnd d)) (1 / 2));
            skew = map (\<lambda>r. fl_rnd (fsum (map2 fmul r (map Fin (lam self)))))
                     (snd (arr_T diff_norm))
        in Inr (map (\<lambda>(k, s, q).
                  dmul (dmul (ddiv (dmul (dmul front (sp_kv_dbl K nu k)) (dpow k nu))
                                   (sp_gamma_dbl G (e / 2)))
                             (dexp s))
                       (dpow (dadd (Fin 1) (ddiv q (Fin e))) (- nu)))
                 (zip kappa (zip skew diff_sandwich))))))))))))))"

definition SkStDM_pdf_dbl ::
  "(real \<Rightarrow> real \<Rightarrow> real) \<Rightarrow> (real \<Rightarrow> real) \<Rightarrow> SkStDM \<Rightarrow> grid option
     \<Rightarrow> SkStDM \<times> (error + fl list)" where
  "SkStDM_pdf_dbl K G self dat =
     (case dat of
        None \<Rightarrow> (self, Inl NoDataGiven)
      | Some d \<Rightarrow>
          (let x = atleast_2d d;
               self' = self\<lparr>data := Some (Mat (fst x) (snd x))\<rparr>
           in (self', SkStDM_pdf_body_dbl K G self' x)))"

section \<open>The documented formulas\<close>

text \<open>
  The quantities the specification speaks of, as real numbers: the inner product, the
  quadratic form \<open>d\<^sup>T \<Sigma>\<^sup>-\<^sup>1 d\<close> (with \<open>\<Sigma>\<^sup>-\<^sup>1 d\<close> the solution of \<open>\<Sigma> x = d\<close>), the scaled
  identity matrix, and the values of the symmetric \<open>const_mu()\<close> and \<open>const_sigma()\<close>.
\<close>

definition dot :: "real list \<Rightarrow> real list \<Rightarrow> real" where
  "dot a b = sum_list (map2 (*) a b)"

definition quad_form :: "real list list \<Rightarrow> real list \<Rightarrow> real" where
  "quad_form S d = dot d (cramer S d)"

definition scaled_id :: "nat \<Rightarrow> real \<Rightarrow> real list list" where
  "scaled_id n c = map (\<lambda>i. map (\<lambda>j. if i = j then c else 0) [0..<n]) [0..<n]"

definition mu_value :: "SkStDM \<Rightarrow> real list" where
  "mu_value self = (case mu self of None \<Rightarrow> replicate (ndim self) 0 | Some m \<Rightarrow> m)"

definition sigma_value :: "SkStDM \<Rightarrow> real list list" where
  "sigma_value self =
     (case sigma self of
        None \<Rightarrow> scaled_id (ndim self) (1 - 2 / num_val (eta self))
      | Some s \<Rightarrow> s)"

text \<open>
  The symmetric density of the specification for dimension \<open>n\<close>, degrees of freedom
  \<open>e\<close>, determinant \<open>dt\<close> of the scale matrix and quadratic form \<open>q\<close>:
  \<open>[(\<pi> e)\<^sup>n dt]\<^sup>-\<^sup>1\<^sup>/\<^sup>2 \<Gamma>((e + n)/2) / \<Gamma>(e/2) [1 + q/e]\<^sup>-\<^sup>(\<^sup>e\<^sup>+\<^sup>n\<^sup>)\<^sup>/\<^sup>2\<close>, the ratio of the gamma
  functions being the exponential of the difference of their logarithms.
\<close>

definition student_density :: "(real \<Rightarrow> real) \<Rightarrow> nat \<Rightarrow> real \<Rightarrow> real \<Rightarrow> real \<Rightarrow> real" where
  "student_density lgam n e dt q =
     ((pi * e) ^ n * dt) powr (- (1 / 2))
     * exp (lgam ((e + real n) / 2) - lgam (e / 2))
     * (1 + q / e) powr (- ((e + real n) / 2))"

text \<open>
  The values of the skewed \<open>const_mu()\<close> and \<open>const_sigma()\<close> as real numbers, and the
  skewed density of the specification for dimension \<open>n\<close>, degrees of freedom \<open>e\<close>,
  determinant \<open>dt\<close>, quadratic form \<open>q\<close> of the row, skewness norm \<open>nl\<close> and skewness
  term \<open>s\<close>, with \<open>\<kappa> = sqrt ((e + q) nl)\<close> and \<open>\<nu> = (e + n)/2\<close>:
  \<open>2\<^sup>1\<^sup>-\<^sup>\<nu> / [(\<pi> e)\<^sup>n dt]\<^sup>1\<^sup>/\<^sup>2 K\<^sub>\<nu>(\<kappa>) \<kappa>\<^sup>\<nu> / \<Gamma>(e/2) exp(s) [1 + q/e]\<^sup>-\<^sup>\<nu>\<close>.
\<close>

definition sk_mu_value :: "SkStDM \<Rightarrow> real list" where
  "sk_mu_value self =
     (case mu self of
        None \<Rightarrow> map (\<lambda>l. num_val (eta self) / (2 - num_val (eta self)) * l) (lam self)
      | Some m \<Rightarrow> m)"

definition sk_sigma_value :: "SkStDM \<Rightarrow> real list list" where
  "sk_sigma_value self =
     (case sigma self of
        None \<Rightarrow>
          map (\<lambda>i. map (\<lambda>j. (1 - 2 / num_val (eta self)) * (if i = j then 1 else 0)
                 - 2 * num_val (eta self)
                     / ((num_val (eta self) - 2) * (num_val (eta self) - 4))
                   * (lam self ! i * lam self ! j))
               [0..<length (lam self)]) [0..<length (lam self)]
      | Some s \<Rightarrow> s)"

definition skew_density ::
  "(real \<Rightarrow> real \<Rightarrow> real) \<Rightarrow> (real \<Rightarrow> real) \<Rightarrow> nat \<Rightarrow> real \<Rightarrow> real \<Rightarrow> real \<Rightarrow> real \<Rightarrow> real
     \<Rightarrow> real" where
  "skew_density K G n e dt q nl s =
     2 powr (1 - (e + real n) / 2) / ((pi * e) ^ n * dt) powr (1 / 2)
     * K ((e + real n) / 2) (((e + q) * nl) powr (1 / 2))
     * (((e + q) * nl) powr (1 / 2)) powr ((e + real n) / 2)
     / G (e / 2)
     * exp s
     * (1 + q / e) powr (- ((e + real n) / 2))"

text \<open>
  The side condition of the documented formulas: no step of the evaluation leaves the
  range of doubles.  \<open>in_dbl x\<close> says that the real number \<open>x\<close> neither overflows nor
  underflows.  For the symmetric density the steps are those of \<open>term1\<close>, \<open>term2\<close> (before
  the rows are looked at) and of \<open>term3\<close> and the product (for a row with quadratic form
  \<open>q\<close>); \<open>n\<close> is \<open>lam.size\<close> and \<open>nd\<close> is \<open>self.ndim\<close>.
\<close>

definition in_dbl :: "real \<Rightarrow> bool" where
  "in_dbl x = (\<bar>x\<bar> < dbl_over \<and> (x = 0 \<or> dbl_tiny < \<bar>x\<bar>))"

definition mvst_front_in_dbl :: "(real \<Rightarrow> real) \<Rightarrow> nat \<Rightarrow> nat \<Rightarrow> real \<Rightarrow> real \<Rightarrow> bool" where
  "mvst_front_in_dbl lgam n nd e dt =
     (let p = (pi * e) ^ n;
          t1 = (p * dt) powr (- (1 / 2));
          g1 = lgam ((e + real nd) / 2);
          g2 = lgam (e / 2);
          t2 = exp (g1 - g2)
      in in_dbl (pi * e) \<and> in_dbl p \<and> in_dbl dt \<and> in_dbl (p * dt) \<and> in_dbl t1
         \<and> in_dbl g1 \<and> in_dbl g2 \<and> in_dbl (g1 - g2) \<and> in_dbl t2 \<and> in_dbl (t1 * t2))"

definition mvst_row_in_dbl ::
  "(real \<Rightarrow> real) \<Rightarrow> nat \<Rightarrow> nat \<Rightarrow> real \<Rightarrow> real \<Rightarrow> real \<Rightarrow> bool" where
  "mvst_row_in_dbl lgam n nd e dt q =
     (let t1 = ((pi * e) ^ n * dt) powr (- (1 / 2));
          t2 = exp (lgam ((e + real nd) / 2) - lgam (e / 2));
          t3 = (1 + q / e) powr (- ((e + real n) / 2))
      in in_dbl q \<and> in_dbl (q / e) \<and> in_dbl (1 + q / e) \<and> in_dbl t3
         \<and> in_dbl (t1 * t2 * t3))"

text \<open>
  The same for the skewed density: the steps of the leading quotient, the skewness norm
  \<open>nl\<close> and the gamma function, and for a row those of \<open>\<kappa>\<close>, the Bessel function, the
  power of \<open>\<kappa>\<close>, the exponential of the skewness term \<open>s\<close>, the last factor and the
  products in the order of the source.
\<close>

definition skew_front_in_dbl ::
  "(real \<Rightarrow> real) \<Rightarrow> nat \<Rightarrow> real \<Rightarrow> real \<Rightarrow> real \<Rightarrow> bool" where
  "skew_front_in_dbl G n e dt nl =
     (let nu = (e + real n) / 2;
          p = (pi * e) ^ n;
          r = (p * dt) powr (1 / 2);
          p2 = 2 powr (1 - nu)
      in in_dbl (pi * e) \<and> in_dbl p \<and> in_dbl dt \<and> in_dbl (p * dt) \<and> in_dbl r
         \<and> in_dbl p2 \<and> in_dbl (p2 / r) \<and> in_dbl nl \<and> in_dbl (G (e / 2)))"

definition skew_row_in_dbl ::
  "(real \<Rightarrow> real \<Rightarrow> real) \<Rightarrow> (real \<Rightarrow> real) \<Rightarrow> nat \<Rightarrow> real \<Rightarrow> real \<Rightarrow> real \<Rightarrow> real \<Rightarrow> real
     \<Rightarrow> bool" where
  "skew_row_in_dbl K G n e dt q nl s =
     (let nu = (e + real n) / 2;
          front = 2 powr (1 - nu) / ((pi * e) ^ n * dt) powr (1 / 2);
          kap = ((e + q) * nl) powr (1 / 2);
          a1 = front * K nu kap;
          a2 = a1 * kap powr nu;
          a3 = a2 / G (e / 2);
          a4 = a3 * exp s;
          t3 = (1 + q / e) powr (- nu)
      in in_dbl q \<and> in_dbl (e + q) \<and> in_dbl ((e + q) * nl) \<and> in_dbl kap
         \<and> in_dbl (K nu kap) \<and> in_dbl a1 \<and> in_dbl (kap powr nu) \<and> in_dbl a2 \<and> in_dbl a3
         \<and> in_dbl s \<and> in_dbl (exp s) \<and> in_dbl a4
         \<and> in_dbl (q / e) \<and> in_dbl (1 + q / e) \<and> in_dbl t3 \<and> in_dbl (a4 * t3))"

text \<open>A positive real number between \<open>2\<^sup>-\<^sup>a\<close> and \<open>2\<^sup>a\<close>; for \<open>a \<le> 1000\<close> it is in the range.\<close>

definition mag :: "nat \<Rightarrow> real \<Rightarrow> bool" where
  "mag a x = (1 / 2 ^ a \<le> x \<and> x \<le> 2 ^ a)"

section \<open>Flat parameter vectors\<close>

text \<open>
  Claim C7.  For the skewed density, \<open>from_theta\<close> on a flat vector of length
  \<open>ndim + 1\<close> succeeds, and reading \<open>eta\<close> and \<open>lam\<close> back gives the split of the input:
  element 0 is the value of \<open>eta\<close>, the remaining \<open>ndim\<close> elements are \<open>lam\<close>, and together
  they are the input again.  For the symmetric density, \<open>from_theta\<close> sets \<open>eta\<close> to
  exactly the value given.
\<close>

theorem from_theta_roundtrip:
  assumes "length theta = ndim self + 1"
  shows "(\<exists>self'. SkStDM_from_theta self theta = Inr self'
            \<and> num_val (eta self') = theta ! 0
            \<and> lam self' = drop 1 theta
            \<and> length (lam self') = ndim self
            \<and> num_val (eta self') # lam self' = theta)
         \<and> eta (MvSt_from_theta self t) = t"
proof -
  from assms obtain t0 rest where th: "theta = t0 # rest"
    by (cases theta) auto
  with assms have "length rest = ndim self" by simp
  with th show ?thesis
    by (simp add: SkStDM_from_theta_def MvSt_from_theta_def)
qed

theorem from_theta_roundtrip_witness:
  "SkStDM_from_theta (SkStDM_init 2 (PyScalar 10) [1/2, 3/2] None None None) [7, 1/4, 3]
     = Inr (SkStDM_init 2 (NdArray1 7) [1/4, 3] None None None)
   \<and> eta (MvSt_from_theta (MvSt_init 2 (PyScalar 10) None None None) (PyScalar 5))
     = PyScalar 5"
  using from_theta_roundtrip
    [of "[7, 1/4, 3]" "SkStDM_init 2 (PyScalar 10) [1/2, 3/2] None None None" "PyScalar 5"]
  by (simp add: SkStDM_from_theta_def MvSt_from_theta_def SkStDM_init_def MvSt_init_def
      MultiDensity_init_def MultiDensity.defs SkStDM.defs)

text \<open>
  Claim C8.  The list returned by \<open>bounds()\<close> is as long as the parameter vector returned
  by \<open>theta_start(ndim)\<close> for the object's dimension.  The skewed density has \<open>ndim + 1\<close>
  bounds, \<open>(4, None)\<close> for \<open>eta\<close> first and then one \<open>(None, None)\<close> for each skewness
  component, and starts at \<open>[10]\<close> followed by \<open>ndim\<close> zeros.  The symmetric density has
  the one bound \<open>(2, None)\<close> and starts at the scalar 10.
\<close>

theorem bounds_match_theta_start:
  "length (SkStDM_bounds self) = length (SkStDM_theta_start (ndim self))
   \<and> length (SkStDM_bounds self) = ndim self + 1
   \<and> SkStDM_bounds self = (Some 4, None) # replicate (ndim self) (None, None)
   \<and> SkStDM_theta_start n = 10 # replicate n 0
   \<and> length (MvSt_bounds self) = 1
   \<and> MvSt_bounds self = [(Some 2, None)]
   \<and> MvSt_theta_start n = PyScalar 10"
  by (simp add: SkStDM_bounds_def SkStDM_theta_start_def MvSt_bounds_def
      MvSt_theta_start_def)


section \<open>Errors and the state of the object\<close>

lemma bind_err_Inl:
  "bind_err m f = Inl e \<Longrightarrow> m = Inl e \<or> (\<exists>v. m = Inr v \<and> f v = Inl e)"
  by (cases m) (simp_all add: bind_err_def)

lemma py_div_not_nodata: "py_div sc x y \<noteq> Inl NoDataGiven"
  by (simp add: py_div_def)

lemma broadcast_sub_not_nodata: "broadcast_sub x m \<noteq> Inl NoDataGiven"
  by (simp add: broadcast_sub_def)

lemma scl_det_not_nodata: "scl_det a \<noteq> Inl NoDataGiven"
  by (simp add: scl_det_def split: option.splits)

lemma scl_solve1_not_nodata: "scl_solve1 a b \<noteq> Inl NoDataGiven"
  by (simp add: scl_solve1_def split: option.splits)

lemma scl_solve_not_nodata: "scl_solve a b \<noteq> Inl NoDataGiven"
  by (simp add: scl_solve_def Let_def split: option.splits)

lemma SkStDM_const_mu_not_nodata: "SkStDM_const_mu self \<noteq> Inl NoDataGiven"
  by (auto simp: SkStDM_const_mu_def Let_def py_div_not_nodata
      split: option.splits dest!: bind_err_Inl)

lemma SkStDM_const_sigma_not_nodata: "SkStDM_const_sigma self \<noteq> Inl NoDataGiven"
  by (auto simp: SkStDM_const_sigma_def Let_def py_div_not_nodata
      split: option.splits dest!: bind_err_Inl)

lemma MvSt_const_sigma_not_nodata: "MvSt_const_sigma self \<noteq> Inl NoDataGiven"
  by (auto simp: MvSt_const_sigma_def Let_def py_div_not_nodata
      split: option.splits dest!: bind_err_Inl)

lemma MvSt_pdf_body_not_nodata: "MvSt_pdf_body lgam self x \<noteq> Inl NoDataGiven"
  by (auto simp: MvSt_pdf_body_def Let_def broadcast_sub_not_nodata
      MvSt_const_sigma_not_nodata scl_solve_not_nodata scl_det_not_nodata
      dest!: bind_err_Inl)

lemma SkStDM_pdf_body_not_nodata: "SkStDM_pdf_body K G self x \<noteq> Inl NoDataGiven"
  by (auto simp: SkStDM_pdf_body_def Let_def broadcast_sub_not_nodata
      SkStDM_const_mu_not_nodata scl_solve1_not_nodata
      SkStDM_const_sigma_not_nodata scl_solve_not_nodata scl_det_not_nodata
      dest!: bind_err_Inl)

text \<open>
  Claim C3, as the code has it.  Both densities raise the missing-data error exactly when
  the \<open>data\<close> argument of the call is \<open>None\<close>; the data stored in the object is not
  consulted, and the object is left as it was.  It is the only error \<open>pdf\<close> raises itself,
  but not the only exception a call can end in: with a Python scalar \<open>eta = 2\<close> the
  skewed \<open>const_mu\<close> divides by zero and the call raises \<open>ZeroDivisionError\<close>.
\<close>

theorem pdf_missing_data:
  "(snd (MvSt_pdf lgam self dat) = Inl NoDataGiven) = (dat = None)
   \<and> (snd (SkStDM_pdf K G self dat) = Inl NoDataGiven) = (dat = None)
   \<and> MvSt_pdf lgam self None = (self, Inl NoDataGiven)
   \<and> SkStDM_pdf K G self None = (self, Inl NoDataGiven)
   \<and> snd (SkStDM_pdf K G (SkStDM_init 1 (PyScalar 2) [1/2] None None None) (Some (Vec [0])))
       = Inl ZeroDivisionError"
proof -
  have "snd (SkStDM_pdf K G (SkStDM_init 1 (PyScalar 2) [1/2] None None None) (Some (Vec [0])))
          = Inl ZeroDivisionError"
    by (simp add: SkStDM_pdf_def SkStDM_pdf_body_def SkStDM_init_def MultiDensity_init_def
        MultiDensity.defs SkStDM.defs Let_def SkStDM_const_mu_def py_div_def bind_err_def)
  then show ?thesis
    by (cases dat)
      (simp_all add: MvSt_pdf_def SkStDM_pdf_def Let_def MvSt_pdf_body_not_nodata
        SkStDM_pdf_body_not_nodata)
qed

text \<open>
  Claim C3, as stated, fails: an object constructed with data still raises the
  missing-data error when \<open>pdf\<close> is called without an argument.
\<close>

theorem pdf_missing_data_counterexample:
  "\<forall>lgam.
     data (MvSt_init 2 (PyScalar 10) None None (Some (Vec [0, 0]))) = Some (Vec [0, 0])
     \<and> MvSt_pdf lgam (MvSt_init 2 (PyScalar 10) None None (Some (Vec [0, 0]))) None
         = (MvSt_init 2 (PyScalar 10) None None (Some (Vec [0, 0])), Inl NoDataGiven)"
  by (simp add: MvSt_pdf_def MvSt_init_def MultiDensity_init_def MultiDensity.defs
      SkStDM.defs)

text \<open>
  Claim C9.  A call \<open>pdf(data)\<close> with data changes the \<open>data\<close> field only, for both
  densities: a vector of length \<open>k\<close> is stored as the \<open>1 \<times> k\<close> matrix of that row, a
  \<open>T \<times> k\<close> matrix as it is.  (The field is set before anything is computed, so it is set
  also when the call then raises.)
\<close>

theorem pdf_frame:
  "fst (MvSt_pdf lgam self (Some d))
     = self\<lparr>data := Some (case d of Vec v \<Rightarrow> Mat (length v) [v] | Mat k rows \<Rightarrow> Mat k rows)\<rparr>
   \<and> fst (SkStDM_pdf K G self (Some d))
     = self\<lparr>data := Some (case d of Vec v \<Rightarrow> Mat (length v) [v] | Mat k rows \<Rightarrow> Mat k rows)\<rparr>
   \<and> ndim (fst (MvSt_pdf lgam self (Some d))) = ndim self
   \<and> eta (fst (MvSt_pdf lgam self (Some d))) = eta self
   \<and> lam (fst (MvSt_pdf lgam self (Some d))) = lam self
   \<and> mu (fst (MvSt_pdf lgam self (Some d))) = mu self
   \<and> sigma (fst (MvSt_pdf lgam self (Some d))) = sigma self
   \<and> ndim (fst (SkStDM_pdf K G self (Some d))) = ndim self
   \<and> eta (fst (SkStDM_pdf K G self (Some d))) = eta self
   \<and> lam (fst (SkStDM_pdf K G self (Some d))) = lam self
   \<and> mu (fst (SkStDM_pdf K G self (Some d))) = mu self
   \<and> sigma (fst (SkStDM_pdf K G self (Some d))) = sigma self"
  by (cases d) (simp_all add: MvSt_pdf_def SkStDM_pdf_def Let_def)


section \<open>Location and scale of the skewed density\<close>


lemma py_div_ok: "b \<noteq> 0 \<Longrightarrow> py_div sc (Fin a) (Fin b) = Inr (Fin (a / b))"
  by (simp add: py_div_def)

lemma bind_err_Inr [simp]: "bind_err (Inr v) f = f v"
  by (simp add: bind_err_def)

lemma fsub_Fin [simp]: "fsub (Fin a) (Fin b) = Fin (a - b)"
  by (simp add: fsub_def)

lemma eye_nth: "i < n \<Longrightarrow> j < n \<Longrightarrow> eye n ! i ! j = (if i = j then Fin 1 else Fin 0)"
  by (simp add: eye_def)

lemma length_eye [simp]: "length (eye n) = n"
  by (simp add: eye_def)

lemma length_eye_row [simp]: "i < n \<Longrightarrow> length (eye n ! i) = n"
  by (simp add: eye_def)

lemma SkStDM_const_sigma_derived:
  assumes "sigma self = None"
    and "num_val (eta self) \<noteq> 0" "num_val (eta self) \<noteq> 2" "num_val (eta self) \<noteq> 4"
  shows "SkStDM_const_sigma self =
     Inr (map (\<lambda>i. map (\<lambda>j. Fin ((1 - 2 / num_val (eta self)) * (if i = j then 1 else 0)
                - 2 * num_val (eta self) / ((num_val (eta self) - 2) * (num_val (eta self) - 4))
                  * (lam self ! i * lam self ! j)))
              [0..<length (lam self)]) [0..<length (lam self)])"
proof -
  define e where "e = num_val (eta self)"
  define n where "n = length (lam self)"
  define l where "l = lam self"
  have e: "e \<noteq> 0" "e - 2 \<noteq> 0" "e - 4 \<noteq> 0" using assms(2-4) by (simp_all add: e_def)
  have ln: "length l = n" by (simp add: n_def l_def)
  define A where "A = map (map (fmul (Fin (1 - 2 / e)))) (eye n)"
  define B where "B = map (\<lambda>li. map (\<lambda>vj. fmul vj (Fin li))
                     (map (\<lambda>x. fmul (Fin (2 * e / (e - 2) / (e - 4))) (Fin x)) l)) l"
  have "SkStDM_const_sigma self = Inr (map2 (map2 fsub) A B)"
    unfolding SkStDM_const_sigma_def assms(1) e_def[symmetric] n_def[symmetric] Let_def
      l_def[symmetric] A_def B_def
    using e by (simp add: py_div_ok ln)
  also have "map2 (map2 fsub) A B =
      map (\<lambda>i. map (\<lambda>j. Fin ((1 - 2 / e) * (if i = j then 1 else 0)
                - 2 * e / ((e - 2) * (e - 4)) * (l ! i * l ! j))) [0..<n]) [0..<n]"
  proof (rule nth_equalityI)
    show "length (map2 (map2 fsub) A B) = length (map (\<lambda>i. map (\<lambda>j. Fin ((1 - 2 / e) * (if i = j then 1 else 0)
                - 2 * e / ((e - 2) * (e - 4)) * (l ! i * l ! j))) [0..<n]) [0..<n])"
      by (simp add: A_def B_def ln)
  next
    fix i assume "i < length (map2 (map2 fsub) A B)"
    then have i: "i < n" by (simp add: A_def B_def ln)
    have "map2 fsub (A ! i) (B ! i) = map (\<lambda>j. Fin ((1 - 2 / e) * (if i = j then 1 else 0)
                - 2 * e / ((e - 2) * (e - 4)) * (l ! i * l ! j))) [0..<n]"
    proof (rule nth_equalityI)
      show "length (map2 fsub (A ! i) (B ! i)) = length (map (\<lambda>j. Fin ((1 - 2 / e) * (if i = j then 1 else 0)
                - 2 * e / ((e - 2) * (e - 4)) * (l ! i * l ! j))) [0..<n])"
        using i by (simp add: A_def B_def ln)
    next
      fix j assume "j < length (map2 fsub (A ! i) (B ! i))"
      then have j: "j < n" using i by (simp add: A_def B_def ln)
      show "map2 fsub (A ! i) (B ! i) ! j = map (\<lambda>j. Fin ((1 - 2 / e) * (if i = j then 1 else 0)
                - 2 * e / ((e - 2) * (e - 4)) * (l ! i * l ! j))) [0..<n] ! j"
        using i j e by (simp add: A_def B_def ln eye_nth mult_ac)
    qed
    then show "map2 (map2 fsub) A B ! i = map (\<lambda>i. map (\<lambda>j. Fin ((1 - 2 / e) * (if i = j then 1 else 0)
                - 2 * e / ((e - 2) * (e - 4)) * (l ! i * l ! j))) [0..<n]) [0..<n] ! i"
      using i by (simp add: A_def B_def ln)
  qed
  finally show ?thesis by (simp add: e_def n_def l_def)
qed


lemma SkStDM_const_mu_derived:
  assumes "mu self = None" and "num_val (eta self) \<noteq> 2"
  shows "SkStDM_const_mu self =
    Inr (map (\<lambda>l. Fin (num_val (eta self) / (2 - num_val (eta self)) * l)) (lam self))"
  using assms by (simp add: SkStDM_const_mu_def Let_def py_div_ok)

text \<open>
  Claim C4.  The skewed \<open>const_sigma()\<close> returns the supplied \<open>sigma\<close> as an array when
  there is one; otherwise, for \<open>eta > 4\<close> and \<open>lam\<close> of length \<open>ndim\<close>, it returns the
  \<open>ndim \<times> ndim\<close> matrix \<open>(1 - 2/eta) I - 2 eta / ((eta - 2)(eta - 4)) (lam \<otimes> lam)\<close>.
  The skewed \<open>const_mu()\<close> returns the supplied \<open>mu\<close> when there is one, and
  \<open>eta / (2 - eta) * lam\<close> otherwise (the quotient exists for \<open>eta \<noteq> 2\<close>).
\<close>

theorem const_mu_sigma_formulas:
  "(sigma self = Some s \<longrightarrow> SkStDM_const_sigma self = Inr (map (map Fin) s))
   \<and> (sigma self = None \<and> 4 < num_val (eta self) \<and> length (lam self) = ndim self \<longrightarrow>
        SkStDM_const_sigma self =
          Inr (map (\<lambda>i. map (\<lambda>j. Fin ((1 - 2 / num_val (eta self)) * (if i = j then 1 else 0)
                 - 2 * num_val (eta self)
                     / ((num_val (eta self) - 2) * (num_val (eta self) - 4))
                   * (lam self ! i * lam self ! j)))
               [0..<ndim self]) [0..<ndim self]))
   \<and> (mu self = Some m \<longrightarrow> SkStDM_const_mu self = Inr (map Fin m))
   \<and> (mu self = None \<and> num_val (eta self) \<noteq> 2 \<longrightarrow>
        SkStDM_const_mu self =
          Inr (map (\<lambda>l. Fin (num_val (eta self) / (2 - num_val (eta self)) * l)) (lam self)))"
  using SkStDM_const_sigma_derived[of self] SkStDM_const_mu_derived[of self]
  by (auto simp: SkStDM_const_sigma_def SkStDM_const_mu_def)

lemma upt2: "[0..<2] = [0, Suc 0]" by (simp add: upt_rec numeral_2_eq_2)

theorem const_mu_sigma_formulas_witness:
  "SkStDM_const_sigma (SkStDM_init 2 (PyScalar 10) [1/2, 3/2] None None None)
     = Inr [[Fin (167/240), Fin (- (5/16))], [Fin (- (5/16)), Fin (- (11/80))]]
   \<and> SkStDM_const_mu (SkStDM_init 2 (PyScalar 10) [1/2, 3/2] None None None)
     = Inr [Fin (- (5/8)), Fin (- (15/8))]
   \<and> SkStDM_const_sigma (SkStDM_init 2 (PyScalar 10) [1/2, 3/2] (Some [1, 2]) (Some [[2, 1], [1, 2]]) None)
     = Inr [[Fin 2, Fin 1], [Fin 1, Fin 2]]
   \<and> SkStDM_const_mu (SkStDM_init 2 (PyScalar 10) [1/2, 3/2] (Some [1, 2]) (Some [[2, 1], [1, 2]]) None)
     = Inr [Fin 1, Fin 2]"
  using const_mu_sigma_formulas[of "SkStDM_init 2 (PyScalar 10) [1/2, 3/2] None None None" "[]" "[]"]
    const_mu_sigma_formulas[of "SkStDM_init 2 (PyScalar 10) [1/2, 3/2] (Some [1, 2]) (Some [[2, 1], [1, 2]]) None" "[[2, 1], [1, 2]]" "[1, 2]"]
  by (simp add: SkStDM_init_def MultiDensity_init_def MultiDensity.defs SkStDM.defs upt2)


section \<open>Arrays, transposition and the solver\<close>


lemma foldl_fadd_Fin: "foldl fadd (Fin a) (map Fin xs) = Fin (a + sum_list xs)"
  by (induction xs arbitrary: a) (simp_all add: add.assoc)

lemma fsum_Fin: "fsum (map Fin xs) = Fin (sum_list xs)"
  by (simp add: fsum_def foldl_fadd_Fin)

lemma arr_T_map:
  assumes "list_all (\<lambda>r. length r = k) D"
  shows "arr_T (k, map (map f) D) = (length D, map (map f) (snd (arr_T (k, D))))"
  using assms by (auto simp: arr_T_def list_all_iff)

lemma arr_T_involution:
  assumes "list_all (\<lambda>r. length r = k) D"
  shows "arr_T (arr_T (k, D)) = (k, D)"
proof -
  have "map (\<lambda>t. map (\<lambda>r. r ! t) (map (\<lambda>j. map (\<lambda>r. r ! j) D) [0..<k])) [0..<length D] = D"
  proof (rule nth_equalityI)
    show "length (map (\<lambda>t. map (\<lambda>r. r ! t) (map (\<lambda>j. map (\<lambda>r. r ! j) D) [0..<k])) [0..<length D]) = length D"
      by simp
  next
    fix t assume "t < length (map (\<lambda>t. map (\<lambda>r. r ! t) (map (\<lambda>j. map (\<lambda>r. r ! j) D) [0..<k])) [0..<length D])"
    then have t: "t < length D" by simp
    with assms have len: "length (D ! t) = k" by (simp add: list_all_length)
    have "map (\<lambda>r. r ! t) (map (\<lambda>j. map (\<lambda>r. r ! j) D) [0..<k]) = map (\<lambda>j. D ! t ! j) [0..<k]"
      using t by simp
    also have "\<dots> = D ! t" using len map_nth[of "D ! t"] by simp
    finally show "map (\<lambda>t. map (\<lambda>r. r ! t) (map (\<lambda>j. map (\<lambda>r. r ! j) D) [0..<k])) [0..<length D] ! t = D ! t"
      using t by simp
  qed
  then show ?thesis by (simp add: arr_T_def)
qed

lemma dot_nth:
  assumes "length a = k" "length b = k"
  shows "dot a b = sum_list (map (\<lambda>i. a ! i * b ! i) [0..<k])"
proof -
  have "map2 (*) a b = map (\<lambda>i. a ! i * b ! i) [0..<k]"
    using assms by (intro nth_equalityI) simp_all
  then show ?thesis by (simp add: dot_def)
qed

lemma sandwich:
  assumes D: "list_all (\<lambda>r. length r = k) D" and f: "\<And>d. length (f d) = k"
  shows "sum_axis0 (mul_elem (arr_T (k, map (map Fin) D))
                             (arr_T (k, map (\<lambda>col. map Fin (f col)) D)))
         = map (\<lambda>d. Fin (dot d (f d))) D"
proof (rule nth_equalityI)
  show "length (sum_axis0 (mul_elem (arr_T (k, map (map Fin) D))
                             (arr_T (k, map (\<lambda>col. map Fin (f col)) D))))
        = length (map (\<lambda>d. Fin (dot d (f d))) D)"
    by (simp add: sum_axis0_def mul_elem_def arr_T_def)
next
  fix t assume "t < length (sum_axis0 (mul_elem (arr_T (k, map (map Fin) D))
                             (arr_T (k, map (\<lambda>col. map Fin (f col)) D))))"
  then have t: "t < length D" by (simp add: sum_axis0_def mul_elem_def arr_T_def)
  with D have len: "length (D ! t) = k" by (simp add: list_all_length)
  have "map (\<lambda>r. r ! t)
          (map2 (map2 fmul) (map (\<lambda>j. map (\<lambda>r. r ! j) (map (map Fin) D)) [0..<k])
                            (map (\<lambda>j. map (\<lambda>r. r ! j) (map (\<lambda>col. map Fin (f col)) D)) [0..<k]))
        = map Fin (map (\<lambda>i. D ! t ! i * f (D ! t) ! i) [0..<k])"
    using t len f by (intro nth_equalityI) simp_all
  then have "fsum (map (\<lambda>r. r ! t)
          (map2 (map2 fmul) (map (\<lambda>j. map (\<lambda>r. r ! j) (map (map Fin) D)) [0..<k])
                            (map (\<lambda>j. map (\<lambda>r. r ! j) (map (\<lambda>col. map Fin (f col)) D)) [0..<k])))
        = fsum (map Fin (map (\<lambda>i. D ! t ! i * f (D ! t) ! i) [0..<k]))"
    by (simp only:)
  also have "\<dots> = Fin (dot (D ! t) (f (D ! t)))"
    using len f by (simp only: fsum_Fin dot_nth[where k=k])
  finally have "fsum (map (\<lambda>r. r ! t)
          (map2 (map2 fmul) (map (\<lambda>j. map (\<lambda>r. r ! j) (map (map Fin) D)) [0..<k])
                            (map (\<lambda>j. map (\<lambda>r. r ! j) (map (\<lambda>col. map Fin (f col)) D)) [0..<k])))
        = Fin (dot (D ! t) (f (D ! t)))" .
  then show "sum_axis0 (mul_elem (arr_T (k, map (map Fin) D))
                             (arr_T (k, map (\<lambda>col. map Fin (f col)) D))) ! t
        = map (\<lambda>d. Fin (dot d (f d))) D ! t"
    using t by (simp add: sum_axis0_def mul_elem_def arr_T_def)
qed


lemma fin_mat_Fin: "fin_mat (map (map Fin) M) = Some M"
proof -
  have "map (map the_fin) (map (map Fin) M) = M"
    by (simp add: o_def)
  moreover have "list_all (list_all is_fin) (map (map Fin) M)"
    by (simp add: list_all_iff)
  ultimately show ?thesis by (simp only: fin_mat_def if_True)
qed

lemma fin_list_Fin: "fin_list (map Fin v) = Some v"
proof -
  have "map the_fin (map Fin v) = v" by (simp add: o_def)
  moreover have "list_all is_fin (map Fin v)" by (simp add: list_all_iff)
  ultimately show ?thesis by (simp only: fin_list_def if_True)
qed

lemma length_cramer [simp]: "length (cramer S b) = length S"
  by (simp add: cramer_def)

lemma scl_det_ok: "is_square S \<Longrightarrow> scl_det (map (map Fin) S) = Inr (det S)"
  by (simp add: scl_det_def fin_mat_Fin)

lemma scl_solve1_ok:
  "is_square S \<Longrightarrow> length b = length S \<Longrightarrow> det S \<noteq> 0 \<Longrightarrow>
     scl_solve1 (map (map Fin) S) (map Fin b) = Inr (cramer S b)"
  by (simp add: scl_solve1_def fin_mat_Fin fin_list_Fin)

lemma scl_solve_ok:
  assumes "is_square S" "length S = k" "det S \<noteq> 0" "list_all (\<lambda>r. length r = k) D"
  shows "scl_solve (map (map Fin) S) (arr_T (k, map (map Fin) D))
           = Inr (arr_T (k, map (\<lambda>col. map Fin (cramer S col)) D))"
proof -
  obtain T DT where DT: "arr_T (k, D) = (T, DT)" by (cases "arr_T (k, D)")
  then have lDT: "length DT = k" by (auto simp: arr_T_def)
  have cols: "snd (arr_T (T, DT)) = D"
    using arr_T_involution[OF assms(4)] DT by simp
  have "arr_T (k, map (map Fin) D) = (length D, map (map Fin) DT)"
    using arr_T_map[OF assms(4), of Fin] DT by simp
  moreover have "T = length D" using DT by (auto simp: arr_T_def)
  ultimately show ?thesis
    using assms(1-3) lDT cols
    by (simp add: scl_solve_def fin_mat_Fin Let_def)
qed

lemma broadcast_sub_ok:
  assumes "length m = k"
  shows "broadcast_sub (k, rows) (map Fin m)
           = Inr (k, map (map Fin) (map (\<lambda>r. map2 (-) r m) rows))"
  using assms by (simp add: broadcast_sub_def zip_map2 o_def case_prod_unfold)

lemma MvSt_pdf_body_raw:
  assumes cs: "MvSt_const_sigma self = Inr (map (map Fin) S)"
    and cm: "MvSt_const_mu self = map Fin m"
    and sq: "is_square S" and lS: "length S = k" and lm: "length m = k"
    and rows: "list_all (\<lambda>r. length r = k) rows"
    and nz: "det S \<noteq> 0"
  shows "MvSt_pdf_body lgam self (k, rows) =
     Inr (map (\<lambda>r.
       fmul (fmul (fpow (Fin ((pi * num_val (eta self)) ^ length (lam self) * det S)) (- (1 / 2)))
                  (fexp (fsub (sp_gammaln lgam ((num_val (eta self) + real (ndim self)) / 2))
                              (sp_gammaln lgam (num_val (eta self) / 2)))))
            (fpow (fadd (Fin 1)
                     (fdiv (Fin (dot (map2 (-) r m) (cramer S (map2 (-) r m))))
                           (Fin (num_val (eta self)))))
                  (- (num_val (eta self) + real (length (lam self))) / 2))) rows)"
proof -
  define D where "D = map (\<lambda>r. map2 (-) r m) rows"
  have D: "list_all (\<lambda>r. length r = k) D"
    using rows lm by (simp add: D_def list_all_iff)
  have bs: "broadcast_sub (k, rows) (MvSt_const_mu self) = Inr (k, map (map Fin) D)"
    unfolding cm D_def by (rule broadcast_sub_ok[OF lm])
  have sv: "scl_solve (map (map Fin) S) (arr_T (k, map (map Fin) D))
              = Inr (arr_T (k, map (\<lambda>col. map Fin (cramer S col)) D))"
    by (rule scl_solve_ok[OF sq lS nz D])
  have sw: "sum_axis0 (mul_elem (arr_T (k, map (map Fin) D))
                             (arr_T (k, map (\<lambda>col. map Fin (cramer S col)) D)))
             = map (\<lambda>d. Fin (dot d (cramer S d))) D"
    by (rule sandwich[OF D]) (simp add: lS)
  show ?thesis
    unfolding MvSt_pdf_body_def Let_def
    apply (simp only: bs cs bind_err_Inr sv sw scl_det_ok[OF sq])
    apply (simp only: D_def map_map o_def)
    done
qed


section \<open>Determinant and solution for a scaled identity\<close>


lemma upt_Suc_shift: "[0..<Suc n] = 0 # map Suc [0..<n]"
  by (simp add: upt_conv_Cons map_Suc_upt del: upt_Suc)

lemma scaled_id_Suc:
  "scaled_id (Suc n) c = (c # replicate n 0) # map (\<lambda>row. 0 # row) (scaled_id n c)"
proof -
  define F where "F = (\<lambda>i::nat. map (\<lambda>j. if i = j then c else 0) [0..<Suc n])"
  have F0: "F 0 = c # replicate n 0"
    unfolding F_def by (simp only: upt_Suc_shift) (simp add: o_def map_replicate_const)
  have FS: "map F (map Suc [0..<n]) = map (\<lambda>row. 0 # row) (scaled_id n c)"
    unfolding F_def by (simp only: upt_Suc_shift) (simp add: o_def scaled_id_def)
  have "scaled_id (Suc n) c = map F [0..<Suc n]"
    by (simp add: scaled_id_def F_def)
  also have "\<dots> = map F (0 # map Suc [0..<n])"
    by (simp only: upt_Suc_shift)
  also have "\<dots> = F 0 # map F (map Suc [0..<n])" by simp
  finally show ?thesis by (simp only: F0 FS)
qed

lemma sum_list_zero: "(\<And>x. x \<in> set xs \<Longrightarrow> f x = (0::real)) \<Longrightarrow> sum_list (map f xs) = 0"
  by (induction xs) simp_all

lemma det_Cons:
  "det (r # rs) = r ! 0 * det (map (delete_at 0) rs) * (if r = [] then 0 else 1)
     + sum_list (map (\<lambda>j. (- 1) ^ Suc j * r ! Suc j * det (map (delete_at (Suc j)) rs))
         [0..<length r - 1])"
proof (cases r)
  case Nil
  then show ?thesis by (simp add: det.simps(2))
next
  case (Cons a r')
  then have "[0..<length r] = 0 # map Suc [0..<length r']"
    by (simp add: upt_Suc_shift del: upt_Suc)
  then show ?thesis using Cons by (simp add: det.simps(2) o_def del: upt_Suc)
qed

lemma delete_at_0 [simp]: "delete_at 0 (x # xs) = xs"
  by (simp add: delete_at_def)

lemma delete_at_Suc [simp]: "delete_at (Suc j) (x # xs) = x # delete_at j xs"
  by (simp add: delete_at_def)

lemma length_delete_at: "j < length xs \<Longrightarrow> length (delete_at j xs) = length xs - 1"
  by (simp add: delete_at_def)

lemma det_scaled_id: "det (scaled_id n c) = c ^ n"
proof (induction n)
  case 0
  show ?case by (simp add: scaled_id_def)
next
  case (Suc n)
  have "sum_list (map (\<lambda>j. (- 1) ^ Suc j * (c # replicate n 0) ! Suc j
            * det (map (delete_at (Suc j)) (map (\<lambda>row. 0 # row) (scaled_id n c)))) [0..<n]) = 0"
    by (rule sum_list_zero) simp
  then show ?case
    using Suc by (simp add: scaled_id_Suc det_Cons o_def)
qed

lemma det_zero_col:
  "list_all (\<lambda>r. length r = k) M \<Longrightarrow> k < length M \<Longrightarrow> det (map (\<lambda>row. 0 # row) M) = 0"
proof (induction M arbitrary: k rule: length_induct)
  case (1 M)
  from "1.prems" obtain r rs where M: "M = r # rs" by (cases M) auto
  with "1.prems" have lr: "length r = k" and rs: "list_all (\<lambda>r. length r = k) rs"
    and k: "k \<le> length rs"
    by simp_all
  have "sum_list (map (\<lambda>j. (- 1) ^ Suc j * (0 # r) ! Suc j
            * det (map (delete_at (Suc j)) (map (\<lambda>row. 0 # row) rs))) [0..<k]) = 0"
  proof (rule sum_list_zero)
    fix j assume "j \<in> set [0..<k]"
    then have j: "j < k" by simp
    have a: "list_all (\<lambda>r. length r = k - 1) (map (delete_at j) rs)"
      using rs j by (simp add: list_all_iff length_delete_at)
    have b: "k - 1 < length (map (delete_at j) rs)" using j k by simp
    have c: "length (map (delete_at j) rs) < length M" using M by simp
    have "det (map (\<lambda>row. 0 # row) (map (delete_at j) rs)) = 0"
      using "1.IH" c a b by blast
    then show "(- 1) ^ Suc j * (0 # r) ! Suc j
            * det (map (delete_at (Suc j)) (map (\<lambda>row. 0 # row) rs)) = 0"
      by (simp add: o_def)
  qed
  then show ?case using lr M by (simp add: det_Cons)
qed


lemma length_scaled_id [simp]: "length (scaled_id n c) = n"
  by (simp add: scaled_id_def)

lemma scaled_id_rows: "list_all (\<lambda>r. length r = n) (scaled_id n c)"
  by (simp add: scaled_id_def list_all_iff)

lemma is_square_scaled_id: "is_square (scaled_id n c)"
  using scaled_id_rows[of n c] by (simp add: is_square_def)

lemma replace_col_rows:
  "list_all (\<lambda>r. length r = n) S \<Longrightarrow> list_all (\<lambda>r. length r = n) (replace_col i b S)"
  by (auto simp: replace_col_def list_all_iff dest!: set_zip_leftD)

lemma map2_fst: "length ys = length xs \<Longrightarrow> map2 (\<lambda>x y. x) xs ys = xs"
  by (induction xs ys rule: list_induct2') simp_all

lemma det_replace_col_scaled_id:
  "i < n \<Longrightarrow> length b = n \<Longrightarrow> det (replace_col i b (scaled_id n c)) = c ^ (n - 1) * b ! i"
proof (induction n arbitrary: i b)
  case 0
  then show ?case by simp
next
  case (Suc n)
  from Suc.prems obtain b0 b' where b: "b = b0 # b'" and lb: "length b' = n"
    by (cases b) auto
  define S where "S = scaled_id n c"
  have lS: "length S = n" by (simp add: S_def)
  show ?case
  proof (cases i)
    case 0
    have rest: "map2 (\<lambda>row bi. row[0 := bi]) (map (\<lambda>row. 0 # row) S) b'
                = map2 (\<lambda>row bi. bi # row) S b'"
      by (simp add: zip_map1 o_def case_prod_unfold)
    have del: "map (delete_at 0) (map2 (\<lambda>row bi. bi # row) S b') = S"
      using map2_fst[of b' S] lb lS by (simp add: o_def case_prod_unfold)
    have "sum_list (map (\<lambda>j. (- 1) ^ Suc j * (b0 # replicate n 0) ! Suc j
            * det (map (delete_at (Suc j)) (map2 (\<lambda>row bi. bi # row) S b'))) [0..<n]) = 0"
      by (rule sum_list_zero) simp
    then show ?thesis
      using 0 b rest del det_scaled_id[of n c]
      by (simp add: scaled_id_Suc replace_col_def det_Cons S_def[symmetric])
  next
    case (Suc i')
    with Suc.prems have i': "i' < n" by simp
    define R where "R = replace_col i' b' S"
    have rest: "map2 (\<lambda>row bi. row[Suc i' := bi]) (map (\<lambda>row. 0 # row) S) b'
                = map (\<lambda>row. 0 # row) R"
      by (simp add: R_def replace_col_def zip_map1 o_def case_prod_unfold)
    have Rrows: "list_all (\<lambda>r. length r = n) R"
      unfolding R_def S_def by (rule replace_col_rows[OF scaled_id_rows])
    have lR: "length R = n" using lb lS by (simp add: R_def replace_col_def)
    have IH: "det R = c ^ (n - 1) * b' ! i'"
      unfolding R_def S_def using i' lb by (rule Suc.IH)
    have "sum_list (map (\<lambda>j. (- 1) ^ Suc j * (c # (replicate n 0)[i' := b0]) ! Suc j
            * det (map (delete_at (Suc j)) (map (\<lambda>row. 0 # row) R))) [0..<n]) = 0"
    proof (rule sum_list_zero)
      fix j assume "j \<in> set [0..<n]"
      then have j: "j < n" by simp
      have a: "list_all (\<lambda>r. length r = n - 1) (map (delete_at j) R)"
        using Rrows j by (simp add: list_all_iff length_delete_at)
      have "det (map (\<lambda>row. 0 # row) (map (delete_at j) R)) = 0"
        by (rule det_zero_col[OF a]) (use j lR in simp)
      then show "(- 1) ^ Suc j * (c # (replicate n 0)[i' := b0]) ! Suc j
            * det (map (delete_at (Suc j)) (map (\<lambda>row. 0 # row) R)) = 0"
        by (simp add: o_def)
    qed
    moreover have "c * c ^ (n - 1) = c ^ n"
      using i' by (cases n) simp_all
    ultimately show ?thesis
      using Suc b rest IH
      by (simp add: scaled_id_Suc replace_col_def det_Cons S_def[symmetric] o_def
          mult.assoc[symmetric])
  qed
qed

lemma cramer_scaled_id:
  assumes "c \<noteq> 0" and "length b = n"
  shows "cramer (scaled_id n c) b = map (\<lambda>x. x / c) b"
proof (rule nth_equalityI)
  show "length (cramer (scaled_id n c) b) = length (map (\<lambda>x. x / c) b)"
    using assms by (simp add: cramer_def)
next
  fix i assume "i < length (cramer (scaled_id n c) b)"
  then have i: "i < n" by (simp add: cramer_def)
  then have "c ^ (n - 1) * b ! i / c ^ n = b ! i / c"
    using assms(1) by (cases n) simp_all
  then show "cramer (scaled_id n c) b ! i = map (\<lambda>x. x / c) b ! i"
    using i assms by (simp add: cramer_def det_replace_col_scaled_id det_scaled_id)
qed


section \<open>The symmetric density\<close>


lemma fpow_pos: "0 < a \<Longrightarrow> fpow (Fin a) y = Fin (a powr y)"
  by simp

lemma sp_gammaln_pos: "0 < x \<Longrightarrow> sp_gammaln lgam x = Fin (lgam x)"
  by (simp add: sp_gammaln_def)

lemma fdiv_Fin: "b \<noteq> 0 \<Longrightarrow> fdiv (Fin a) (Fin b) = Fin (a / b)"
  by simp

lemma MvSt_const_mu_value: "MvSt_const_mu self = map Fin (mu_value self)"
  by (simp add: MvSt_const_mu_def mu_value_def split: option.splits)

lemma scaled_eye:
  "map (map (fmul (Fin c))) (eye n) = map (map Fin) (scaled_id n c)"
  by (simp add: eye_def scaled_id_def o_def if_distrib[of "fmul (Fin c)"] if_distrib[of Fin]
      cong: if_cong)

lemma MvSt_const_sigma_value:
  "num_val (eta self) \<noteq> 0 \<Longrightarrow>
     MvSt_const_sigma self = Inr (map (map Fin) (sigma_value self))"
  by (simp add: MvSt_const_sigma_def sigma_value_def py_div_ok scaled_eye
      split: option.splits)

lemma MvSt_pdf_body_value:
  assumes e: "0 < num_val (eta self)"
    and sq: "is_square (sigma_value self)" and lS: "length (sigma_value self) = k"
    and lm: "length (mu_value self) = k"
    and rows: "list_all (\<lambda>r. length r = k) rows"
    and dt: "0 < det (sigma_value self)"
    and q: "\<And>r. r \<in> set rows \<Longrightarrow>
              0 \<le> quad_form (sigma_value self) (map2 (-) r (mu_value self))"
  shows "MvSt_pdf_body lgam self (k, rows) =
     Inr (map (\<lambda>r. Fin (
         ((pi * num_val (eta self)) ^ length (lam self) * det (sigma_value self)) powr (- (1 / 2))
         * exp (lgam ((num_val (eta self) + real (ndim self)) / 2) - lgam (num_val (eta self) / 2))
         * (1 + quad_form (sigma_value self) (map2 (-) r (mu_value self)) / num_val (eta self))
             powr (- ((num_val (eta self) + real (length (lam self))) / 2)))) rows)"
proof -
  define ev where "ev = num_val (eta self)"
  define S where "S = sigma_value self"
  define m where "m = mu_value self"
  have e0: "ev \<noteq> 0" and epos: "0 < ev" using e by (simp_all add: ev_def)
  have base: "0 < (pi * ev) ^ length (lam self) * det S"
    using epos dt by (simp add: S_def)
  have g1: "0 < (ev + real (ndim self)) / 2" using epos by simp
  have g2: "0 < ev / 2" using epos by simp
  have raw: "MvSt_pdf_body lgam self (k, rows) =
     Inr (map (\<lambda>r.
       fmul (fmul (fpow (Fin ((pi * ev) ^ length (lam self) * det S)) (- (1 / 2)))
                  (fexp (fsub (sp_gammaln lgam ((ev + real (ndim self)) / 2))
                              (sp_gammaln lgam (ev / 2)))))
            (fpow (fadd (Fin 1)
                     (fdiv (Fin (dot (map2 (-) r m) (cramer S (map2 (-) r m)))) (Fin ev)))
                  (- (ev + real (length (lam self))) / 2))) rows)"
    unfolding ev_def S_def m_def
    by (rule MvSt_pdf_body_raw[OF MvSt_const_sigma_value MvSt_const_mu_value sq lS lm rows])
       (use e dt in simp_all)
  have row: "fmul (fmul (fpow (Fin ((pi * ev) ^ length (lam self) * det S)) (- (1 / 2)))
                  (fexp (fsub (sp_gammaln lgam ((ev + real (ndim self)) / 2))
                              (sp_gammaln lgam (ev / 2)))))
            (fpow (fadd (Fin 1)
                     (fdiv (Fin (dot (map2 (-) r m) (cramer S (map2 (-) r m)))) (Fin ev)))
                  (- (ev + real (length (lam self))) / 2))
        = Fin (((pi * ev) ^ length (lam self) * det S) powr (- (1 / 2))
         * exp (lgam ((ev + real (ndim self)) / 2) - lgam (ev / 2))
         * (1 + quad_form S (map2 (-) r m) / ev)
             powr (- ((ev + real (length (lam self))) / 2)))"
    if r: "r \<in> set rows" for r
  proof -
    have "0 \<le> quad_form S (map2 (-) r m)" using q[OF r] by (simp add: S_def m_def)
    then have pos: "0 < 1 + quad_form S (map2 (-) r m) / ev"
      using epos by (simp add: add_pos_nonneg)
    have t1: "fpow (Fin ((pi * ev) ^ length (lam self) * det S)) (- (1 / 2))
                = Fin (((pi * ev) ^ length (lam self) * det S) powr (- (1 / 2)))"
      using base by (rule fpow_pos)
    have t2: "fexp (fsub (sp_gammaln lgam ((ev + real (ndim self)) / 2))
                         (sp_gammaln lgam (ev / 2)))
                = Fin (exp (lgam ((ev + real (ndim self)) / 2) - lgam (ev / 2)))"
      by (simp only: sp_gammaln_pos[OF g1] sp_gammaln_pos[OF g2] fsub_Fin fexp.simps)
    have "fadd (Fin 1) (fdiv (Fin (dot (map2 (-) r m) (cramer S (map2 (-) r m)))) (Fin ev))
            = Fin (1 + quad_form S (map2 (-) r m) / ev)"
      using e0 by (simp add: quad_form_def)
    then have t3: "fpow (fadd (Fin 1)
                     (fdiv (Fin (dot (map2 (-) r m) (cramer S (map2 (-) r m)))) (Fin ev)))
                  (- (ev + real (length (lam self))) / 2)
                = Fin ((1 + quad_form S (map2 (-) r m) / ev)
                         powr (- ((ev + real (length (lam self))) / 2)))"
      using fpow_pos[OF pos] by (simp only: minus_divide_left)
    show ?thesis by (simp only: t1 t2 t3 fmul.simps)
  qed
  show ?thesis
    unfolding raw ev_def[symmetric] S_def[symmetric] m_def[symmetric]
    using row by (simp cong: map_cong del: fpow.simps)
qed


lemma quad_form_scaled_id:
  assumes "0 < c" and "length d = n"
  shows "0 \<le> quad_form (scaled_id n c) d"
proof -
  have "quad_form (scaled_id n c) d = sum_list (map (\<lambda>x. x * (x / c)) d)"
    using assms by (simp add: quad_form_def dot_def cramer_scaled_id zip_map2 zip_same_conv_map
        o_def case_prod_unfold)
  also have "0 \<le> \<dots>"
    using assms(1) by (intro sum_list_nonneg) auto
  finally show ?thesis .
qed

lemma student_density_pos:
  "0 < e \<Longrightarrow> 0 < dt \<Longrightarrow> 0 \<le> q \<Longrightarrow> 0 < student_density lgam n e dt q"
proof -
  assume e: "0 < e" and dt: "0 < dt" and q: "0 \<le> q"
  have a: "(pi * e) ^ n * dt \<noteq> 0" using e dt by simp
  have "0 < 1 + q / e" using e q by (simp add: add_pos_nonneg)
  then have b: "1 + q / e \<noteq> 0" by simp
  have p1: "0 < ((pi * e) ^ n * dt) powr (- (1 / 2))"
    using a by simp
  have p2: "0 < (1 + q / e) powr (- ((e + real n) / 2))"
    using b by simp
  show ?thesis
    unfolding student_density_def
    by (intro mult_pos_pos p1 p2 exp_gt_zero)
qed

lemma det_2x2: "det [[a, b], [c, d]] = a * d - b * c"
  by (simp add: det_Cons)

lemma MvSt_pdf_unfold:
  "snd (MvSt_pdf lgam self (Some d))
     = MvSt_pdf_body lgam (self\<lparr>data := Some (Mat (fst (atleast_2d d)) (snd (atleast_2d d)))\<rparr>)
         (atleast_2d d)"
  by (simp add: MvSt_pdf_def Let_def)

lemma sigma_value_data [simp]: "sigma_value (self\<lparr>data := x\<rparr>) = sigma_value self"
  by (simp add: sigma_value_def split: option.splits)

lemma mu_value_data [simp]: "mu_value (self\<lparr>data := x\<rparr>) = mu_value self"
  by (simp add: mu_value_def split: option.splits)

lemma MvSt_pdf_values:
  assumes dom: "2 < num_val (eta self)"
    and lam: "length (lam self) = ndim self"
    and lmu: "length (mu_value self) = ndim self"
    and dat: "atleast_2d d = (ndim self, rows)"
    and rows: "list_all (\<lambda>r. length r = ndim self) rows"
    and spd: "sigma self \<noteq> None \<Longrightarrow>
                is_square (sigma_value self) \<and> length (sigma_value self) = ndim self
                \<and> 0 < det (sigma_value self)
                \<and> (\<forall>r \<in> set rows.
                      0 \<le> quad_form (sigma_value self) (map2 (-) r (mu_value self)))"
  shows "snd (MvSt_pdf lgam self (Some d)) =
           Inr (map (\<lambda>r. Fin (student_density lgam (ndim self) (num_val (eta self))
                                (det (sigma_value self))
                                (quad_form (sigma_value self) (map2 (-) r (mu_value self)))))
                  rows)
         \<and> (\<forall>r \<in> set rows.
               0 < student_density lgam (ndim self) (num_val (eta self))
                     (det (sigma_value self))
                     (quad_form (sigma_value self) (map2 (-) r (mu_value self))))"
proof -
  define S where "S = sigma_value self"
  define m where "m = mu_value self"
  define e where "e = num_val (eta self)"
  have epos: "0 < e" using dom by (simp add: e_def)
  have c: "0 < 1 - 2 / e" using dom by (simp add: e_def)
  have S: "is_square S \<and> length S = ndim self \<and> 0 < det S
           \<and> (\<forall>r \<in> set rows. 0 \<le> quad_form S (map2 (-) r m))"
  proof (cases "sigma self")
    case None
    then have Sv: "S = scaled_id (ndim self) (1 - 2 / e)"
      by (simp add: S_def sigma_value_def e_def)
    have "0 \<le> quad_form S (map2 (-) r m)" if "r \<in> set rows" for r
    proof -
      have "length (map2 (-) r m) = ndim self"
        using that rows lmu by (simp add: list_all_iff m_def)
      then show ?thesis unfolding Sv using c by (intro quad_form_scaled_id)
    qed
    then show ?thesis
      using c by (simp add: Sv is_square_scaled_id det_scaled_id)
  next
    case (Some s)
    then show ?thesis using spd by (simp add: S_def m_def)
  qed
  have body: "MvSt_pdf_body lgam (self\<lparr>data := Some (Mat (ndim self) rows)\<rparr>) (ndim self, rows)
     = Inr (map (\<lambda>r. Fin (student_density lgam (ndim self) e (det S)
                            (quad_form S (map2 (-) r m)))) rows)"
    using MvSt_pdf_body_value[of "self\<lparr>data := Some (Mat (ndim self) rows)\<rparr>" "ndim self" rows lgam]
      epos S lmu rows lam
    by (simp add: S_def m_def e_def student_density_def)
  have "0 < student_density lgam (ndim self) e (det S) (quad_form S (map2 (-) r m))"
    if "r \<in> set rows" for r
    using that S epos by (intro student_density_pos) auto
  then show ?thesis
    using body dat by (simp add: MvSt_pdf_unfold S_def m_def e_def)
qed

section \<open>The skewed density\<close>


lemma fsum_map2_Fin: "fsum (map2 fmul (map Fin a) (map Fin b)) = Fin (dot a b)"
proof -
  have "map2 fmul (map Fin a) (map Fin b) = map Fin (map2 (*) a b)"
    by (simp add: zip_map_map o_def case_prod_unfold)
  then show ?thesis by (simp only: fsum_Fin dot_def)
qed

lemma zip3_map: "zip (map f xs) (zip (map g xs) (map h xs)) = map (\<lambda>x. (f x, g x, h x)) xs"
  by (induction xs) simp_all

lemma SkStDM_pdf_body_raw:
  assumes cm: "SkStDM_const_mu self = Inr (map Fin m)"
    and cs: "SkStDM_const_sigma self = Inr (map (map Fin) S)"
    and sq: "is_square S" and lS: "length S = k" and lm: "length m = k"
    and ll: "length (lam self) = k"
    and rows: "list_all (\<lambda>r. length r = k) rows"
    and nz: "det S \<noteq> 0"
  shows "SkStDM_pdf_body K G self (k, rows) =
     Inr (map (\<lambda>r.
       fmul (fmul (fdiv (fmul (fmul
                 (fdiv (Fin (2 powr (1 - (num_val (eta self) + real k) / 2)))
                       (fpow (Fin ((pi * num_val (eta self)) ^ k * det S)) (1 / 2)))
                 (sp_kv K ((num_val (eta self) + real k) / 2)
                    (fpow (fmul (fadd (Fin (num_val (eta self)))
                                      (Fin (quad_form S (map2 (-) r m))))
                                (Fin (quad_form S (lam self)))) (1 / 2))))
                 (fpow (fpow (fmul (fadd (Fin (num_val (eta self)))
                                      (Fin (quad_form S (map2 (-) r m))))
                                (Fin (quad_form S (lam self)))) (1 / 2))
                       ((num_val (eta self) + real k) / 2)))
               (sp_gamma G (num_val (eta self) / 2)))
             (fexp (Fin (dot (cramer S (map2 (-) r m)) (lam self)))))
            (fpow (fadd (Fin 1)
                     (fdiv (Fin (quad_form S (map2 (-) r m))) (Fin (num_val (eta self)))))
                  (- ((num_val (eta self) + real k) / 2)))) rows)"
proof -
  define D where "D = map (\<lambda>r. map2 (-) r m) rows"
  define xs where "xs = map (\<lambda>col. map Fin (cramer S col)) D"
  have D: "list_all (\<lambda>r. length r = k) D"
    using rows lm by (simp add: D_def list_all_iff)
  have xsr: "list_all (\<lambda>r. length r = k) xs"
    using lS by (simp add: xs_def list_all_iff)
  have bs: "broadcast_sub (k, rows) (map Fin m) = Inr (k, map (map Fin) D)"
    unfolding D_def by (rule broadcast_sub_ok[OF lm])
  have sv: "scl_solve (map (map Fin) S) (arr_T (k, map (map Fin) D)) = Inr (arr_T (k, xs))"
    unfolding xs_def by (rule scl_solve_ok[OF sq lS nz D])
  have sw: "sum_axis0 (mul_elem (arr_T (k, map (map Fin) D)) (arr_T (k, xs)))
             = map (\<lambda>d. Fin (quad_form S d)) D"
    unfolding xs_def quad_form_def by (rule sandwich[OF D]) (simp add: lS)
  have s1: "scl_solve1 (map (map Fin) S) (map Fin (lam self)) = Inr (cramer S (lam self))"
    using sq ll lS nz by (simp add: scl_solve1_ok)
  have nl: "fsum (map2 fmul (map Fin (lam self)) (map Fin (cramer S (lam self))))
              = Fin (quad_form S (lam self))"
    by (simp only: fsum_map2_Fin quad_form_def)
  have sk: "map (\<lambda>r. fsum (map2 fmul r (map Fin (lam self)))) (snd (arr_T (arr_T (k, xs))))
              = map (\<lambda>d. Fin (dot (cramer S d) (lam self))) D"
  proof -
    have "snd (arr_T (arr_T (k, xs))) = xs"
      using arr_T_involution[OF xsr] by simp
    then show ?thesis
      by (simp add: xs_def o_def fsum_map2_Fin)
  qed
  show ?thesis
    unfolding SkStDM_pdf_body_def Let_def
    apply (simp only: cm cs bind_err_Inr bs sv sw s1 nl sk scl_det_ok[OF sq] ll zip3_map)
    apply (simp only: D_def map_map o_def)
    apply (simp only: zip3_map map_map o_def case_prod_conv minus_divide_left)
    done
qed


lemma dot_replicate_zero: "dot (replicate n 0) b = 0"
  unfolding dot_def
  by (rule sum_list_zero) (auto dest!: set_zip_leftD)

lemma SkStDM_const_mu_zero_lam:
  assumes "lam self = replicate (ndim self) 0" and "num_val (eta self) \<noteq> 2"
  shows "SkStDM_const_mu self = Inr (map Fin (mu_value self))"
proof (cases "mu self")
  case None
  then show ?thesis
    using assms SkStDM_const_mu_derived[of self] by (simp add: mu_value_def)
next
  case (Some m)
  then show ?thesis by (simp add: SkStDM_const_mu_def mu_value_def)
qed

lemma SkStDM_const_sigma_zero_lam:
  assumes "lam self = replicate (ndim self) 0"
    and "num_val (eta self) \<noteq> 0" "num_val (eta self) \<noteq> 2" "num_val (eta self) \<noteq> 4"
  shows "SkStDM_const_sigma self = Inr (map (map Fin) (sigma_value self))"
proof (cases "sigma self")
  case None
  have "map (\<lambda>i. map (\<lambda>j. Fin ((1 - 2 / num_val (eta self)) * (if i = j then 1 else 0)
                - 2 * num_val (eta self) / ((num_val (eta self) - 2) * (num_val (eta self) - 4))
                  * (lam self ! i * lam self ! j)))
              [0..<length (lam self)]) [0..<length (lam self)]
        = map (map Fin) (scaled_id (ndim self) (1 - 2 / num_val (eta self)))"
    unfolding scaled_id_def assms(1)
    by (auto simp: o_def intro!: map_cong)
  then show ?thesis
    using None SkStDM_const_sigma_derived[OF None assms(2-4)] by (simp add: sigma_value_def)
next
  case (Some s)
  then show ?thesis by (simp add: SkStDM_const_sigma_def sigma_value_def)
qed

lemma nan_product: "fmul (fmul x PInf) (Fin 0) = NaN"
  by (cases x) (auto simp: signed_inf_def)

lemma fmul_NaN_left: "fmul NaN y = NaN" by simp
lemma fdiv_NaN_left: "fdiv NaN y = NaN" by simp

lemma SkStDM_pdf_unfold:
  "snd (SkStDM_pdf K G self (Some d))
     = SkStDM_pdf_body K G (self\<lparr>data := Some (Mat (fst (atleast_2d d)) (snd (atleast_2d d)))\<rparr>)
         (atleast_2d d)"
  by (simp add: SkStDM_pdf_def Let_def)

lemma SkStDM_pdf_nan:
  assumes lam0: "lam self = replicate (ndim self) 0"
    and dom: "2 < num_val (eta self)" "num_val (eta self) \<noteq> 4"
    and lmu: "length (mu_value self) = ndim self"
    and dat: "atleast_2d d = (ndim self, rows)"
    and rows: "list_all (\<lambda>r. length r = ndim self) rows"
    and spd: "sigma self \<noteq> None \<Longrightarrow>
                is_square (sigma_value self) \<and> length (sigma_value self) = ndim self
                \<and> 0 < det (sigma_value self)
                \<and> (\<forall>r \<in> set rows.
                      0 \<le> quad_form (sigma_value self) (map2 (-) r (mu_value self)))"
  shows "snd (SkStDM_pdf K G self (Some d)) = Inr (map (\<lambda>r. NaN) rows)"
proof -
  define self' where "self' = self\<lparr>data := Some (Mat (ndim self) rows)\<rparr>"
  define e where "e = num_val (eta self)"
  define S where "S = sigma_value self"
  define m where "m = mu_value self"
  define k where "k = ndim self"
  have e: "e \<noteq> 0" "e \<noteq> 2" "e \<noteq> 4" "2 < e" using dom by (simp_all add: e_def)
  have c: "0 < 1 - 2 / e" using e(4) by simp
  have S: "is_square S \<and> length S = k \<and> det S \<noteq> 0"
  proof (cases "sigma self")
    case None
    then have Sv: "S = scaled_id k (1 - 2 / e)"
      by (simp add: S_def sigma_value_def e_def k_def)
    have "0 < det S" by (simp only: Sv det_scaled_id zero_less_power[OF c])
    then have "det S \<noteq> 0" by simp
    moreover have "is_square S" by (simp only: Sv is_square_scaled_id)
    moreover have "length S = k" by (simp only: Sv length_scaled_id)
    ultimately show ?thesis by blast
  next
    case (Some s)
    then show ?thesis using spd by (auto simp: S_def k_def)
  qed
  have cm: "SkStDM_const_mu self' = Inr (map Fin m)"
    unfolding m_def using SkStDM_const_mu_zero_lam[of self'] lam0 e(2)
    by (simp add: self'_def e_def)
  have cs: "SkStDM_const_sigma self' = Inr (map (map Fin) S)"
    unfolding S_def using SkStDM_const_sigma_zero_lam[of self'] lam0 e(1-3)
    by (simp add: self'_def e_def)
  have ll: "length (lam self') = k" using lam0 by (simp add: self'_def k_def)
  have q0: "quad_form S (lam self') = 0"
    using lam0 by (simp add: quad_form_def self'_def dot_replicate_zero)
  have ev: "num_val (eta self') = e" by (simp add: self'_def e_def)
  have nu: "0 < (e + real k) / 2" using e(4) by simp
  have kap: "fpow (fmul (fadd (Fin e) (Fin q)) (Fin 0)) (1 / 2) = Fin 0" for q
    by simp
  have pz: "fpow (Fin 0) ((e + real k) / 2) = Fin 0" using nu by simp
  have kv0: "sp_kv K v (Fin 0) = PInf" for v by simp
  have raw: "SkStDM_pdf_body K G self' (k, rows) = Inr (map (\<lambda>r. NaN) rows)"
    using S lmu rows
    apply (subst SkStDM_pdf_body_raw[OF cm cs _ _ _ ll, where rows=rows])
         apply (simp_all add: m_def k_def)[5]
    apply (simp only: ev q0 kap kv0 pz nan_product fdiv_NaN_left fmul_NaN_left)
    done
  show ?thesis
    using raw dat by (simp add: SkStDM_pdf_unfold self'_def k_def)
qed


text \<open>
  Claim C2.  The claim is that the skewed density with \<open>lam = 0\<close> returns the values of the
  symmetric density.  The code does not: with \<open>lam = 0\<close> the location and scale of the
  two densities agree, but the skewed \<open>pdf\<close> computes \<open>\<kappa> = 0\<close>, \<open>kv(\<nu>, 0) = inf\<close> and
  \<open>0 ** \<nu> = 0\<close>, and their product is NaN for every row, whatever the data, while the
  symmetric \<open>pdf\<close> of the same object returns the Student density.  (\<open>eta = 4\<close> is left
  out: there the skewed \<open>const_sigma\<close> divides by zero.)
\<close>

theorem skewed_zero_lam_is_nan:
  assumes lam0: "lam self = replicate (ndim self) 0"
    and dom: "2 < num_val (eta self)" "num_val (eta self) \<noteq> 4"
    and lmu: "length (mu_value self) = ndim self"
    and dat: "atleast_2d d = (ndim self, rows)"
    and rows: "list_all (\<lambda>r. length r = ndim self) rows"
    and spd: "sigma self \<noteq> None \<Longrightarrow>
                is_square (sigma_value self) \<and> length (sigma_value self) = ndim self
                \<and> 0 < det (sigma_value self)
                \<and> (\<forall>r \<in> set rows.
                      0 \<le> quad_form (sigma_value self) (map2 (-) r (mu_value self)))"
  shows "snd (SkStDM_pdf K G self (Some d)) = Inr (map (\<lambda>r. NaN) rows)
         \<and> snd (MvSt_pdf lgam self (Some d)) =
             Inr (map (\<lambda>r. Fin (student_density lgam (ndim self) (num_val (eta self))
                                (det (sigma_value self))
                                (quad_form (sigma_value self) (map2 (-) r (mu_value self)))))
                  rows)"
proof -
  have "length (lam self) = ndim self" using lam0 by simp
  then show ?thesis
    using SkStDM_pdf_nan[OF assms, of K G] MvSt_pdf_values[OF dom(1) _ lmu dat rows spd, of lgam]
    by simp
qed

theorem skewed_zero_lam_is_nan_witness:
  "\<forall>K G lgam.
     snd (SkStDM_pdf K G (SkStDM_init 1 (PyScalar 10) [0] None None None) (Some (Vec [1/2])))
       = Inr [NaN]
     \<and> snd (MvSt_pdf lgam (SkStDM_init 1 (PyScalar 10) [0] None None None) (Some (Vec [1/2])))
       = Inr [Fin (student_density lgam 1 10 (4/5) (5/16))]
     \<and> MvSt_init 1 (PyScalar 10) None None None = SkStDM_init 1 (PyScalar 10) [0] None None None"
proof (intro allI)
  fix K G lgam
  let ?a = "SkStDM_init 1 (PyScalar 10) [0] None None None"
  have a: "sigma_value ?a = [[4/5]]" "mu_value ?a = [0]"
    "ndim ?a = 1" "num_val (eta ?a) = 10" "lam ?a = [0]" "sigma ?a = None"
    by (simp_all add: SkStDM_init_def MultiDensity_init_def MultiDensity.defs SkStDM.defs
        sigma_value_def mu_value_def scaled_id_def)
  have q: "quad_form [[4/5]] [1/2] = 5/16"
    by (simp add: quad_form_def dot_def cramer_def replace_col_def det_Cons)
  have d: "det [[4/5]] = 4/5" by (simp add: det_Cons)
  have eq: "MvSt_init 1 (PyScalar 10) None None None = ?a"
    by (simp add: MvSt_init_def SkStDM_init_def)
  show "snd (SkStDM_pdf K G ?a (Some (Vec [1/2]))) = Inr [NaN]
     \<and> snd (MvSt_pdf lgam ?a (Some (Vec [1/2])))
       = Inr [Fin (student_density lgam 1 10 (4/5) (5/16))]
     \<and> MvSt_init 1 (PyScalar 10) None None None = ?a"
  proof -
    have h1: "lam ?a = replicate (ndim ?a) 0" unfolding a by simp
    have h2: "2 < num_val (eta ?a)" unfolding a by simp
    have h3: "num_val (eta ?a) \<noteq> 4" unfolding a by simp
    have h4: "length (mu_value ?a) = ndim ?a" unfolding a by simp
    have h5: "atleast_2d (Vec [1/2]) = (ndim ?a, [[1/2]])" unfolding a by simp
    have h6: "list_all (\<lambda>r. length r = ndim ?a) [[1/2]]" unfolding a by simp
    have h7: "sigma ?a \<noteq> None \<Longrightarrow>
                is_square (sigma_value ?a) \<and> length (sigma_value ?a) = ndim ?a
                \<and> 0 < det (sigma_value ?a)
                \<and> (\<forall>r \<in> set [[1/2]].
                      0 \<le> quad_form (sigma_value ?a) (map2 (-) r (mu_value ?a)))"
      unfolding a by simp
    note r = skewed_zero_lam_is_nan[OF h1 h2 h3 h4 h5 h6 h7, of K G lgam, unfolded a]
    show ?thesis using r eq by (simp add: q d)
  qed
qed


section \<open>Evaluation in the range of doubles\<close>

lemma SkStDM_const_mu_value:
  "num_val (eta self) \<noteq> 2 \<Longrightarrow> SkStDM_const_mu self = Inr (map Fin (sk_mu_value self))"
  using SkStDM_const_mu_derived[of self]
  by (cases "mu self") (simp_all add: sk_mu_value_def SkStDM_const_mu_def o_def)

lemma SkStDM_const_sigma_value:
  assumes "num_val (eta self) \<noteq> 0" "num_val (eta self) \<noteq> 2" "num_val (eta self) \<noteq> 4"
  shows "SkStDM_const_sigma self = Inr (map (map Fin) (sk_sigma_value self))"
proof (cases "sigma self")
  case None
  then show ?thesis
    using SkStDM_const_sigma_derived[OF None assms]
    by (simp add: sk_sigma_value_def o_def)
next
  case (Some s)
  then show ?thesis by (simp add: SkStDM_const_sigma_def sk_sigma_value_def)
qed

lemma sk_sigma_value_data [simp]: "sk_sigma_value (self\<lparr>data := x\<rparr>) = sk_sigma_value self"
  by (simp add: sk_sigma_value_def split: option.splits)

lemma sk_mu_value_data [simp]: "sk_mu_value (self\<lparr>data := x\<rparr>) = sk_mu_value self"
  by (simp add: sk_mu_value_def split: option.splits)



lemma fst_arr_T [simp]: "fst (arr_T a) = length (snd a)"
  by (simp add: arr_T_def)

lemma length_snd_arr_T [simp]: "length (snd (arr_T a)) = fst a"
  by (simp add: arr_T_def)


lemma length_sum_axis0 [simp]: "length (sum_axis0 a) = fst a"
  by (simp add: sum_axis0_def)

lemma fst_mul_elem [simp]: "fst (mul_elem a b) = fst a"
  by (simp add: mul_elem_def)



lemma rnd_in_dbl: "in_dbl x \<Longrightarrow> rnd x = Fin x"
  by (auto simp: in_dbl_def rnd_def)

lemma fl_rnd_in_dbl: "in_dbl x \<Longrightarrow> fl_rnd (Fin x) = Fin x"
  by (simp add: rnd_in_dbl)

lemma dmul_Fin: "in_dbl (a * b) \<Longrightarrow> dmul (Fin a) (Fin b) = Fin (a * b)"
  by (simp add: dmul_def rnd_in_dbl)

lemma ddiv_Fin: "b \<noteq> 0 \<Longrightarrow> in_dbl (a / b) \<Longrightarrow> ddiv (Fin a) (Fin b) = Fin (a / b)"
  by (simp add: ddiv_def rnd_in_dbl)

lemma dadd_Fin: "in_dbl (a + b) \<Longrightarrow> dadd (Fin a) (Fin b) = Fin (a + b)"
  by (simp add: dadd_def rnd_in_dbl)

lemma dsub_Fin: "in_dbl (a - b) \<Longrightarrow> dsub (Fin a) (Fin b) = Fin (a - b)"
  by (simp add: dsub_def rnd_in_dbl)

lemma dpow_pos: "0 < a \<Longrightarrow> in_dbl (a powr y) \<Longrightarrow> dpow (Fin a) y = Fin (a powr y)"
  by (simp only: dpow_def fpow_pos fl_rnd.simps rnd_in_dbl)

lemma dexp_Fin: "in_dbl (exp a) \<Longrightarrow> dexp (Fin a) = Fin (exp a)"
  by (simp add: dexp_def rnd_in_dbl)

lemma py_pow_int_ok:
  "in_dbl b \<Longrightarrow> in_dbl (b ^ n) \<Longrightarrow> py_pow_int sc (rnd b) n = Inr (Fin (b ^ n))"
  by (simp add: py_pow_int_def rnd_in_dbl) (simp add: in_dbl_def)

lemma py_pow2_ok: "in_dbl (2 powr y) \<Longrightarrow> py_pow2 sc y = Inr (Fin (2 powr y))"
  by (simp add: py_pow2_def rnd_in_dbl) (simp add: in_dbl_def)

lemma sp_gammaln_dbl_pos:
  "0 < x \<Longrightarrow> in_dbl (lgam x) \<Longrightarrow> sp_gammaln_dbl lgam x = Fin (lgam x)"
  by (simp add: sp_gammaln_dbl_def rnd_in_dbl)

lemma sp_gamma_dbl_pos: "0 < x \<Longrightarrow> in_dbl (G x) \<Longrightarrow> sp_gamma_dbl G x = Fin (G x)"
  by (simp add: sp_gamma_dbl_def rnd_in_dbl)

lemma sp_kv_dbl_pos: "0 < x \<Longrightarrow> in_dbl (K v x) \<Longrightarrow> sp_kv_dbl K v (Fin x) = Fin (K v x)"
  by (simp add: rnd_in_dbl)

lemma MvSt_pdf_body_dbl_raw:
  assumes cs: "MvSt_const_sigma self = Inr (map (map Fin) S)"
    and cm: "MvSt_const_mu self = map Fin m"
    and sq: "is_square S" and lS: "length S = k" and lm: "length m = k"
    and rows: "list_all (\<lambda>r. length r = k) rows"
    and nz: "det S \<noteq> 0"
  shows "MvSt_pdf_body_dbl lgam self (k, rows) =
     bind_err (py_pow_int (is_scalar (eta self)) (rnd (pi * num_val (eta self)))
                 (length (lam self))) (\<lambda>p.
     Inr (map (\<lambda>r.
       dmul (dmul (dpow (dmul p (rnd (det S))) (- (1 / 2)))
                  (dexp (dsub (sp_gammaln_dbl lgam ((num_val (eta self) + real (ndim self)) / 2))
                              (sp_gammaln_dbl lgam (num_val (eta self) / 2)))))
            (dpow (dadd (Fin 1)
                     (ddiv (rnd (quad_form S (map2 (-) r m)))
                           (Fin (num_val (eta self)))))
                  (- (num_val (eta self) + real (length (lam self))) / 2))) rows))"
proof -
  define D where "D = map (\<lambda>r. map2 (-) r m) rows"
  have D: "list_all (\<lambda>r. length r = k) D"
    using rows lm by (simp add: D_def list_all_iff)
  have bs: "broadcast_sub (k, rows) (MvSt_const_mu self) = Inr (k, map (map Fin) D)"
    unfolding cm D_def by (rule broadcast_sub_ok[OF lm])
  have sv: "scl_solve (map (map Fin) S) (arr_T (k, map (map Fin) D))
              = Inr (arr_T (k, map (\<lambda>col. map Fin (cramer S col)) D))"
    by (rule scl_solve_ok[OF sq lS nz D])
  have sw: "sum_axis0 (mul_elem (arr_T (k, map (map Fin) D))
                             (arr_T (k, map (\<lambda>col. map Fin (cramer S col)) D)))
             = map (\<lambda>d. Fin (quad_form S d)) D"
    unfolding quad_form_def by (rule sandwich[OF D]) (simp add: lS)
  show ?thesis
    unfolding MvSt_pdf_body_dbl_def Let_def
    apply (simp only: bs cs bind_err_Inr sv sw scl_det_ok[OF sq])
    apply (simp only: D_def map_map o_def fl_rnd.simps)
    done
qed

lemma mvst_pow:
  assumes f: "mvst_front_in_dbl lgam n nd e dt"
  shows "py_pow_int sc (rnd (pi * e)) n = Inr (Fin ((pi * e) ^ n))"
  using f by (intro py_pow_int_ok) (simp_all add: mvst_front_in_dbl_def Let_def)

lemma mvst_row:
  assumes e: "0 < e" and dt: "0 < dt" and q: "0 \<le> q"
    and f: "mvst_front_in_dbl lgam n nd e dt" and r: "mvst_row_in_dbl lgam n nd e dt q"
  shows "dmul (dmul (dpow (dmul (Fin ((pi * e) ^ n)) (rnd dt)) (- (1 / 2)))
                  (dexp (dsub (sp_gammaln_dbl lgam ((e + real nd) / 2))
                              (sp_gammaln_dbl lgam (e / 2)))))
            (dpow (dadd (Fin 1) (ddiv (rnd q) (Fin e))) (- (e + real n) / 2))
         = Fin (((pi * e) ^ n * dt) powr (- (1 / 2))
                 * exp (lgam ((e + real nd) / 2) - lgam (e / 2))
                 * (1 + q / e) powr (- ((e + real n) / 2)))"
proof -
  define p where "p = (pi * e) ^ n"
  define g1 where "g1 = lgam ((e + real nd) / 2)"
  define g2 where "g2 = lgam (e / 2)"
  have F: "in_dbl (pi * e)" "in_dbl p" "in_dbl dt" "in_dbl (p * dt)"
    "in_dbl ((p * dt) powr (- (1 / 2)))" "in_dbl g1" "in_dbl g2" "in_dbl (g1 - g2)"
    "in_dbl (exp (g1 - g2))" "in_dbl ((p * dt) powr (- (1 / 2)) * exp (g1 - g2))"
    using f by (simp_all add: mvst_front_in_dbl_def Let_def p_def g1_def g2_def)
  have R: "in_dbl q" "in_dbl (q / e)" "in_dbl (1 + q / e)"
    "in_dbl ((1 + q / e) powr (- ((e + real n) / 2)))"
    "in_dbl ((p * dt) powr (- (1 / 2)) * exp (g1 - g2) * (1 + q / e) powr (- ((e + real n) / 2)))"
    using r by (simp_all add: mvst_row_in_dbl_def Let_def p_def g1_def g2_def)
  have base: "0 < p * dt" using e dt by (simp add: p_def)
  have a1: "0 < (e + real nd) / 2" and a2: "0 < e / 2" using e by simp_all
  have one: "0 < 1 + q / e" using e q by (simp add: add_pos_nonneg)
  have e0: "e \<noteq> 0" using e by simp
  have t1: "dpow (dmul (Fin p) (rnd dt)) (- (1 / 2)) = Fin ((p * dt) powr (- (1 / 2)))"
    by (simp only: rnd_in_dbl[OF F(3)] dmul_Fin[OF F(4)] dpow_pos[OF base F(5)])
  have t2: "dexp (dsub (sp_gammaln_dbl lgam ((e + real nd) / 2)) (sp_gammaln_dbl lgam (e / 2)))
              = Fin (exp (g1 - g2))"
  proof -
    have b1: "sp_gammaln_dbl lgam ((e + real nd) / 2) = Fin g1"
      unfolding g1_def using a1 F(6)[unfolded g1_def] by (rule sp_gammaln_dbl_pos)
    have b2: "sp_gammaln_dbl lgam (e / 2) = Fin g2"
      unfolding g2_def using a2 F(7)[unfolded g2_def] by (rule sp_gammaln_dbl_pos)
    show ?thesis
      by (simp only: b1 b2 dsub_Fin[OF F(8)] dexp_Fin[OF F(9)])
  qed
  have t3: "dpow (dadd (Fin 1) (ddiv (rnd q) (Fin e))) (- (e + real n) / 2)
              = Fin ((1 + q / e) powr (- ((e + real n) / 2)))"
    by (simp only: rnd_in_dbl[OF R(1)] ddiv_Fin[OF e0 R(2)] dadd_Fin[OF R(3)]
        minus_divide_left[symmetric] dpow_pos[OF one R(4)])
  show ?thesis
    apply (simp only: p_def[symmetric] t1 t2 t3 dmul_Fin[OF F(10)] dmul_Fin[OF R(5)])
    apply (simp only: p_def g1_def g2_def)
    done
qed

lemma MvSt_pdf_dbl_unfold:
  "snd (MvSt_pdf_dbl lgam self (Some d))
     = MvSt_pdf_body_dbl lgam (self\<lparr>data := Some (Mat (fst (atleast_2d d)) (snd (atleast_2d d)))\<rparr>)
         (atleast_2d d)"
  by (simp add: MvSt_pdf_dbl_def Let_def)

lemma MvSt_pdf_dbl_values:
  assumes e: "0 < num_val (eta self)"
    and lmu: "length (mu_value self) = ndim self"
    and dat: "atleast_2d d = (ndim self, rows)"
    and rows: "list_all (\<lambda>r. length r = ndim self) rows"
    and sq: "is_square (sigma_value self)" and lS: "length (sigma_value self) = ndim self"
    and dt: "0 < det (sigma_value self)"
    and q: "\<And>r. r \<in> set rows \<Longrightarrow>
              0 \<le> quad_form (sigma_value self) (map2 (-) r (mu_value self))"
    and fr: "mvst_front_in_dbl lgam (length (lam self)) (ndim self) (num_val (eta self))
               (det (sigma_value self))"
    and rr: "\<And>r. r \<in> set rows \<Longrightarrow>
               mvst_row_in_dbl lgam (length (lam self)) (ndim self) (num_val (eta self))
                 (det (sigma_value self))
                 (quad_form (sigma_value self) (map2 (-) r (mu_value self)))"
  shows "snd (MvSt_pdf_dbl lgam self (Some d)) =
     Inr (map (\<lambda>r. Fin (
         ((pi * num_val (eta self)) ^ length (lam self) * det (sigma_value self)) powr (- (1 / 2))
         * exp (lgam ((num_val (eta self) + real (ndim self)) / 2) - lgam (num_val (eta self) / 2))
         * (1 + quad_form (sigma_value self) (map2 (-) r (mu_value self)) / num_val (eta self))
             powr (- ((num_val (eta self) + real (length (lam self))) / 2)))) rows)"
proof -
  define self' where "self' = self\<lparr>data := Some (Mat (ndim self) rows)\<rparr>"
  define ev where "ev = num_val (eta self)"
  define S where "S = sigma_value self"
  define m where "m = mu_value self"
  define k where "k = ndim self"
  define n where "n = length (lam self)"
  have s': "num_val (eta self') = ev" "lam self' = lam self" "ndim self' = k"
    "is_scalar (eta self') = is_scalar (eta self)"
    by (simp_all add: self'_def ev_def k_def)
  have cs: "MvSt_const_sigma self' = Inr (map (map Fin) S)"
    using MvSt_const_sigma_value[of self'] e by (simp add: self'_def S_def)
  have cm: "MvSt_const_mu self' = map Fin m"
    using MvSt_const_mu_value[of self'] by (simp add: self'_def m_def)
  have nz: "det S \<noteq> 0" using dt by (simp add: S_def)
  have raw: "MvSt_pdf_body_dbl lgam self' (k, rows) =
     bind_err (py_pow_int (is_scalar (eta self)) (rnd (pi * ev)) n) (\<lambda>p.
     Inr (map (\<lambda>r.
       dmul (dmul (dpow (dmul p (rnd (det S))) (- (1 / 2)))
                  (dexp (dsub (sp_gammaln_dbl lgam ((ev + real k) / 2))
                              (sp_gammaln_dbl lgam (ev / 2)))))
            (dpow (dadd (Fin 1) (ddiv (rnd (quad_form S (map2 (-) r m))) (Fin ev)))
                  (- (ev + real n) / 2))) rows))"
  proof -
    have h: "is_square S" "length S = k" "length m = k" "list_all (\<lambda>r. length r = k) rows"
      using sq lS lmu rows by (simp_all only: S_def m_def k_def)
    show ?thesis
      using MvSt_pdf_body_dbl_raw[OF cs cm h nz, of lgam] by (simp only: s' n_def)
  qed
  have fr': "mvst_front_in_dbl lgam n k ev (det S)"
    using fr by (simp only: n_def k_def ev_def S_def)
  have row: "dmul (dmul (dpow (dmul (Fin ((pi * ev) ^ n)) (rnd (det S))) (- (1 / 2)))
                  (dexp (dsub (sp_gammaln_dbl lgam ((ev + real k) / 2))
                              (sp_gammaln_dbl lgam (ev / 2)))))
            (dpow (dadd (Fin 1) (ddiv (rnd (quad_form S (map2 (-) r m))) (Fin ev)))
                  (- (ev + real n) / 2))
        = Fin (((pi * ev) ^ n * det S) powr (- (1 / 2))
                 * exp (lgam ((ev + real k) / 2) - lgam (ev / 2))
                 * (1 + quad_form S (map2 (-) r m) / ev) powr (- ((ev + real n) / 2)))"
    if r: "r \<in> set rows" for r
    using e dt q[OF r] fr' rr[OF r]
    by (intro mvst_row) (simp_all only: ev_def S_def m_def n_def k_def)
  have "MvSt_pdf_body_dbl lgam self' (k, rows) =
     Inr (map (\<lambda>r. Fin (((pi * ev) ^ n * det S) powr (- (1 / 2))
                 * exp (lgam ((ev + real k) / 2) - lgam (ev / 2))
                 * (1 + quad_form S (map2 (-) r m) / ev) powr (- ((ev + real n) / 2)))) rows)"
    unfolding raw mvst_pow[OF fr'] bind_err_Inr
    using row by (simp cong: map_cong)
  then show ?thesis
    using dat by (simp add: MvSt_pdf_dbl_unfold self'_def k_def ev_def S_def m_def n_def)
qed

lemma SkStDM_pdf_body_dbl_raw:
  assumes cm: "SkStDM_const_mu self = Inr (map Fin m)"
    and cs: "SkStDM_const_sigma self = Inr (map (map Fin) S)"
    and sq: "is_square S" and lS: "length S = k" and lm: "length m = k"
    and ll: "length (lam self) = k"
    and rows: "list_all (\<lambda>r. length r = k) rows"
    and nz: "det S \<noteq> 0"
  shows "SkStDM_pdf_body_dbl K G self (k, rows) =
     bind_err (py_pow2 (is_scalar (eta self)) (1 - (num_val (eta self) + real k) / 2)) (\<lambda>p2.
     bind_err (py_pow_int (is_scalar (eta self)) (rnd (pi * num_val (eta self))) k) (\<lambda>p.
     Inr (map (\<lambda>r.
       dmul (dmul (ddiv (dmul (dmul
                 (ddiv p2 (dpow (dmul p (rnd (det S))) (1 / 2)))
                 (sp_kv_dbl K ((num_val (eta self) + real k) / 2)
                    (dpow (dmul (dadd (Fin (num_val (eta self)))
                                      (rnd (quad_form S (map2 (-) r m))))
                                (rnd (quad_form S (lam self)))) (1 / 2))))
                 (dpow (dpow (dmul (dadd (Fin (num_val (eta self)))
                                      (rnd (quad_form S (map2 (-) r m))))
                                (rnd (quad_form S (lam self)))) (1 / 2))
                       ((num_val (eta self) + real k) / 2)))
               (sp_gamma_dbl G (num_val (eta self) / 2)))
             (dexp (rnd (dot (cramer S (map2 (-) r m)) (lam self)))))
            (dpow (dadd (Fin 1)
                     (ddiv (rnd (quad_form S (map2 (-) r m))) (Fin (num_val (eta self)))))
                  (- ((num_val (eta self) + real k) / 2)))) rows)))"
proof -
  define D where "D = map (\<lambda>r. map2 (-) r m) rows"
  define xs where "xs = map (\<lambda>col. map Fin (cramer S col)) D"
  have D: "list_all (\<lambda>r. length r = k) D"
    using rows lm by (simp add: D_def list_all_iff)
  have xsr: "list_all (\<lambda>r. length r = k) xs"
    using lS by (simp add: xs_def list_all_iff)
  have bs: "broadcast_sub (k, rows) (map Fin m) = Inr (k, map (map Fin) D)"
    unfolding D_def by (rule broadcast_sub_ok[OF lm])
  have sv: "scl_solve (map (map Fin) S) (arr_T (k, map (map Fin) D)) = Inr (arr_T (k, xs))"
    unfolding xs_def by (rule scl_solve_ok[OF sq lS nz D])
  have sw: "sum_axis0 (mul_elem (arr_T (k, map (map Fin) D)) (arr_T (k, xs)))
             = map (\<lambda>d. Fin (quad_form S d)) D"
    unfolding xs_def quad_form_def by (rule sandwich[OF D]) (simp add: lS)
  have s1: "scl_solve1 (map (map Fin) S) (map Fin (lam self)) = Inr (cramer S (lam self))"
    using sq ll lS nz by (simp add: scl_solve1_ok)
  have nl: "fsum (map2 fmul (map Fin (lam self)) (map Fin (cramer S (lam self))))
              = Fin (quad_form S (lam self))"
    by (simp only: fsum_map2_Fin quad_form_def)
  have sk: "map (\<lambda>r. fl_rnd (fsum (map2 fmul r (map Fin (lam self)))))
                (snd (arr_T (arr_T (k, xs))))
              = map (\<lambda>d. rnd (dot (cramer S d) (lam self))) D"
  proof -
    have "snd (arr_T (arr_T (k, xs))) = xs"
      using arr_T_involution[OF xsr] by simp
    then show ?thesis
      by (simp add: xs_def o_def fsum_map2_Fin)
  qed
  show ?thesis
    unfolding SkStDM_pdf_body_dbl_def Let_def
    apply (simp only: cm cs bind_err_Inr bs sv sw s1 nl sk scl_det_ok[OF sq] ll)
    apply (simp only: D_def map_map o_def fl_rnd.simps)
    apply (simp only: zip3_map map_map o_def case_prod_conv minus_divide_left)
    done
qed

lemma skew_pows:
  assumes f: "skew_front_in_dbl G n e dt nl"
  shows "py_pow2 sc (1 - (e + real n) / 2) = Inr (Fin (2 powr (1 - (e + real n) / 2)))"
    and "py_pow_int sc (rnd (pi * e)) n = Inr (Fin ((pi * e) ^ n))"
  using f
  by (auto intro!: py_pow2_ok py_pow_int_ok simp: skew_front_in_dbl_def Let_def)

lemma skew_row_dbl:
  assumes e: "0 < e" and dt: "0 < dt" and q: "0 \<le> q" and nl: "0 < nl"
    and G: "0 < G (e / 2)"
    and f: "skew_front_in_dbl G k e dt nl" and r: "skew_row_in_dbl K G k e dt q nl s"
  shows "dmul (dmul (ddiv (dmul (dmul
                 (ddiv (Fin (2 powr (1 - (e + real k) / 2)))
                       (dpow (dmul (Fin ((pi * e) ^ k)) (rnd dt)) (1 / 2)))
                 (sp_kv_dbl K ((e + real k) / 2)
                    (dpow (dmul (dadd (Fin e) (rnd q)) (rnd nl)) (1 / 2))))
                 (dpow (dpow (dmul (dadd (Fin e) (rnd q)) (rnd nl)) (1 / 2))
                       ((e + real k) / 2)))
               (sp_gamma_dbl G (e / 2)))
             (dexp (rnd s)))
            (dpow (dadd (Fin 1) (ddiv (rnd q) (Fin e))) (- ((e + real k) / 2)))
         = Fin (skew_density K G k e dt q nl s)"
proof -
  define nu where "nu = (e + real k) / 2"
  define p where "p = (pi * e) ^ k"
  define rt where "rt = (p * dt) powr (1 / 2)"
  define p2 where "p2 = 2 powr (1 - nu)"
  define kap where "kap = ((e + q) * nl) powr (1 / 2)"
  define a1 where "a1 = p2 / rt * K nu kap"
  define a2 where "a2 = a1 * kap powr nu"
  define a3 where "a3 = a2 / G (e / 2)"
  define a4 where "a4 = a3 * exp s"
  define t3 where "t3 = (1 + q / e) powr (- nu)"
  have F: "in_dbl (pi * e)" "in_dbl p" "in_dbl dt" "in_dbl (p * dt)" "in_dbl rt"
    "in_dbl p2" "in_dbl (p2 / rt)" "in_dbl nl" "in_dbl (G (e / 2))"
    using f by (simp_all add: skew_front_in_dbl_def Let_def nu_def p_def rt_def p2_def)
  have R: "in_dbl q" "in_dbl (e + q)" "in_dbl ((e + q) * nl)" "in_dbl kap"
    "in_dbl (K nu kap)" "in_dbl a1" "in_dbl (kap powr nu)" "in_dbl a2" "in_dbl a3"
    "in_dbl s" "in_dbl (exp s)" "in_dbl a4" "in_dbl (q / e)" "in_dbl (1 + q / e)"
    "in_dbl t3" "in_dbl (a4 * t3)"
    using r
    by (simp_all add: skew_row_in_dbl_def Let_def nu_def p_def rt_def p2_def kap_def
        a1_def a2_def a3_def a4_def t3_def)
  have base: "0 < p * dt" using e dt by (simp add: p_def)
  have bnz: "p * dt \<noteq> 0" using base by linarith
  have rt: "0 < rt" "rt \<noteq> 0" using bnz by (simp_all only: rt_def powr_gt_zero powr_eq_0_iff not_False_eq_True)
  have arg: "0 < (e + q) * nl" using e q nl by (simp add: add_pos_nonneg)
  have anz: "(e + q) * nl \<noteq> 0" using arg by linarith
  have kap: "0 < kap" using anz by (simp only: kap_def powr_gt_zero not_False_eq_True)
  have one: "0 < 1 + q / e" using e q by (simp add: add_pos_nonneg)
  have e0: "e \<noteq> 0" and e2: "0 < e / 2" using e by simp_all
  have g0: "G (e / 2) \<noteq> 0" using G by simp
  have t_rt: "dpow (dmul (Fin p) (rnd dt)) (1 / 2) = Fin rt"
    unfolding rt_def
    by (simp only: rnd_in_dbl[OF F(3)] dmul_Fin[OF F(4)] dpow_pos[OF base F(5)[unfolded rt_def]])
  have t_front: "ddiv (Fin p2) (Fin rt) = Fin (p2 / rt)"
    by (rule ddiv_Fin[OF rt(2) F(7)])
  have t_kap: "dpow (dmul (dadd (Fin e) (rnd q)) (rnd nl)) (1 / 2) = Fin kap"
    unfolding kap_def
    by (simp only: rnd_in_dbl[OF R(1)] rnd_in_dbl[OF F(8)] dadd_Fin[OF R(2)] dmul_Fin[OF R(3)]
        dpow_pos[OF arg R(4)[unfolded kap_def]])
  have t_kv: "sp_kv_dbl K nu (Fin kap) = Fin (K nu kap)"
    using kap R(5) by (rule sp_kv_dbl_pos)
  have t_a1: "dmul (Fin (p2 / rt)) (Fin (K nu kap)) = Fin a1"
    unfolding a1_def by (rule dmul_Fin[OF R(6)[unfolded a1_def]])
  have t_kp: "dpow (Fin kap) nu = Fin (kap powr nu)"
    by (rule dpow_pos[OF kap R(7)])
  have t_a2: "dmul (Fin a1) (Fin (kap powr nu)) = Fin a2"
    unfolding a2_def by (rule dmul_Fin[OF R(8)[unfolded a2_def]])
  have t_g: "sp_gamma_dbl G (e / 2) = Fin (G (e / 2))"
    using e2 F(9) by (rule sp_gamma_dbl_pos)
  have t_a3: "ddiv (Fin a2) (Fin (G (e / 2))) = Fin a3"
    unfolding a3_def by (rule ddiv_Fin[OF g0 R(9)[unfolded a3_def]])
  have t_ex: "dexp (rnd s) = Fin (exp s)"
    by (simp only: rnd_in_dbl[OF R(10)] dexp_Fin[OF R(11)])
  have t_a4: "dmul (Fin a3) (Fin (exp s)) = Fin a4"
    unfolding a4_def by (rule dmul_Fin[OF R(12)[unfolded a4_def]])
  have t_3: "dpow (dadd (Fin 1) (ddiv (rnd q) (Fin e))) (- nu) = Fin t3"
    unfolding t3_def
    by (simp only: rnd_in_dbl[OF R(1)] ddiv_Fin[OF e0 R(13)] dadd_Fin[OF R(14)]
        dpow_pos[OF one R(15)[unfolded t3_def]])
  have t_fin: "dmul (Fin a4) (Fin t3) = Fin (a4 * t3)"
    by (rule dmul_Fin[OF R(16)])
  have val: "a4 * t3 = skew_density K G k e dt q nl s"
    by (simp only: skew_density_def a4_def a3_def a2_def a1_def t3_def kap_def p2_def rt_def
        p_def nu_def)
  show ?thesis
    unfolding nu_def[symmetric] p_def[symmetric] p2_def[symmetric]
    by (simp only: t_rt t_front t_kap t_kv t_a1 t_kp t_a2 t_g t_a3 t_ex t_a4 t_3 t_fin val)
qed


lemma SkStDM_pdf_dbl_unfold:
  "snd (SkStDM_pdf_dbl K G self (Some d))
     = SkStDM_pdf_body_dbl K G
         (self\<lparr>data := Some (Mat (fst (atleast_2d d)) (snd (atleast_2d d)))\<rparr>) (atleast_2d d)"
  by (simp add: SkStDM_pdf_dbl_def Let_def)

lemma SkStDM_pdf_dbl_values:
  assumes e: "num_val (eta self) \<noteq> 2" "num_val (eta self) \<noteq> 4" "0 < num_val (eta self)"
    and lmu: "length (sk_mu_value self) = length (lam self)"
    and dat: "atleast_2d d = (length (lam self), rows)"
    and rows: "list_all (\<lambda>r. length r = length (lam self)) rows"
    and sq: "is_square (sk_sigma_value self)"
    and lS: "length (sk_sigma_value self) = length (lam self)"
    and dt: "0 < det (sk_sigma_value self)"
    and q: "\<And>r. r \<in> set rows \<Longrightarrow>
              0 \<le> quad_form (sk_sigma_value self) (map2 (-) r (sk_mu_value self))"
    and nl: "0 < quad_form (sk_sigma_value self) (lam self)"
    and G: "0 < G (num_val (eta self) / 2)"
    and fr: "skew_front_in_dbl G (length (lam self)) (num_val (eta self))
               (det (sk_sigma_value self)) (quad_form (sk_sigma_value self) (lam self))"
    and rr: "\<And>r. r \<in> set rows \<Longrightarrow>
               skew_row_in_dbl K G (length (lam self)) (num_val (eta self))
                 (det (sk_sigma_value self))
                 (quad_form (sk_sigma_value self) (map2 (-) r (sk_mu_value self)))
                 (quad_form (sk_sigma_value self) (lam self))
                 (dot (cramer (sk_sigma_value self) (map2 (-) r (sk_mu_value self))) (lam self))"
  shows "snd (SkStDM_pdf_dbl K G self (Some d)) =
           Inr (map (\<lambda>r. Fin (skew_density K G (length (lam self)) (num_val (eta self))
                    (det (sk_sigma_value self))
                    (quad_form (sk_sigma_value self) (map2 (-) r (sk_mu_value self)))
                    (quad_form (sk_sigma_value self) (lam self))
                    (dot (cramer (sk_sigma_value self) (map2 (-) r (sk_mu_value self)))
                         (lam self)))) rows)"
proof -
  define k where "k = length (lam self)"
  define self' where "self' = self\<lparr>data := Some (Mat k rows)\<rparr>"
  define ev where "ev = num_val (eta self)"
  define S where "S = sk_sigma_value self"
  define m where "m = sk_mu_value self"
  have e': "ev \<noteq> 0" "ev \<noteq> 2" "ev \<noteq> 4" "0 < ev" using e by (simp_all add: ev_def)
  have cm: "SkStDM_const_mu self' = Inr (map Fin m)"
    using SkStDM_const_mu_value[of self'] e'(2) by (simp add: self'_def ev_def m_def)
  have cs: "SkStDM_const_sigma self' = Inr (map (map Fin) S)"
    using SkStDM_const_sigma_value[of self'] e'(1-3) by (simp add: self'_def ev_def S_def)
  have s': "num_val (eta self') = ev" "lam self' = lam self"
    "is_scalar (eta self') = is_scalar (eta self)"
    by (simp_all add: self'_def ev_def)
  have ll: "length (lam self') = k" by (simp add: self'_def k_def)
  have nz: "det S \<noteq> 0" using dt by (simp add: S_def)
  have h: "is_square S" "length S = k" "length m = k" "list_all (\<lambda>r. length r = k) rows"
    using sq lS lmu rows by (simp_all only: S_def m_def k_def)
  have fr': "skew_front_in_dbl G k ev (det S) (quad_form S (lam self))"
    using fr by (simp only: k_def ev_def S_def)
  have raw: "SkStDM_pdf_body_dbl K G self' (k, rows) =
     Inr (map (\<lambda>r.
       dmul (dmul (ddiv (dmul (dmul
                 (ddiv (Fin (2 powr (1 - (ev + real k) / 2)))
                       (dpow (dmul (Fin ((pi * ev) ^ k)) (rnd (det S))) (1 / 2)))
                 (sp_kv_dbl K ((ev + real k) / 2)
                    (dpow (dmul (dadd (Fin ev) (rnd (quad_form S (map2 (-) r m))))
                                (rnd (quad_form S (lam self)))) (1 / 2))))
                 (dpow (dpow (dmul (dadd (Fin ev) (rnd (quad_form S (map2 (-) r m))))
                                (rnd (quad_form S (lam self)))) (1 / 2))
                       ((ev + real k) / 2)))
               (sp_gamma_dbl G (ev / 2)))
             (dexp (rnd (dot (cramer S (map2 (-) r m)) (lam self)))))
            (dpow (dadd (Fin 1) (ddiv (rnd (quad_form S (map2 (-) r m))) (Fin ev)))
                  (- ((ev + real k) / 2)))) rows)"
    using SkStDM_pdf_body_dbl_raw[OF cm cs h(1-3) ll h(4) nz, of K G]
    by (simp only: s' skew_pows[OF fr'] bind_err_Inr)
  have row: "dmul (dmul (ddiv (dmul (dmul
                 (ddiv (Fin (2 powr (1 - (ev + real k) / 2)))
                       (dpow (dmul (Fin ((pi * ev) ^ k)) (rnd (det S))) (1 / 2)))
                 (sp_kv_dbl K ((ev + real k) / 2)
                    (dpow (dmul (dadd (Fin ev) (rnd (quad_form S (map2 (-) r m))))
                                (rnd (quad_form S (lam self)))) (1 / 2))))
                 (dpow (dpow (dmul (dadd (Fin ev) (rnd (quad_form S (map2 (-) r m))))
                                (rnd (quad_form S (lam self)))) (1 / 2))
                       ((ev + real k) / 2)))
               (sp_gamma_dbl G (ev / 2)))
             (dexp (rnd (dot (cramer S (map2 (-) r m)) (lam self)))))
            (dpow (dadd (Fin 1) (ddiv (rnd (quad_form S (map2 (-) r m))) (Fin ev)))
                  (- ((ev + real k) / 2)))
         = Fin (skew_density K G k ev (det S) (quad_form S (map2 (-) r m))
                  (quad_form S (lam self)) (dot (cramer S (map2 (-) r m)) (lam self)))"
    if r: "r \<in> set rows" for r
    using e(3) dt q[OF r] nl G fr' rr[OF r]
    by (intro skew_row_dbl) (simp_all only: ev_def S_def m_def k_def)
  have "SkStDM_pdf_body_dbl K G self' (k, rows) = Inr (map (\<lambda>r.
          Fin (skew_density K G k ev (det S) (quad_form S (map2 (-) r m))
                  (quad_form S (lam self)) (dot (cramer S (map2 (-) r m)) (lam self)))) rows)"
    unfolding raw using row by (simp cong: map_cong)
  then show ?thesis
    using dat by (simp add: SkStDM_pdf_dbl_unfold self'_def k_def ev_def S_def m_def)
qed



lemma SkStDM_pdf_dbl_ndim_irrelevant:
  "SkStDM_pdf_dbl K G (self\<lparr>ndim := j\<rparr>) dat
     = (fst (SkStDM_pdf_dbl K G self dat)\<lparr>ndim := j\<rparr>, snd (SkStDM_pdf_dbl K G self dat))"
proof -
  have cm: "SkStDM_const_mu (s\<lparr>ndim := j\<rparr>) = SkStDM_const_mu s" for s
    by (simp add: SkStDM_const_mu_def split: option.splits)
  have cs: "SkStDM_const_sigma (s\<lparr>ndim := j\<rparr>) = SkStDM_const_sigma s" for s
    by (simp add: SkStDM_const_sigma_def split: option.splits)
  have body: "SkStDM_pdf_body_dbl K G (s\<lparr>ndim := j\<rparr>) x = SkStDM_pdf_body_dbl K G s x" for s x
    unfolding SkStDM_pdf_body_dbl_def cm cs by simp
  have upd: "self\<lparr>ndim := j, data := x\<rparr> = self\<lparr>data := x, ndim := j\<rparr>" for x
    by simp
  show ?thesis
    by (cases dat) (simp_all add: SkStDM_pdf_dbl_def Let_def upd body)
qed

lemma fin_mat_length: "fin_mat a = Some a' \<Longrightarrow> length a' = length a"
  by (auto simp: fin_mat_def split: if_splits)

lemma scl_solve_wrong_rows:
  assumes "fst b \<noteq> length a"
  shows "scl_solve a (arr_T b) = Inl LibValueError"
proof -
  have l: "length (snd (arr_T b)) = fst b" by simp
  show ?thesis
    using assms
    by (auto simp: scl_solve_def l split: option.splits dest!: fin_mat_length)
qed

lemma SkStDM_const_mu_length:
  assumes "mu self = None"
    and "is_scalar (eta self) \<Longrightarrow> num_val (eta self) \<noteq> 2"
  shows "\<exists>m. SkStDM_const_mu self = Inr m \<and> length m = length (lam self)"
  using assms by (auto simp: SkStDM_const_mu_def py_div_def Let_def)

lemma SkStDM_const_sigma_length:
  assumes "sigma self = None"
    and "is_scalar (eta self) \<Longrightarrow>
           num_val (eta self) \<noteq> 0 \<and> num_val (eta self) \<noteq> 2 \<and> num_val (eta self) \<noteq> 4"
  shows "\<exists>s. SkStDM_const_sigma self = Inr s \<and> length s = length (lam self)"
  using assms by (auto simp: SkStDM_const_sigma_def py_div_def Let_def)

lemma SkStDM_pdf_dbl_wrong_columns:
  assumes mu: "mu self = None" and sg: "sigma self = None"
    and sc: "is_scalar (eta self) \<Longrightarrow>
           num_val (eta self) \<noteq> 0 \<and> num_val (eta self) \<noteq> 2 \<and> num_val (eta self) \<noteq> 4"
    and dat: "atleast_2d d = (k, rows)"
    and k: "k \<noteq> length (lam self)" "k \<noteq> 1"
  shows "snd (SkStDM_pdf_dbl K G self (Some d)) = Inl LibValueError"
proof -
  define self' where "self' = self\<lparr>data := Some (Mat k rows)\<rparr>"
  have s': "mu self' = None" "sigma self' = None" "lam self' = lam self"
    "eta self' = eta self"
    using mu sg by (simp_all add: self'_def)
  obtain m where m: "SkStDM_const_mu self' = Inr m" "length m = length (lam self)"
    using SkStDM_const_mu_length[of self'] sc s' by auto
  obtain s where s: "SkStDM_const_sigma self' = Inr s" "length s = length (lam self)"
    using SkStDM_const_sigma_length[of self'] sc s' by auto
  have "SkStDM_pdf_body_dbl K G self' (k, rows) = Inl LibValueError"
  proof (cases "length (lam self) = 1")
    case False
    then have "broadcast_sub (k, rows) m = Inl LibValueError"
      using k m(2) by (simp add: broadcast_sub_def)
    then show ?thesis
      by (simp add: SkStDM_pdf_body_dbl_def Let_def m(1) bind_err_def)
  next
    case True
    then obtain diff where diff: "broadcast_sub (k, rows) m = Inr diff" "fst diff = k"
      using k m(2) by (simp add: broadcast_sub_def)
    have "scl_solve s (arr_T diff) = Inl LibValueError"
      using diff(2) k True s(2) by (intro scl_solve_wrong_rows) simp
    then show ?thesis
      by (simp add: SkStDM_pdf_body_dbl_def Let_def m(1) diff(1) s(1) bind_err_def)
  qed
  then show ?thesis
    using dat by (simp add: SkStDM_pdf_dbl_unfold self'_def)
qed

section \<open>Bounds for concrete values\<close>

lemma mag_pos: "mag a x \<Longrightarrow> 0 < x"
proof -
  assume "mag a x"
  then have "1 / 2 ^ a \<le> x" by (simp add: mag_def)
  moreover have "(0::real) < 1 / 2 ^ a" by simp
  ultimately show ?thesis by linarith
qed

lemma mag_ln: "mag a x \<longleftrightarrow> 0 < x \<and> \<bar>ln x\<bar> \<le> real a * ln 2"
proof -
  have p: "(2::real) ^ a = exp (real a * ln 2)"
    by (simp add: exp_of_nat_mult)
  have q: "1 / (2::real) ^ a = exp (- (real a * ln 2))"
    by (simp add: exp_of_nat_mult exp_minus inverse_eq_divide)
  show ?thesis
  proof
    assume w: "mag a x"
    then have x: "0 < x" by (rule mag_pos)
    have "1 / 2 ^ a \<le> x" "x \<le> 2 ^ a" using w by (simp_all add: mag_def)
    then have "exp (- (real a * ln 2)) \<le> x" "x \<le> exp (real a * ln 2)"
      by (simp_all only: p[symmetric] q[symmetric])
    then have "exp (- (real a * ln 2)) \<le> exp (ln x)" "exp (ln x) \<le> exp (real a * ln 2)"
      using x by (simp_all only: exp_ln)
    then have "- (real a * ln 2) \<le> ln x" "ln x \<le> real a * ln 2"
      by (simp_all only: exp_le_cancel_iff)
    then have "\<bar>ln x\<bar> \<le> real a * ln 2" by linarith
    then show "0 < x \<and> \<bar>ln x\<bar> \<le> real a * ln 2"
      using x by blast
  next
    assume h: "0 < x \<and> \<bar>ln x\<bar> \<le> real a * ln 2"
    then have "- (real a * ln 2) \<le> ln x" "ln x \<le> real a * ln 2" by linarith+
    then have "exp (- (real a * ln 2)) \<le> exp (ln x)" "exp (ln x) \<le> exp (real a * ln 2)"
      by (simp_all only: exp_le_cancel_iff)
    then have "exp (- (real a * ln 2)) \<le> x" "x \<le> exp (real a * ln 2)"
      using h by (simp_all only: exp_ln)
    then have "1 / 2 ^ a \<le> x" "x \<le> 2 ^ a"
      by (simp_all only: p[symmetric] q[symmetric])
    then show "mag a x"
      by (simp only: mag_def)
  qed
qed

lemma ln2_pos: "0 < ln (2::real)" by simp

lemma mag_mono: "mag a x \<Longrightarrow> a \<le> b \<Longrightarrow> mag b x"
proof -
  assume w: "mag a x" and ab: "a \<le> b"
  have "real a * ln 2 \<le> real b * ln 2"
    using ab ln2_pos by (intro mult_right_mono) simp_all
  then show ?thesis using w unfolding mag_ln by linarith
qed

lemma mag_mult: "mag a x \<Longrightarrow> mag b y \<Longrightarrow> mag (a + b) (x * y)"
  unfolding mag_ln
  by (auto simp: ln_mult algebra_simps)

lemma mag_divide: "mag a x \<Longrightarrow> mag b y \<Longrightarrow> mag (a + b) (x / y)"
  unfolding mag_ln
  by (auto simp: ln_div algebra_simps)

lemma mag_power: "mag a x \<Longrightarrow> mag (a * n) (x ^ n)"
proof -
  assume w: "mag a x"
  then have x: "0 < x" and l: "\<bar>ln x\<bar> \<le> real a * ln 2" by (simp_all add: mag_ln)
  have "\<bar>ln (x ^ n)\<bar> = real n * \<bar>ln x\<bar>"
    using x by (simp add: ln_realpow abs_mult)
  also have "\<dots> \<le> real n * (real a * ln 2)"
    using l by (intro mult_left_mono) simp_all
  finally show ?thesis using x by (simp add: mag_ln mult_ac)
qed

lemma mag_powr:
  assumes w: "mag a x" and y: "\<bar>y\<bar> \<le> real m"
  shows "mag (a * m) (x powr y)"
proof -
  from w have x: "0 < x" and l: "\<bar>ln x\<bar> \<le> real a * ln 2" by (simp_all add: mag_ln)
  have "\<bar>ln (x powr y)\<bar> = \<bar>y\<bar> * \<bar>ln x\<bar>"
    using x by (simp add: ln_powr abs_mult)
  also have "\<dots> \<le> real m * (real a * ln 2)"
    using l y by (intro mult_mono) simp_all
  finally show ?thesis using x by (simp add: mag_ln mult_ac)
qed

lemma ln2_ge_half: "1 / 2 \<le> ln (2::real)"
proof -
  have "exp (1 / 2) * exp (1 / 2) = exp (1::real)"
    by (simp add: exp_add[symmetric])
  moreover have "exp (1::real) \<le> 3" by (rule exp_le)
  moreover have "0 < exp (1 / 2 :: real)" by simp
  ultimately have sq: "exp (1 / 2 :: real) * exp (1 / 2) \<le> 3" by simp
  have "exp (1 / 2 :: real) \<le> 2"
  proof (rule ccontr)
    assume "\<not> exp (1 / 2 :: real) \<le> 2"
    then have "2 < exp (1 / 2 :: real)" by simp
    then have "2 * 2 < exp (1 / 2 :: real) * exp (1 / 2)"
      by (intro mult_strict_mono) simp_all
    then show False using sq by simp
  qed
  then have "exp (1 / 2 :: real) \<le> exp (ln 2)" by simp
  then show ?thesis by (simp only: exp_le_cancel_iff)
qed

lemma mag_exp:
  assumes "\<bar>s\<bar> \<le> real m"
  shows "mag (2 * m) (exp s)"
proof -
  have "1 \<le> 2 * ln (2::real)" using ln2_ge_half by linarith
  then have "real m * 1 \<le> real m * (2 * ln 2)"
    by (intro mult_left_mono) simp_all
  then have "real m \<le> real m * (2 * ln 2)" by simp
  then show ?thesis
    using assms by (simp add: mag_ln)
qed

lemma mag_in_dbl:
  assumes w: "mag a x" and a: "a \<le> 1000"
  shows "in_dbl x"
proof -
  have w': "mag 1000 x" using w a by (rule mag_mono)
  then have x: "0 < x" by (rule mag_pos)
  have lo: "1 / 2 ^ 1000 \<le> x" and hi: "x \<le> 2 ^ 1000"
    using w' by (simp_all add: mag_def)
  have "(2::real) ^ 1000 + 2 ^ 970 < 2 ^ 1024"
  proof -
    have "(2::real) ^ 970 \<le> 2 ^ 1000" by (intro power_increasing) simp_all
    then have "(2::real) ^ 1000 + 2 ^ 970 \<le> 2 * 2 ^ 1000" by linarith
    also have "\<dots> = 2 ^ 1001" by simp
    also have "\<dots> < (2::real) ^ 1024" by (intro power_strict_increasing) simp_all
    finally show ?thesis .
  qed
  then have up: "x < dbl_over" using hi unfolding dbl_over_def by linarith
  have "(1::real) / 2 ^ 1075 < 1 / 2 ^ 1000"
    by (intro divide_strict_left_mono power_strict_increasing) simp_all
  then have dn: "dbl_tiny < x" using lo unfolding dbl_tiny_def by linarith
  show ?thesis using x up dn by (simp add: in_dbl_def)
qed

lemma in_dbl_0: "in_dbl 0"
proof -
  have "(2::real) ^ 970 < 2 ^ 1024" by (intro power_strict_increasing) simp_all
  then show ?thesis by (simp add: in_dbl_def dbl_over_def)
qed

lemma mag_pi10: "mag 6 (pi * 10)"
  using pi_ge_two pi_less_4 by (simp add: mag_def)

lemma ln_bounds: "3 \<le> (x::real) \<Longrightarrow> 1 \<le> ln x \<and> ln x \<le> x"
proof -
  assume x: "3 \<le> (x::real)"
  have "exp 1 \<le> x" using exp_le x by linarith
  then have "exp 1 \<le> exp (ln x)" using x by simp
  then have a: "1 \<le> ln x" by (simp only: exp_le_cancel_iff)
  have "ln x \<le> x - 1" using x by (intro ln_le_minus_one) simp
  then show ?thesis using a by simp
qed


lemma skew_example_in_dbl:
  "skew_front_in_dbl (\<lambda>x. fact (nat \<lfloor>x\<rfloor> - 1)) 1 10 (167 / 240) (60 / 167)
   \<and> skew_row_in_dbl (\<lambda>v x. 1) (\<lambda>x. fact (nat \<lfloor>x\<rfloor> - 1)) 1 10 (167 / 240) 0 (60 / 167) 0"
proof -
  define nu :: real where "nu = (10 + real 1) / 2"
  define front where "front = 2 powr (1 - nu) / ((pi * 10) ^ 1 * (167 / 240)) powr (1 / 2)"
  define kap :: real where "kap = ((10 + 0) * (60 / 167)) powr (1 / 2)"
  have nu: "\<bar>nu\<bar> \<le> real 6" "\<bar>1 - nu\<bar> \<le> real 5" "\<bar>- nu\<bar> \<le> real 6"
    by (simp_all add: nu_def)
  have G5: "fact (nat \<lfloor>10 / 2 :: real\<rfloor> - 1) = (24::real)"
    by (simp add: fact_numeral)
  have m1: "mag 6 (pi * 10)" by (rule mag_pi10)
  have m2: "mag 6 ((pi * 10) ^ 1)" using mag_power[OF m1, of 1] by simp
  have m3: "mag 1 (167 / 240 :: real)" by (simp add: mag_def)
  have m4: "mag 7 ((pi * 10) ^ 1 * (167 / 240))" using mag_mult[OF m2 m3] by simp
  have m5: "mag 7 (((pi * 10) ^ 1 * (167 / 240)) powr (1 / 2))"
    using mag_powr[OF m4, of "1 / 2" 1] by simp
  have m6: "mag 1 (2::real)" by (simp add: mag_def)
  have m7: "mag 5 (2 powr (1 - nu))" using mag_powr[OF m6 nu(2)] by simp
  have m8: "mag 12 front" unfolding front_def using mag_divide[OF m7 m5] by simp
  have m9: "mag 2 (60 / 167 :: real)" by (simp add: mag_def)
  have m10: "mag 5 (24 :: real)" by (simp add: mag_def)
  have k1: "mag 4 (10 + 0 :: real)" by (simp add: mag_def)
  have k2: "mag 2 ((10 + 0) * (60 / 167) :: real)" by (simp add: mag_def)
  have k3: "mag 2 kap" unfolding kap_def using mag_powr[OF k2, of "1 / 2" 1] by simp
  have one: "mag 0 (1::real)" by (simp add: mag_def)
  have a1: "mag 12 (front * 1)" using mag_mult[OF m8 one] by simp
  have kp: "mag 12 (kap powr nu)" using mag_powr[OF k3 nu(1)] by simp
  have a2: "mag 24 (front * 1 * kap powr nu)" using mag_mult[OF a1 kp] by simp
  have a3: "mag 29 (front * 1 * kap powr nu / 24)" using mag_divide[OF a2 m10] by simp
  have ex: "mag 0 (exp (0::real))" by (simp add: mag_def)
  have a4: "mag 29 (front * 1 * kap powr nu / 24 * exp 0)" using mag_mult[OF a3 ex] by simp
  have o1: "mag 0 (1 + 0 / 10 :: real)" by (simp add: mag_def)
  have t3: "mag 0 ((1 + 0 / 10 :: real) powr (- nu))" using mag_powr[OF o1 nu(3)] by simp
  have a5: "mag 29 (front * 1 * kap powr nu / 24 * exp 0 * (1 + 0 / 10) powr (- nu))"
    using mag_mult[OF a4 t3] by simp
  have z: "in_dbl (0 / 10)" using in_dbl_0 by simp
  note d = mag_in_dbl[OF m1] mag_in_dbl[OF m2] mag_in_dbl[OF m3] mag_in_dbl[OF m4]
    mag_in_dbl[OF m5] mag_in_dbl[OF m7] mag_in_dbl[OF m8] mag_in_dbl[OF m9] mag_in_dbl[OF m10]
    mag_in_dbl[OF k1] mag_in_dbl[OF k2] mag_in_dbl[OF k3] mag_in_dbl[OF one] mag_in_dbl[OF a1]
    mag_in_dbl[OF kp] mag_in_dbl[OF a2] mag_in_dbl[OF a3] mag_in_dbl[OF ex] mag_in_dbl[OF a4]
    mag_in_dbl[OF o1] mag_in_dbl[OF t3] mag_in_dbl[OF a5]
  have F: "skew_front_in_dbl (\<lambda>x. fact (nat \<lfloor>x\<rfloor> - 1)) 1 10 (167 / 240) (60 / 167)"
    unfolding skew_front_in_dbl_def Let_def G5 nu_def[symmetric] front_def[symmetric]
    using d by simp
  have R: "skew_row_in_dbl (\<lambda>v x. 1) (\<lambda>x. fact (nat \<lfloor>x\<rfloor> - 1)) 1 10 (167 / 240) 0
             (60 / 167) 0"
    unfolding skew_row_in_dbl_def Let_def G5 nu_def[symmetric] front_def[symmetric]
      kap_def[symmetric]
    using d in_dbl_0 z by simp
  show ?thesis using F R by blast
qed

lemma mvst_example_in_dbl:
  "mvst_front_in_dbl (\<lambda>x. ln (fact (nat \<lfloor>x\<rfloor> - 1))) 2 2 10 (16 / 25)
   \<and> mvst_row_in_dbl (\<lambda>x. ln (fact (nat \<lfloor>x\<rfloor> - 1))) 2 2 10 (16 / 25) 0
   \<and> mvst_front_in_dbl (\<lambda>x. ln (fact (nat \<lfloor>x\<rfloor> - 1))) 1 2 10 (16 / 25)
   \<and> mvst_row_in_dbl (\<lambda>x. ln (fact (nat \<lfloor>x\<rfloor> - 1))) 1 2 10 (16 / 25) 0"
proof -
  have L6: "ln (fact (nat \<lfloor>(10 + real 2) / 2\<rfloor> - 1)) = (ln 120 :: real)"
    and L5: "ln (fact (nat \<lfloor>10 / 2 :: real\<rfloor> - 1)) = (ln 24 :: real)"
    by (simp_all add: fact_numeral)
  have m1: "mag 6 (pi * 10)" by (rule mag_pi10)
  have m3: "mag 1 (16 / 25 :: real)" by (simp add: mag_def)
  have g1: "mag 7 (ln 120)" using ln_bounds[of 120] by (simp add: mag_def)
  have g2: "mag 5 (ln 24)" using ln_bounds[of 24] by (simp add: mag_def)
  have gd: "ln 120 - ln 24 = ln (5::real)"
    using ln_div[of 120 "24::real"] by simp
  have g3: "mag 3 (ln 5)" using ln_bounds[of 5] by (simp add: mag_def)
  have ex: "exp (ln 5) = (5::real)" by simp
  have g4: "mag 3 (5::real)" by (simp add: mag_def)
  have o1: "mag 0 (1 + 0 / 10 :: real)" by (simp add: mag_def)
  have z: "in_dbl (0 / 10)" using in_dbl_0 by simp
  have both: "mvst_front_in_dbl (\<lambda>x. ln (fact (nat \<lfloor>x\<rfloor> - 1))) n 2 10 (16 / 25)
     \<and> mvst_row_in_dbl (\<lambda>x. ln (fact (nat \<lfloor>x\<rfloor> - 1))) n 2 10 (16 / 25) 0"
    if n: "n \<le> 2" for n
  proof -
    have m2: "mag 12 ((pi * 10) ^ n)"
      using mag_mono[OF mag_power[OF m1, of n], of 12] n by simp
    have m4: "mag 13 ((pi * 10) ^ n * (16 / 25))" using mag_mult[OF m2 m3] by simp
    have m5: "mag 13 (((pi * 10) ^ n * (16 / 25)) powr (- (1 / 2)))"
      using mag_powr[OF m4, of "- (1 / 2)" 1] by simp
    have m6: "mag 16 (((pi * 10) ^ n * (16 / 25)) powr (- (1 / 2)) * 5)"
      using mag_mult[OF m5 g4] by simp
    have "\<bar>- ((10 + real n) / 2)\<bar> \<le> real 6" using n by simp
    then have t3: "mag 0 ((1 + 0 / 10 :: real) powr (- ((10 + real n) / 2)))"
      using mag_powr[OF o1, of "- ((10 + real n) / 2)" 6] by simp
    have m7: "mag 16 (((pi * 10) ^ n * (16 / 25)) powr (- (1 / 2)) * 5
                      * (1 + 0 / 10) powr (- ((10 + real n) / 2)))"
      using mag_mult[OF m6 t3] by simp
    note d = mag_in_dbl[OF m1] mag_in_dbl[OF m2] mag_in_dbl[OF m3] mag_in_dbl[OF m4]
      mag_in_dbl[OF m5] mag_in_dbl[OF g1] mag_in_dbl[OF g2] mag_in_dbl[OF g3]
      mag_in_dbl[OF g4] mag_in_dbl[OF m6] mag_in_dbl[OF o1] mag_in_dbl[OF t3]
      mag_in_dbl[OF m7]
    have F: "mvst_front_in_dbl (\<lambda>x. ln (fact (nat \<lfloor>x\<rfloor> - 1))) n 2 10 (16 / 25)"
      unfolding mvst_front_in_dbl_def Let_def L6 L5 gd ex
      using d by simp
    have R: "mvst_row_in_dbl (\<lambda>x. ln (fact (nat \<lfloor>x\<rfloor> - 1))) n 2 10 (16 / 25) 0"
      unfolding mvst_row_in_dbl_def Let_def L6 L5 gd ex
      using d in_dbl_0 z by simp
    show ?thesis using F R by blast
  qed
  show ?thesis using both[of 2] both[of 1] by simp
qed



section \<open>The symmetric density in the range of doubles\<close>

lemma sigma_value_pos_def:
  assumes dom: "2 < num_val (eta self)"
    and lmu: "length (mu_value self) = ndim self"
    and rows: "list_all (\<lambda>r. length r = ndim self) rows"
    and spd: "sigma self \<noteq> None \<Longrightarrow>
                is_square (sigma_value self) \<and> length (sigma_value self) = ndim self
                \<and> 0 < det (sigma_value self)
                \<and> (\<forall>r \<in> set rows.
                      0 \<le> quad_form (sigma_value self) (map2 (-) r (mu_value self)))"
  shows "is_square (sigma_value self) \<and> length (sigma_value self) = ndim self
         \<and> 0 < det (sigma_value self)
         \<and> (\<forall>r \<in> set rows. 0 \<le> quad_form (sigma_value self) (map2 (-) r (mu_value self)))"
proof (cases "sigma self")
  case None
  define e where "e = num_val (eta self)"
  have c: "0 < 1 - 2 / e" using dom by (simp add: e_def)
  have Sv: "sigma_value self = scaled_id (ndim self) (1 - 2 / e)"
    using None by (simp add: sigma_value_def e_def)
  have "0 \<le> quad_form (sigma_value self) (map2 (-) r (mu_value self))" if "r \<in> set rows" for r
  proof -
    have "length (map2 (-) r (mu_value self)) = ndim self"
      using that rows lmu by (simp add: list_all_iff)
    then show ?thesis unfolding Sv using c by (intro quad_form_scaled_id)
  qed
  then show ?thesis
    using c by (simp add: Sv is_square_scaled_id det_scaled_id)
next
  case (Some s)
  then show ?thesis using spd by simp
qed


lemma dbl_over_pos: "0 < dbl_over"
proof -
  have "(2::real) ^ 970 < 2 ^ 1024" by (intro power_strict_increasing) simp_all
  then show ?thesis by (simp add: dbl_over_def)
qed

lemma rnd_0: "rnd 0 = Fin 0"
  using dbl_over_pos by (simp add: rnd_def)


lemma dmul_NaN_left: "dmul NaN x = NaN"
  by (simp add: dmul_def)









section \<open>Number and sign of the values\<close>



lemma ddiv_NaN_left: "ddiv NaN x = NaN"
  by (simp add: ddiv_def)






section \<open>The dimension the densities work with\<close>

text \<open>
  Claim C10.  \<open>SkStDM.from_theta\<close> takes a flat vector of any length from 1 on and does
  not compare it with \<open>ndim\<close>: it stores \<open>eta\<close> as the one-element array of \<open>theta[0]\<close>,
  not as a scalar, and \<open>lam\<close> as \<open>theta[1:]\<close>, of length \<open>len(theta) - 1\<close>, and leaves \<open>ndim\<close>
  as it was.  The skewed \<open>pdf\<close> then works at the dimension \<open>lam.size\<close>: it does not read
  the stored \<open>ndim\<close> (changing the field changes nothing in its result); with a derived
  location and scale it rejects data whose number \<open>k\<close> of columns is neither \<open>lam.size\<close>
  nor 1 with a \<open>ValueError\<close> from NumPy or SciPy, in particular data of \<open>ndim\<close> columns
  when \<open>lam.size\<close> differs from \<open>ndim\<close>; and on data of \<open>lam.size\<close> columns it returns the
  skewed density of dimension \<open>lam.size\<close>, whatever \<open>ndim\<close> is (for a positive definite
  scale matrix and as long as no step leaves the range of doubles).  The symmetric \<open>pdf\<close>
  uses \<open>self.ndim\<close> in the gamma ratio, in \<open>const_mu()\<close> and in \<open>const_sigma()\<close>, and
  \<open>lam.size\<close> in the power of \<open>\<pi> eta\<close> beside the determinant and in the exponent of the
  last factor, so that it is the documented density when the two agree.  The witness
  builds an object of \<open>ndim = 2\<close>, gives it \<open>theta = [10, 0.5]\<close>, so that \<open>lam\<close> has size 1,
  evaluates the skewed \<open>pdf\<close> on one column and has it reject two columns; the symmetric
  \<open>pdf\<close> of an object with \<open>ndim = 2\<close> and \<open>lam\<close> of size 1 returns more than the
  documented value.
\<close>

theorem from_theta_unchecked_dimension:
  "SkStDM_from_theta self (t0 # rest) = Inr (self\<lparr>eta := NdArray1 t0, lam := rest\<rparr>)
   \<and> ndim (self\<lparr>eta := NdArray1 t0, lam := rest\<rparr>) = ndim self
   \<and> \<not> is_scalar (eta (self\<lparr>eta := NdArray1 t0, lam := rest\<rparr>))
   \<and> length (lam (self\<lparr>eta := NdArray1 t0, lam := rest\<rparr>)) = length (t0 # rest) - 1
   \<and> SkStDM_pdf_dbl K G (self\<lparr>ndim := j\<rparr>) dat
       = (fst (SkStDM_pdf_dbl K G self dat)\<lparr>ndim := j\<rparr>, snd (SkStDM_pdf_dbl K G self dat))
   \<and> (mu self = None \<and> sigma self = None
        \<and> (is_scalar (eta self) \<longrightarrow>
              num_val (eta self) \<noteq> 0 \<and> num_val (eta self) \<noteq> 2 \<and> num_val (eta self) \<noteq> 4)
        \<and> atleast_2d d = (k, rows) \<and> k \<noteq> length (lam self) \<and> k \<noteq> 1
       \<longrightarrow> snd (SkStDM_pdf_dbl K G self (Some d)) = Inl LibValueError)
   \<and> (4 < num_val (eta self) \<and> atleast_2d d = (length (lam self), rows)
        \<and> list_all (\<lambda>r. length r = length (lam self)) rows
        \<and> length (sk_mu_value self) = length (lam self)
        \<and> is_square (sk_sigma_value self) \<and> length (sk_sigma_value self) = length (lam self)
        \<and> 0 < det (sk_sigma_value self)
        \<and> (\<forall>r \<in> set rows.
              0 \<le> quad_form (sk_sigma_value self) (map2 (-) r (sk_mu_value self)))
        \<and> 0 < quad_form (sk_sigma_value self) (lam self)
        \<and> 0 < G (num_val (eta self) / 2)
        \<and> skew_front_in_dbl G (length (lam self)) (num_val (eta self))
              (det (sk_sigma_value self)) (quad_form (sk_sigma_value self) (lam self))
        \<and> (\<forall>r \<in> set rows.
              skew_row_in_dbl K G (length (lam self)) (num_val (eta self))
                (det (sk_sigma_value self))
                (quad_form (sk_sigma_value self) (map2 (-) r (sk_mu_value self)))
                (quad_form (sk_sigma_value self) (lam self))
                (dot (cramer (sk_sigma_value self) (map2 (-) r (sk_mu_value self))) (lam self)))
       \<longrightarrow> snd (SkStDM_pdf_dbl K G self (Some d)) =
             Inr (map (\<lambda>r. Fin (skew_density K G (length (lam self)) (num_val (eta self))
                    (det (sk_sigma_value self))
                    (quad_form (sk_sigma_value self) (map2 (-) r (sk_mu_value self)))
                    (quad_form (sk_sigma_value self) (lam self))
                    (dot (cramer (sk_sigma_value self) (map2 (-) r (sk_mu_value self)))
                         (lam self)))) rows))
   \<and> (0 < num_val (eta self) \<and> atleast_2d d = (ndim self, rows)
        \<and> list_all (\<lambda>r. length r = ndim self) rows
        \<and> length (mu_value self) = ndim self
        \<and> is_square (sigma_value self) \<and> length (sigma_value self) = ndim self
        \<and> 0 < det (sigma_value self)
        \<and> (\<forall>r \<in> set rows. 0 \<le> quad_form (sigma_value self) (map2 (-) r (mu_value self)))
        \<and> mvst_front_in_dbl lgam (length (lam self)) (ndim self) (num_val (eta self))
              (det (sigma_value self))
        \<and> (\<forall>r \<in> set rows.
              mvst_row_in_dbl lgam (length (lam self)) (ndim self) (num_val (eta self))
                (det (sigma_value self))
                (quad_form (sigma_value self) (map2 (-) r (mu_value self))))
       \<longrightarrow> snd (MvSt_pdf_dbl lgam self (Some d)) =
             Inr (map (\<lambda>r. Fin (
               ((pi * num_val (eta self)) ^ length (lam self) * det (sigma_value self))
                  powr (- (1 / 2))
               * exp (lgam ((num_val (eta self) + real (ndim self)) / 2)
                      - lgam (num_val (eta self) / 2))
               * (1 + quad_form (sigma_value self) (map2 (-) r (mu_value self))
                        / num_val (eta self))
                   powr (- ((num_val (eta self) + real (length (lam self))) / 2)))) rows))"
proof (intro conjI impI)
  show "SkStDM_from_theta self (t0 # rest) = Inr (self\<lparr>eta := NdArray1 t0, lam := rest\<rparr>)"
    by (simp add: SkStDM_from_theta_def)
next
  show "ndim (self\<lparr>eta := NdArray1 t0, lam := rest\<rparr>) = ndim self" by simp
next
  show "\<not> is_scalar (eta (self\<lparr>eta := NdArray1 t0, lam := rest\<rparr>))" by simp
next
  show "length (lam (self\<lparr>eta := NdArray1 t0, lam := rest\<rparr>)) = length (t0 # rest) - 1"
    by simp
next
  show "SkStDM_pdf_dbl K G (self\<lparr>ndim := j\<rparr>) dat
       = (fst (SkStDM_pdf_dbl K G self dat)\<lparr>ndim := j\<rparr>, snd (SkStDM_pdf_dbl K G self dat))"
    by (rule SkStDM_pdf_dbl_ndim_irrelevant)
next
  assume h: "mu self = None \<and> sigma self = None
        \<and> (is_scalar (eta self) \<longrightarrow>
              num_val (eta self) \<noteq> 0 \<and> num_val (eta self) \<noteq> 2 \<and> num_val (eta self) \<noteq> 4)
        \<and> atleast_2d d = (k, rows) \<and> k \<noteq> length (lam self) \<and> k \<noteq> 1"
  then show "snd (SkStDM_pdf_dbl K G self (Some d)) = Inl LibValueError"
    by (intro SkStDM_pdf_dbl_wrong_columns[of self d k rows]) blast+
next
  assume h: "4 < num_val (eta self) \<and> atleast_2d d = (length (lam self), rows)
        \<and> list_all (\<lambda>r. length r = length (lam self)) rows
        \<and> length (sk_mu_value self) = length (lam self)
        \<and> is_square (sk_sigma_value self) \<and> length (sk_sigma_value self) = length (lam self)
        \<and> 0 < det (sk_sigma_value self)
        \<and> (\<forall>r \<in> set rows.
              0 \<le> quad_form (sk_sigma_value self) (map2 (-) r (sk_mu_value self)))
        \<and> 0 < quad_form (sk_sigma_value self) (lam self)
        \<and> 0 < G (num_val (eta self) / 2)
        \<and> skew_front_in_dbl G (length (lam self)) (num_val (eta self))
              (det (sk_sigma_value self)) (quad_form (sk_sigma_value self) (lam self))
        \<and> (\<forall>r \<in> set rows.
              skew_row_in_dbl K G (length (lam self)) (num_val (eta self))
                (det (sk_sigma_value self))
                (quad_form (sk_sigma_value self) (map2 (-) r (sk_mu_value self)))
                (quad_form (sk_sigma_value self) (lam self))
                (dot (cramer (sk_sigma_value self) (map2 (-) r (sk_mu_value self))) (lam self)))"
  then have e: "num_val (eta self) \<noteq> 2" "num_val (eta self) \<noteq> 4" "0 < num_val (eta self)"
    by auto
  show "snd (SkStDM_pdf_dbl K G self (Some d)) =
             Inr (map (\<lambda>r. Fin (skew_density K G (length (lam self)) (num_val (eta self))
                    (det (sk_sigma_value self))
                    (quad_form (sk_sigma_value self) (map2 (-) r (sk_mu_value self)))
                    (quad_form (sk_sigma_value self) (lam self))
                    (dot (cramer (sk_sigma_value self) (map2 (-) r (sk_mu_value self)))
                         (lam self)))) rows)"
    using h by (intro SkStDM_pdf_dbl_values[OF e]) blast+
next
  assume h: "0 < num_val (eta self) \<and> atleast_2d d = (ndim self, rows)
        \<and> list_all (\<lambda>r. length r = ndim self) rows
        \<and> length (mu_value self) = ndim self
        \<and> is_square (sigma_value self) \<and> length (sigma_value self) = ndim self
        \<and> 0 < det (sigma_value self)
        \<and> (\<forall>r \<in> set rows. 0 \<le> quad_form (sigma_value self) (map2 (-) r (mu_value self)))
        \<and> mvst_front_in_dbl lgam (length (lam self)) (ndim self) (num_val (eta self))
              (det (sigma_value self))
        \<and> (\<forall>r \<in> set rows.
              mvst_row_in_dbl lgam (length (lam self)) (ndim self) (num_val (eta self))
                (det (sigma_value self))
                (quad_form (sigma_value self) (map2 (-) r (mu_value self))))"
  then show "snd (MvSt_pdf_dbl lgam self (Some d)) =
             Inr (map (\<lambda>r. Fin (
               ((pi * num_val (eta self)) ^ length (lam self) * det (sigma_value self))
                  powr (- (1 / 2))
               * exp (lgam ((num_val (eta self) + real (ndim self)) / 2)
                      - lgam (num_val (eta self) / 2))
               * (1 + quad_form (sigma_value self) (map2 (-) r (mu_value self))
                        / num_val (eta self))
                   powr (- ((num_val (eta self) + real (length (lam self))) / 2)))) rows)"
    by (intro MvSt_pdf_dbl_values) blast+
qed

theorem from_theta_unchecked_dimension_witness:
  "SkStDM_from_theta (SkStDM_init 2 (PyScalar 10) [1/2, 3/2] None None None) [7, 1, 2, 3]
     = Inr (SkStDM_init 2 (NdArray1 7) [1, 2, 3] None None None)
   \<and> SkStDM_from_theta (SkStDM_init 2 (PyScalar 10) [1/2, 3/2] None None None) [10, 1/2]
     = Inr (SkStDM_init 2 (NdArray1 10) [1/2] None None None)
   \<and> snd (SkStDM_pdf_dbl (\<lambda>v x. 1) (\<lambda>x. fact (nat \<lfloor>x\<rfloor> - 1))
            (SkStDM_init 2 (NdArray1 10) [1/2] None None None) (Some (Vec [- (5/8)])))
     = Inr [Fin (skew_density (\<lambda>v x. 1) (\<lambda>x. fact (nat \<lfloor>x\<rfloor> - 1)) 1 10 (167/240) 0
                   (60/167) 0)]
   \<and> snd (SkStDM_pdf_dbl (\<lambda>v x. 1) (\<lambda>x. fact (nat \<lfloor>x\<rfloor> - 1))
            (SkStDM_init 2 (NdArray1 10) [1/2] None None None) (Some (Vec [0, 0])))
     = Inl LibValueError
   \<and> snd (MvSt_pdf_dbl (\<lambda>x. ln (fact (nat \<lfloor>x\<rfloor> - 1)))
            ((MvSt_init 2 (PyScalar 10) None None None)\<lparr>lam := [0]\<rparr>) (Some (Vec [0, 0])))
     = Inr [Fin (((pi * 10) ^ 1 * (16 / 25)) powr (- (1 / 2)) * 5)]
   \<and> student_density (\<lambda>x. ln (fact (nat \<lfloor>x\<rfloor> - 1))) 2 10 (16 / 25) 0
       < ((pi * 10) ^ 1 * (16 / 25)) powr (- (1 / 2)) * 5"
proof -
  define L :: "real \<Rightarrow> real" where "L = (\<lambda>x. ln (fact (nat \<lfloor>x\<rfloor> - 1)))"
  define G :: "real \<Rightarrow> real" where "G = (\<lambda>x. fact (nat \<lfloor>x\<rfloor> - 1))"
  define K :: "real \<Rightarrow> real \<Rightarrow> real" where "K = (\<lambda>v x. 1)"
  let ?s = "SkStDM_init 2 (PyScalar 10) [1/2, 3/2] None None None"
  let ?t = "SkStDM_init 2 (NdArray1 10) [1/2] None None None"
  let ?m = "(MvSt_init 2 (PyScalar 10) None None None)\<lparr>lam := [0]\<rparr>"
  have t: "sk_sigma_value ?t = [[167/240]]" "sk_mu_value ?t = [- (5/8)]"
    "ndim ?t = 2" "num_val (eta ?t) = 10" "lam ?t = [1/2]" "mu ?t = None" "sigma ?t = None"
    "is_scalar (eta ?t) = False"
    by (simp_all add: SkStDM_init_def MultiDensity_init_def MultiDensity.defs SkStDM.defs
        sk_sigma_value_def sk_mu_value_def)
  have m: "sigma_value ?m = [[4/5, 0], [0, 4/5]]" "mu_value ?m = [0, 0]"
    "ndim ?m = 2" "num_val (eta ?m) = 10" "lam ?m = [0]"
    by (simp_all add: MvSt_init_def MultiDensity_init_def MultiDensity.defs SkStDM.defs
        sigma_value_def mu_value_def scaled_id_def upt2 numeral_2_eq_2)
  have qa: "quad_form [[4/5, 0], [0, 4/5]] [0, 0] = 0"
    by (simp add: quad_form_def dot_def cramer_def upt2)
  have da: "det [[4/5, 0], [0, 4/5]] = 16/25" by (simp add: det_2x2)
  have db: "det [[167/240]] = 167/240" by (simp add: det_Cons)
  have qb: "quad_form [[167/240]] [0] = 0" "quad_form [[167/240]] [1/2] = 60/167"
    "dot (cramer [[167/240]] [0]) [1/2] = 0"
    by (simp_all add: quad_form_def dot_def cramer_def replace_col_def det_Cons)
  have ft1: "SkStDM_from_theta ?s [7, 1, 2, 3]
               = Inr (SkStDM_init 2 (NdArray1 7) [1, 2, 3] None None None)"
    using from_theta_unchecked_dimension[of ?s 7 "[1, 2, 3]"]
    by (simp add: SkStDM_init_def MultiDensity_init_def MultiDensity.defs SkStDM.defs)
  have ft2: "SkStDM_from_theta ?s [10, 1/2] = Inr ?t"
    using from_theta_unchecked_dimension[of ?s 10 "[1/2]"]
    by (simp add: SkStDM_init_def MultiDensity_init_def MultiDensity.defs SkStDM.defs)
  have rej: "mu ?t = None \<and> sigma ?t = None
        \<and> (is_scalar (eta ?t) \<longrightarrow>
              num_val (eta ?t) \<noteq> 0 \<and> num_val (eta ?t) \<noteq> 2 \<and> num_val (eta ?t) \<noteq> 4)
        \<and> atleast_2d (Vec [0, 0]) = (2, [[0, 0]]) \<and> 2 \<noteq> length (lam ?t) \<and> (2::nat) \<noteq> 1"
    unfolding t by simp
  have v1: "snd (SkStDM_pdf_dbl K G ?t (Some (Vec [0, 0]))) = Inl LibValueError"
    using from_theta_unchecked_dimension[where self="?t" and d="Vec [0, 0]" and k=2
        and rows="[[0, 0]]" and K=K and G=G] rej
    by blast
  have wk: "4 < num_val (eta ?t) \<and> atleast_2d (Vec [- (5/8)]) = (length (lam ?t), [[- (5/8)]])
        \<and> list_all (\<lambda>r. length r = length (lam ?t)) [[- (5/8)]]
        \<and> length (sk_mu_value ?t) = length (lam ?t)
        \<and> is_square (sk_sigma_value ?t) \<and> length (sk_sigma_value ?t) = length (lam ?t)
        \<and> 0 < det (sk_sigma_value ?t)
        \<and> (\<forall>r \<in> set [[- (5/8)]].
              0 \<le> quad_form (sk_sigma_value ?t) (map2 (-) r (sk_mu_value ?t)))
        \<and> 0 < quad_form (sk_sigma_value ?t) (lam ?t)
        \<and> 0 < G (num_val (eta ?t) / 2)
        \<and> skew_front_in_dbl G (length (lam ?t)) (num_val (eta ?t))
              (det (sk_sigma_value ?t)) (quad_form (sk_sigma_value ?t) (lam ?t))
        \<and> (\<forall>r \<in> set [[- (5/8)]].
              skew_row_in_dbl K G (length (lam ?t)) (num_val (eta ?t))
                (det (sk_sigma_value ?t))
                (quad_form (sk_sigma_value ?t) (map2 (-) r (sk_mu_value ?t)))
                (quad_form (sk_sigma_value ?t) (lam ?t))
                (dot (cramer (sk_sigma_value ?t) (map2 (-) r (sk_mu_value ?t))) (lam ?t)))"
    unfolding t db K_def G_def using skew_example_in_dbl
    by (simp add: qb is_square_def)
  have v2: "snd (SkStDM_pdf_dbl K G ?t (Some (Vec [- (5/8)])))
              = Inr [Fin (skew_density K G 1 10 (167/240) 0 (60/167) 0)]"
    using from_theta_unchecked_dimension[where self="?t" and d="Vec [- (5/8)]"
        and rows="[[- (5/8)]]" and K=K and G=G, THEN conjunct2, THEN conjunct2, THEN conjunct2,
        THEN conjunct2, THEN conjunct2, THEN conjunct2, THEN conjunct1, rule_format, OF wk]
    unfolding t db by (simp add: qb)
  have mh: "0 < num_val (eta ?m) \<and> atleast_2d (Vec [0, 0]) = (ndim ?m, [[0, 0]])
        \<and> list_all (\<lambda>r. length r = ndim ?m) [[0, 0]]
        \<and> length (mu_value ?m) = ndim ?m
        \<and> is_square (sigma_value ?m) \<and> length (sigma_value ?m) = ndim ?m
        \<and> 0 < det (sigma_value ?m)
        \<and> (\<forall>r \<in> set [[0, 0]]. 0 \<le> quad_form (sigma_value ?m) (map2 (-) r (mu_value ?m)))
        \<and> mvst_front_in_dbl L (length (lam ?m)) (ndim ?m) (num_val (eta ?m))
              (det (sigma_value ?m))
        \<and> (\<forall>r \<in> set [[0, 0]].
              mvst_row_in_dbl L (length (lam ?m)) (ndim ?m) (num_val (eta ?m))
                (det (sigma_value ?m))
                (quad_form (sigma_value ?m) (map2 (-) r (mu_value ?m))))"
    unfolding m da L_def using mvst_example_in_dbl
    by (simp add: qa is_square_def)
  have "ln 120 - ln 24 = ln (5::real)"
    using ln_div[of 120 "24::real"] by simp
  then have gd: "exp (ln 120 - ln 24) = (5::real)"
    by (simp only: exp_ln zero_less_numeral)
  have v3: "snd (MvSt_pdf_dbl L ?m (Some (Vec [0, 0])))
              = Inr [Fin (((pi * 10) ^ 1 * (16 / 25)) powr (- (1 / 2)) * 5)]"
    using from_theta_unchecked_dimension[where self="?m" and d="Vec [0, 0]"
        and rows="[[0, 0]]" and lgam=L, THEN conjunct2, THEN conjunct2, THEN conjunct2,
        THEN conjunct2, THEN conjunct2, THEN conjunct2, THEN conjunct2, rule_format, OF mh]
    unfolding m da by (simp add: qa L_def fact_numeral gd)
  have "(pi * 10) * (16 / 25) < (pi * 10) ^ 2 * (16 / 25)"
  proof -
    have "1 < pi * 10" using pi_ge_two by simp
    then have "(pi * 10) * 1 < (pi * 10) * (pi * 10)"
      by (intro mult_strict_left_mono) simp_all
    then show ?thesis by (simp add: power2_eq_square)
  qed
  then have "((pi * 10) ^ 2 * (16 / 25)) powr (- (1 / 2)) < ((pi * 10) * (16 / 25)) powr (- (1 / 2))"
    by (intro powr_less_mono2_neg) simp_all
  then have lt: "student_density L 2 10 (16 / 25) 0
                   < ((pi * 10) ^ 1 * (16 / 25)) powr (- (1 / 2)) * 5"
    by (simp add: student_density_def L_def fact_numeral gd)
  show ?thesis
    using ft1 ft2 v1 v2 v3 lt unfolding L_def K_def G_def by blast
qed


section \<open>The two readings of the densities\<close>

text \<open>
  The missing-data error, the state of the object and the values at zero skewness were
  stated for the densities whose arithmetic does not overflow.  The same holds with the
  range of doubles: the two readings leave the same object behind and raise the
  missing-data error for the same calls; the symmetric densities return the same values
  whenever no step leaves the range; and with \<open>lam = 0\<close> the skewed density returns NaN for
  every row in the range of doubles as well, unless the power of a Python scalar
  overflows first.
\<close>

lemma py_pow_int_not_nodata: "py_pow_int sc x n \<noteq> Inl NoDataGiven"
  by (simp add: py_pow_int_def split: fl.splits)

lemma py_pow2_not_nodata: "py_pow2 sc y \<noteq> Inl NoDataGiven"
  by (simp add: py_pow2_def)

lemma MvSt_pdf_body_dbl_not_nodata: "MvSt_pdf_body_dbl lgam self x \<noteq> Inl NoDataGiven"
  by (auto simp: MvSt_pdf_body_dbl_def Let_def broadcast_sub_not_nodata
      MvSt_const_sigma_not_nodata scl_solve_not_nodata scl_det_not_nodata py_pow_int_not_nodata
      dest!: bind_err_Inl)

lemma SkStDM_pdf_body_dbl_not_nodata: "SkStDM_pdf_body_dbl K G self x \<noteq> Inl NoDataGiven"
  by (auto simp: SkStDM_pdf_body_dbl_def Let_def broadcast_sub_not_nodata
      SkStDM_const_mu_not_nodata scl_solve1_not_nodata
      SkStDM_const_sigma_not_nodata scl_solve_not_nodata scl_det_not_nodata
      py_pow_int_not_nodata py_pow2_not_nodata
      dest!: bind_err_Inl)

lemma pdf_dbl_state_and_missing_data:
  "fst (MvSt_pdf_dbl lgam self dat) = fst (MvSt_pdf lgam self dat)
   \<and> fst (SkStDM_pdf_dbl K G self dat) = fst (SkStDM_pdf K G self dat)
   \<and> (snd (MvSt_pdf_dbl lgam self dat) = Inl NoDataGiven) = (dat = None)
   \<and> (snd (SkStDM_pdf_dbl K G self dat) = Inl NoDataGiven) = (dat = None)"
  by (cases dat)
    (simp_all add: MvSt_pdf_def SkStDM_pdf_def MvSt_pdf_dbl_def SkStDM_pdf_dbl_def Let_def
      MvSt_pdf_body_dbl_not_nodata SkStDM_pdf_body_dbl_not_nodata)

lemma MvSt_pdf_dbl_agrees:
  assumes dom: "2 < num_val (eta self)"
    and lam: "length (lam self) = ndim self"
    and lmu: "length (mu_value self) = ndim self"
    and dat: "atleast_2d d = (ndim self, rows)"
    and rows: "list_all (\<lambda>r. length r = ndim self) rows"
    and spd: "sigma self \<noteq> None \<Longrightarrow>
                is_square (sigma_value self) \<and> length (sigma_value self) = ndim self
                \<and> 0 < det (sigma_value self)
                \<and> (\<forall>r \<in> set rows.
                      0 \<le> quad_form (sigma_value self) (map2 (-) r (mu_value self)))"
    and fr: "mvst_front_in_dbl lgam (ndim self) (ndim self) (num_val (eta self))
               (det (sigma_value self))"
    and rr: "\<forall>r \<in> set rows.
               mvst_row_in_dbl lgam (ndim self) (ndim self) (num_val (eta self))
                 (det (sigma_value self))
                 (quad_form (sigma_value self) (map2 (-) r (mu_value self)))"
  shows "MvSt_pdf_dbl lgam self (Some d) = MvSt_pdf lgam self (Some d)"
proof -
  have e: "0 < num_val (eta self)" using dom by simp
  note pd = sigma_value_pos_def[OF dom lmu rows spd]
  have "snd (MvSt_pdf_dbl lgam self (Some d)) =
           Inr (map (\<lambda>r. Fin (student_density lgam (ndim self) (num_val (eta self))
                                (det (sigma_value self))
                                (quad_form (sigma_value self) (map2 (-) r (mu_value self)))))
                  rows)"
    using MvSt_pdf_dbl_values[OF e lmu dat rows, of lgam] pd fr rr
    by (simp add: lam student_density_def)
  then have "snd (MvSt_pdf_dbl lgam self (Some d)) = snd (MvSt_pdf lgam self (Some d))"
    using MvSt_pdf_values[OF dom lam lmu dat rows spd, of lgam] by simp
  moreover have "fst (MvSt_pdf_dbl lgam self (Some d)) = fst (MvSt_pdf lgam self (Some d))"
    by (simp add: MvSt_pdf_def MvSt_pdf_dbl_def Let_def)
  ultimately show ?thesis by (rule prod_eqI[rotated])
qed

lemma dbl_ge_one: "1 < dbl_over"
proof -
  have "(2::real) ^ 970 + 1 \<le> 2 ^ 970 + 2 ^ 970" by simp
  also have "\<dots> = 2 ^ 971" by simp
  also have "\<dots> < (2::real) ^ 1024" by (intro power_strict_increasing) simp_all
  finally show ?thesis by (simp add: dbl_over_def)
qed

lemma dmul_NaN_right: "dmul x NaN = NaN"
  by (cases x) (simp_all add: dmul_def)

lemma kappa_zero_cases:
  "dpow (dmul x (rnd 0)) (1 / 2) = Fin 0 \<or> dpow (dmul x (rnd 0)) (1 / 2) = NaN"
  by (cases x) (simp_all add: dmul_def dpow_def rnd_0 signed_inf_def)

lemma dmul_PInf_zero: "dmul (dmul x PInf) (Fin 0) = NaN"
  by (cases x) (auto simp: dmul_def signed_inf_def)

lemma skew_zero_row:
  assumes nu: "0 < nu"
  shows "dmul (dmul (ddiv (dmul (dmul front
                 (sp_kv_dbl K nu (dpow (dmul x (rnd 0)) (1 / 2))))
                 (dpow (dpow (dmul x (rnd 0)) (1 / 2)) nu)) g) s) t = NaN"
proof -
  consider "dpow (dmul x (rnd 0)) (1 / 2) = Fin 0" | "dpow (dmul x (rnd 0)) (1 / 2) = NaN"
    using kappa_zero_cases by blast
  then have "dmul (dmul front (sp_kv_dbl K nu (dpow (dmul x (rnd 0)) (1 / 2))))
                 (dpow (dpow (dmul x (rnd 0)) (1 / 2)) nu) = NaN"
  proof cases
    case 1
    have "dpow (Fin 0) nu = Fin 0" using nu by (simp add: dpow_def rnd_0)
    then show ?thesis by (simp add: 1 dmul_PInf_zero)
  next
    case 2
    then show ?thesis by (simp add: dmul_NaN_right dmul_NaN_left)
  qed
  then show ?thesis by (simp add: ddiv_NaN_left dmul_NaN_left)
qed

lemma SkStDM_pdf_dbl_zero_lam:
  assumes lam0: "lam self = replicate (ndim self) 0"
    and dom: "2 < num_val (eta self)" "num_val (eta self) \<noteq> 4"
    and lmu: "length (mu_value self) = ndim self"
    and dat: "atleast_2d d = (ndim self, rows)"
    and rows: "list_all (\<lambda>r. length r = ndim self) rows"
    and spd: "sigma self \<noteq> None \<Longrightarrow>
                is_square (sigma_value self) \<and> length (sigma_value self) = ndim self
                \<and> 0 < det (sigma_value self)
                \<and> (\<forall>r \<in> set rows.
                      0 \<le> quad_form (sigma_value self) (map2 (-) r (mu_value self)))"
    and pw: "is_scalar (eta self) \<Longrightarrow>
               in_dbl (pi * num_val (eta self))
               \<and> (pi * num_val (eta self)) ^ ndim self < dbl_over"
  shows "snd (SkStDM_pdf_dbl K G self (Some d)) = Inr (map (\<lambda>r. NaN) rows)"
proof -
  define self' where "self' = self\<lparr>data := Some (Mat (ndim self) rows)\<rparr>"
  define e where "e = num_val (eta self)"
  define S where "S = sigma_value self"
  define m where "m = mu_value self"
  define k where "k = ndim self"
  have e: "e \<noteq> 0" "e \<noteq> 2" "e \<noteq> 4" "2 < e" using dom by (simp_all add: e_def)
  note pd = sigma_value_pos_def[OF dom(1) lmu rows spd]
  have S: "is_square S" "length S = k" "det S \<noteq> 0"
    using pd by (simp_all add: S_def k_def)
  have cm: "SkStDM_const_mu self' = Inr (map Fin m)"
    unfolding m_def using SkStDM_const_mu_zero_lam[of self'] lam0 e(2)
    by (simp add: self'_def e_def)
  have cs: "SkStDM_const_sigma self' = Inr (map (map Fin) S)"
    unfolding S_def using SkStDM_const_sigma_zero_lam[of self'] lam0 e(1-3)
    by (simp add: self'_def e_def)
  have ll: "length (lam self') = k" using lam0 by (simp add: self'_def k_def)
  have h: "length m = k" "list_all (\<lambda>r. length r = k) rows"
    using lmu rows by (simp_all add: m_def k_def)
  have q0: "quad_form S (lam self') = 0"
    using lam0 by (simp add: quad_form_def self'_def dot_replicate_zero)
  have s': "num_val (eta self') = e" "is_scalar (eta self') = is_scalar (eta self)"
    by (simp_all add: self'_def e_def)
  have nu: "0 < (e + real k) / 2" using e(4) by simp
  have "(2::real) powr (1 - (e + real k) / 2) < 2 powr 0"
    using e(4) by (intro powr_less_mono) simp_all
  then have "(2::real) powr (1 - (e + real k) / 2) < dbl_over"
    using dbl_ge_one by simp
  then obtain p2 where p2: "py_pow2 (is_scalar (eta self)) (1 - (e + real k) / 2) = Inr p2"
    by (simp add: py_pow2_def)
  obtain p where p: "py_pow_int (is_scalar (eta self)) (rnd (pi * e)) k = Inr p"
  proof (cases "is_scalar (eta self)")
    case True
    then have a: "in_dbl (pi * e)" "(pi * e) ^ k < dbl_over"
      using pw by (simp_all add: e_def k_def)
    have "0 \<le> (pi * e) ^ k" using e(4) by simp
    then have "\<bar>(pi * e) ^ k\<bar> < dbl_over" using a(2) by simp
    then show ?thesis
      using that True by (simp add: py_pow_int_def rnd_in_dbl[OF a(1)])
  next
    case False
    have "\<exists>p. py_pow_int False x k = Inr p" for x
      by (cases x) (simp_all add: py_pow_int_def)
    then show ?thesis
      using that False by metis
  qed
  have "SkStDM_pdf_body_dbl K G self' (k, rows) = Inr (map (\<lambda>r. NaN) rows)"
    unfolding SkStDM_pdf_body_dbl_raw[OF cm cs S(1,2) h(1) ll h(2) S(3)] s' p2 p bind_err_Inr q0
    by (simp only: skew_zero_row[OF nu])
  then show ?thesis
    using dat by (simp add: SkStDM_pdf_dbl_unfold self'_def k_def)
qed


section \<open>Simulated samples\<close>

lemma upt3: "[0..<3] = [0, Suc 0, 2]"
  by (simp add: upt_rec numeral_3_eq_3 numeral_2_eq_2)

lemma rvs_shape_two_dimensions:
  "\<forall>ig mv.
     (case SkStDM_rvs (SkStDM_init 2 (PyScalar 10) [1/10, 1/10] None None None) 3 ig mv of
        Inl e \<Rightarrow> False
      | Inr r \<Rightarrow> shape r = [3, 2])"
proof (intro allI)
  fix ig :: "nat \<Rightarrow> real" and mv :: "nat \<Rightarrow> nat \<Rightarrow> real"
  let ?a = "SkStDM_init 2 (PyScalar 10) [1/10, 1/10] None None None"
  have cs: "SkStDM_const_sigma ?a
              = Inr (map (map Fin) [[191/240, - (1/240)], [- (1/240), 191/240]])"
    using SkStDM_const_sigma_value[of ?a]
    by (simp add: SkStDM_init_def MultiDensity_init_def MultiDensity.defs SkStDM.defs
        sk_sigma_value_def upt2)
  have cm: "SkStDM_const_mu ?a = Inr (map Fin [- (1/8), - (1/8)])"
    using SkStDM_const_mu_value[of ?a]
    by (simp add: SkStDM_init_def MultiDensity_init_def MultiDensity.defs SkStDM.defs
        sk_mu_value_def)
  have f: "num_val (eta ?a) = 10" "lam ?a = [1/10, 1/10]"
    by (simp_all add: SkStDM_init_def MultiDensity_init_def MultiDensity.defs SkStDM.defs)
  show "case SkStDM_rvs ?a 3 ig mv of Inl e \<Rightarrow> False | Inr r \<Rightarrow> shape r = [3, 2]"
    unfolding SkStDM_rvs_def cs cm f
    by (simp add: fin_mat_Fin[of "[[191/240, - (1/240)], [- (1/240), 191/240]]", simplified]
        is_square_def upt2 upt3
        broadcast_op_def of_rows_def Let_def del: fpow.simps)
qed

lemma rvs_one_dimension:
  assumes l: "lam self = [l]" and m: "mu self = None" and s: "sigma self = None"
    and e: "4 < num_val (eta self)" and sz: "2 \<le> sz"
  shows "SkStDM_rvs self sz ig mv =
     Inr (Arr2 sz (map (\<lambda>i. map (\<lambda>j.
        fadd (Fin (num_val (eta self) / (2 - num_val (eta self)) * l + l * ig i))
             (fmul (fpow (Fin (ig i)) (1 / 2)) (Fin (mv j 0)))) [0..<sz]) [0..<sz]))"
proof -
  define ev where "ev = num_val (eta self)"
  define c where "c = (1 - 2 / ev) - 2 * ev / ((ev - 2) * (ev - 4)) * (l * l)"
  have e': "ev \<noteq> 0" "ev \<noteq> 2" "ev \<noteq> 4" "(ev / 2 \<le> 0) = False"
    using e by (simp_all add: ev_def)
  have cs: "SkStDM_const_sigma self = Inr (map (map Fin) [[c]])"
    using SkStDM_const_sigma_value[of self] e' l s
    by (simp add: sk_sigma_value_def ev_def c_def)
  have cm: "SkStDM_const_mu self = Inr [Fin (ev / (2 - ev) * l)]"
    using SkStDM_const_mu_value[of self] e' l m
    by (simp add: sk_mu_value_def ev_def)
  have sz1: "sz \<noteq> 1" "sz \<noteq> Suc 0" using sz by simp_all
  have sq: "is_square [[c]]" by (simp add: is_square_def)
  have mvn: "squeeze (Arr2 (length [[c]]) (map (\<lambda>i. map (\<lambda>j. Fin (mv i j)) [0..<length [[c]]]) [0..<sz]))
              = Arr1 (map (\<lambda>i. Fin (mv i 0)) [0..<sz])"
    using sz1 by (simp add: o_def)
  have t1: "broadcast_op fmul (Arr1 (map Fin [l])) (Arr2 1 (map (\<lambda>i. [Fin (ig i)]) [0..<sz]))
              = Inr (Arr2 1 (map (\<lambda>i. [Fin (l * ig i)]) [0..<sz]))"
    using sz1 by (simp add: broadcast_op_def of_rows_def cong: map_cong)
  have t2: "broadcast_op fadd (Arr1 [Fin (ev / (2 - ev) * l)])
               (Arr2 1 (map (\<lambda>i. [Fin (l * ig i)]) [0..<sz]))
              = Inr (Arr2 1 (map (\<lambda>i. [Fin (ev / (2 - ev) * l + l * ig i)]) [0..<sz]))"
    using sz1 by (simp add: broadcast_op_def of_rows_def cong: map_cong)
  have t3: "broadcast_op fmul (arr_pow (Arr2 1 (map (\<lambda>i. [Fin (ig i)]) [0..<sz])) (1 / 2))
               (Arr1 (map (\<lambda>i. Fin (mv i 0)) [0..<sz]))
              = Inr (Arr2 sz (map (\<lambda>i. map (\<lambda>j. fmul (fpow (Fin (ig i)) (1 / 2)) (Fin (mv j 0)))
                                   [0..<sz]) [0..<sz]))"
    using sz1 by (simp add: broadcast_op_def of_rows_def o_def del: fpow.simps cong: map_cong)
  have t4: "broadcast_op fadd (Arr2 1 (map (\<lambda>i. [Fin (ev / (2 - ev) * l + l * ig i)]) [0..<sz]))
               (Arr2 sz (map (\<lambda>i. map (\<lambda>j. fmul (fpow (Fin (ig i)) (1 / 2)) (Fin (mv j 0)))
                                   [0..<sz]) [0..<sz]))
              = Inr (Arr2 sz (map (\<lambda>i. map (\<lambda>j.
                  fadd (Fin (ev / (2 - ev) * l + l * ig i))
                       (fmul (fpow (Fin (ig i)) (1 / 2)) (Fin (mv j 0)))) [0..<sz]) [0..<sz]))"
    using sz1 by (simp add: broadcast_op_def of_rows_def del: fpow.simps cong: map_cong)
  show ?thesis
    unfolding SkStDM_rvs_def Let_def ev_def[symmetric] l
    by (simp only: e'(4) cs cm bind_err_Inr fin_mat_Fin option.case sq mvn t1 t2 t3 t4
        if_False not_True_eq_False simp_thms)
qed

text \<open>
  Claim C6.  The claim is that \<open>rvs(size)\<close> returns a \<open>(size, ndim)\<close> matrix whose rows are
  \<open>const_mu() + lam * m + sqrt(m) * z\<close>, as the docstring of \<open>rvs\<close> says too.  For
  \<open>ndim = 1\<close> and \<open>size\<close> from 2 on the code returns a \<open>(size, size)\<close> matrix instead,
  whatever the draws: the normal draws come back squeezed to shape \<open>(size,)\<close>, and
  \<open>igrv ** .5\<close> of shape \<open>(size, 1)\<close> times that broadcasts to \<open>(size, size)\<close>, pairing the
  mixing variable of sample \<open>i\<close> with the normal draw of sample \<open>j\<close>.
\<close>

theorem rvs_shape_one_dimension:
  assumes "lam self = [l]" and "mu self = None" and "sigma self = None"
    and "4 < num_val (eta self)" and "2 \<le> sz"
  shows "SkStDM_rvs self sz ig mv =
     Inr (Arr2 sz (map (\<lambda>i. map (\<lambda>j.
        fadd (Fin (num_val (eta self) / (2 - num_val (eta self)) * l + l * ig i))
             (fmul (fpow (Fin (ig i)) (1 / 2)) (Fin (mv j 0)))) [0..<sz]) [0..<sz]))
    \<and> shape (Arr2 sz (map (\<lambda>i. map (\<lambda>j.
        fadd (Fin (num_val (eta self) / (2 - num_val (eta self)) * l + l * ig i))
             (fmul (fpow (Fin (ig i)) (1 / 2)) (Fin (mv j 0)))) [0..<sz]) [0..<sz])) = [sz, sz]"
  using rvs_one_dimension[OF assms, of ig mv] by simp

theorem rvs_shape_one_dimension_witness:
  "\<forall>ig mv.
     SkStDM_rvs (SkStDM_init 1 (PyScalar 10) [1/10] None None None) 2 ig mv
       = Inr (Arr2 2
           [[fadd (Fin (- (1/8) + 1/10 * ig 0)) (fmul (fpow (Fin (ig 0)) (1/2)) (Fin (mv 0 0))),
             fadd (Fin (- (1/8) + 1/10 * ig 0)) (fmul (fpow (Fin (ig 0)) (1/2)) (Fin (mv 1 0)))],
            [fadd (Fin (- (1/8) + 1/10 * ig 1)) (fmul (fpow (Fin (ig 1)) (1/2)) (Fin (mv 0 0))),
             fadd (Fin (- (1/8) + 1/10 * ig 1)) (fmul (fpow (Fin (ig 1)) (1/2)) (Fin (mv 1 0)))]])
     \<and> ndim (SkStDM_init 1 (PyScalar 10) [1/10] None None None) = 1"
proof (intro allI)
  fix ig :: "nat \<Rightarrow> real" and mv :: "nat \<Rightarrow> nat \<Rightarrow> real"
  let ?a = "SkStDM_init 1 (PyScalar 10) [1/10] None None None"
  have f: "lam ?a = [1/10]" "mu ?a = None" "sigma ?a = None" "num_val (eta ?a) = 10"
    "ndim ?a = 1"
    by (simp_all add: SkStDM_init_def MultiDensity_init_def MultiDensity.defs SkStDM.defs)
  have h: "4 < num_val (eta ?a)" "(2::nat) \<le> 2" unfolding f by simp_all
  note r = rvs_shape_one_dimension[OF f(1-3) h, of ig mv, unfolded f]
  show "SkStDM_rvs ?a 2 ig mv
       = Inr (Arr2 2
           [[fadd (Fin (- (1/8) + 1/10 * ig 0)) (fmul (fpow (Fin (ig 0)) (1/2)) (Fin (mv 0 0))),
             fadd (Fin (- (1/8) + 1/10 * ig 0)) (fmul (fpow (Fin (ig 0)) (1/2)) (Fin (mv 1 0)))],
            [fadd (Fin (- (1/8) + 1/10 * ig 1)) (fmul (fpow (Fin (ig 1)) (1/2)) (Fin (mv 0 0))),
             fadd (Fin (- (1/8) + 1/10 * ig 1)) (fmul (fpow (Fin (ig 1)) (1/2)) (Fin (mv 1 0)))]])
     \<and> ndim ?a = 1"
    using r f(5) by (simp add: upt2 del: fpow.simps)
qed

end
